(* ===== verification/Zks_Prelude.thy ===== *)
theory Zks_Prelude
  imports Main "HOL-Library.Word"
begin

text \<open>
  Shared vocabulary of the development.

  \<^item> \<open>result\<close>: \<^verbatim>\<open>std::expected<T, E>\<close> as a sum (\<open>Inl\<close> the error), with the sequencing
    operator \<open>bind_result\<close> for the code's pattern "call, test, return the error".
  \<^item> \<open>string_of_nat\<close>, \<open>string_of_int\<close>: \<^verbatim>\<open>std::to_string\<close>, with its inverse and injectivity,
    which the identifiers \<open>sess-<n>\<close>, \<open>chatcmpl-<n>\<close> and \<open>extract-<n>\<close> depend on.
  \<^item> \<open>al_erase\<close>, \<open>al_emplace\<close>, \<open>al_put\<close>: \<^verbatim>\<open>erase\<close>, \<^verbatim>\<open>emplace\<close> and \<^verbatim>\<open>operator[]=\<close> of
    \<^verbatim>\<open>std::unordered_map\<close> on association lists with distinct keys.
  \<^item> \<open>u64_add\<close>, \<open>u64_sub\<close>: \<^verbatim>\<open>size_t\<close> arithmetic with its wrap-around.
\<close>

named_theorems result_simps \<open>rewriting results of operations that may fail\<close>
named_theorems store_simps \<open>rewriting association-list stores\<close>

type_synonym ('e, 'a) result = "'e + 'a"
type_synonym u64 = "64 word"

section \<open>Results\<close>

definition bind_result :: "('e, 'a) result \<Rightarrow> ('a \<Rightarrow> ('e, 'b) result) \<Rightarrow> ('e, 'b) result" where
  "bind_result r f = (case r of Inl e \<Rightarrow> Inl e | Inr x \<Rightarrow> f x)"

definition map_error :: "('e \<Rightarrow> 'f) \<Rightarrow> ('e, 'a) result \<Rightarrow> ('f, 'a) result" where
  "map_error g r = (case r of Inl e \<Rightarrow> Inl (g e) | Inr x \<Rightarrow> Inr x)"

lemma bind_result_simps [simp]:
  "bind_result (Inl e) f = Inl e"
  "bind_result (Inr x) f = f x"
  by (simp_all add: bind_result_def)

lemma bind_result_Inr_iff [result_simps]:
  "bind_result r f = Inr y \<longleftrightarrow> (\<exists>x. r = Inr x \<and> f x = Inr y)"
  by (cases r) auto

lemma bind_result_Inl_iff [result_simps]:
  "bind_result r f = Inl e \<longleftrightarrow> r = Inl e \<or> (\<exists>x. r = Inr x \<and> f x = Inl e)"
  by (cases r) auto

lemma map_error_simps [simp]:
  "map_error g (Inl e) = Inl (g e)"
  "map_error g (Inr x) = Inr x"
  by (simp_all add: map_error_def)

lemma map_error_Inr_iff [result_simps]: "map_error g r = Inr x \<longleftrightarrow> r = Inr x"
  by (cases r) auto

text \<open>A range-for loop whose body may return an error: \<open>fold_result\<close> stops at the first one.\<close>

fun fold_result :: "('a \<Rightarrow> 's \<Rightarrow> ('e, 's) result) \<Rightarrow> 'a list \<Rightarrow> 's \<Rightarrow> ('e, 's) result" where
  "fold_result f [] s = Inr s"
| "fold_result f (x # xs) s = bind_result (f x s) (fold_result f xs)"

lemma fold_result_append:
  "fold_result f (xs @ ys) s = bind_result (fold_result f xs s) (fold_result f ys)"
  by (induction xs arbitrary: s) (auto simp: bind_result_def split: sum.splits)

lemma fold_result_invariant:
  assumes "fold_result f xs s = Inr t" and "P s"
    and "\<And>x s s'. x \<in> set xs \<Longrightarrow> P s \<Longrightarrow> f x s = Inr s' \<Longrightarrow> P s'"
  shows "P t"
  using assms
proof (induction xs arbitrary: s)
  case Nil
  then show ?case by simp
next
  case (Cons x xs)
  from Cons.prems(1) obtain u where u: "f x s = Inr u" "fold_result f xs u = Inr t"
    by (auto simp: result_simps)
  have "P u" by (rule Cons.prems(3) [OF _ Cons.prems(2) u(1)]) simp
  show ?case by (rule Cons.IH [OF u(2) \<open>P u\<close>]) (rule Cons.prems(3), simp_all)
qed

section \<open>Decimal numbers\<close>

definition digit_char :: "nat \<Rightarrow> char" where
  "digit_char d = char_of (48 + d)"

fun string_of_nat :: "nat \<Rightarrow> string" where
  "string_of_nat n =
     (if n < 10 then [digit_char n] else string_of_nat (n div 10) @ [digit_char (n mod 10)])"

declare string_of_nat.simps [simp del]

definition string_of_int :: "int \<Rightarrow> string" where
  "string_of_int i = (if i < 0 then CHR ''-'' # string_of_nat (nat (- i)) else string_of_nat (nat i))"

definition nat_of_string :: "string \<Rightarrow> nat" where
  "nat_of_string s = foldl (\<lambda>a c. a * 10 + (of_char c - 48)) 0 s"

lemma of_char_digit_char [simp]: "d < 10 \<Longrightarrow> (of_char (digit_char d) :: nat) = 48 + d"
  by (simp add: digit_char_def)

lemma nat_of_string_of_nat [simp]: "nat_of_string (string_of_nat n) = n"
proof (induction n rule: string_of_nat.induct)
  case (1 n)
  then show ?case
    by (cases "n < 10") (simp_all add: nat_of_string_def string_of_nat.simps [of n])
qed

lemma string_of_nat_inject [simp]: "string_of_nat m = string_of_nat n \<longleftrightarrow> m = n"
  by (metis nat_of_string_of_nat)

definition is_digit_char :: "char \<Rightarrow> bool" where
  "is_digit_char c \<longleftrightarrow> (48::nat) \<le> of_char c \<and> (of_char c :: nat) \<le> 57"

lemma string_of_nat_digits: "list_all is_digit_char (string_of_nat n)"
proof (induction n rule: string_of_nat.induct)
  case (1 n)
  then show ?case
    by (cases "n < 10") (simp_all add: is_digit_char_def string_of_nat.simps [of n])
qed

section \<open>Association-list stores\<close>

definition al_erase :: "'k \<Rightarrow> ('k \<times> 'v) list \<Rightarrow> ('k \<times> 'v) list" where
  "al_erase k m = filter (\<lambda>p. fst p \<noteq> k) m"

definition al_emplace :: "'k \<Rightarrow> 'v \<Rightarrow> ('k \<times> 'v) list \<Rightarrow> ('k \<times> 'v) list" where
  "al_emplace k v m = (case map_of m k of None \<Rightarrow> m @ [(k, v)] | Some _ \<Rightarrow> m)"

definition al_put :: "'k \<Rightarrow> 'v \<Rightarrow> ('k \<times> 'v) list \<Rightarrow> ('k \<times> 'v) list" where
  "al_put k v m = al_erase k m @ [(k, v)]"

abbreviation al_keys :: "('k \<times> 'v) list \<Rightarrow> 'k list" where
  "al_keys m \<equiv> map fst m"

lemma map_of_snd_mem: "map_of m k = Some v \<Longrightarrow> v \<in> snd ` set m"
  by (force dest: map_of_SomeD)

lemma map_of_filter_key: "map_of (filter (\<lambda>p. P (fst p)) m) k = (if P k then map_of m k else None)"
  by (induction m) auto

lemma map_of_al_erase [store_simps]:
  "map_of (al_erase k m) k' = (if k' = k then None else map_of m k')"
  by (auto simp: al_erase_def map_of_filter_key [where P = "\<lambda>x. x \<noteq> k"])

lemma map_of_al_put [store_simps]:
  "map_of (al_put k v m) k' = (if k' = k then Some v else map_of m k')"
  by (simp add: al_put_def map_add_def map_of_al_erase split: option.splits)

lemma map_of_al_emplace [store_simps]:
  "map_of (al_emplace k v m) k' =
     (if k' = k then (case map_of m k of None \<Rightarrow> Some v | Some w \<Rightarrow> Some w) else map_of m k')"
  by (auto simp: al_emplace_def map_add_def split: option.splits)

lemma distinct_al_filter: "distinct (al_keys m) \<Longrightarrow> distinct (al_keys (filter P m))"
  by (induction m) auto

lemma distinct_al_erase [intro]: "distinct (al_keys m) \<Longrightarrow> distinct (al_keys (al_erase k m))"
  by (simp add: al_erase_def distinct_al_filter)

lemma distinct_al_put [intro]: "distinct (al_keys m) \<Longrightarrow> distinct (al_keys (al_put k v m))"
  by (auto simp: al_put_def al_erase_def distinct_al_filter)

lemma distinct_al_emplace [intro]: "distinct (al_keys m) \<Longrightarrow> distinct (al_keys (al_emplace k v m))"
  by (auto simp: al_emplace_def map_of_eq_None_iff split: option.splits)

lemma length_al_erase: "length (al_erase k m) \<le> length m"
  by (simp add: al_erase_def)

lemma length_al_erase_less: "map_of m k = Some v \<Longrightarrow> length (al_erase k m) < length m"
  unfolding al_erase_def by (rule length_filter_less [where x = "(k, v)"]) (auto dest: map_of_SomeD)

section \<open>Machine sizes\<close>

definition u64_add :: "nat \<Rightarrow> nat \<Rightarrow> nat" where
  "u64_add a b = (a + b) mod 2 ^ 64"

definition u64_sub :: "nat \<Rightarrow> nat \<Rightarrow> nat" where
  "u64_sub a b = (a + 2 ^ 64 - b) mod 2 ^ 64"

lemma u64_add_exact: "a + b < 2 ^ 64 \<Longrightarrow> u64_add a b = a + b"
  by (simp add: u64_add_def)

lemma u64_sub_exact: "b \<le> a \<Longrightarrow> a < 2 ^ 64 \<Longrightarrow> u64_sub a b = a - b"
proof -
  assume "b \<le> a" and "a < 2 ^ 64"
  then have "a + 2 ^ 64 - b = (a - b) + 2 ^ 64" and "a - b < 2 ^ 64" by linarith+
  then show ?thesis unfolding u64_sub_def by (metis mod_add_self2 mod_less)
qed

lemma u64_less_top: "unat n < 2 ^ 64 - 1 \<Longrightarrow> n < - 1" for n :: u64
  by (simp add: word_less_nat_alt unsigned_minus_1_eq_mask mask_eq_exp_minus_1)

end
