(* ===== verification/Json_Values.thy ===== *)
theory Json_Values
  imports Zks_Prelude "HOL-Library.List_Lexorder" "HOL-Library.Char_ord"
begin

text \<open>
  The data model of \<^verbatim>\<open>nlohmann::json\<close> as the server uses it, and the interface of the
  library functions whose code is not part of the repository.

  A value is null, a boolean, a signed, unsigned or floating number (a \<^verbatim>\<open>double\<close> is kept as
  its 64-bit pattern: the server never computes with it), a string, an array or an object.
  Objects are ordered maps in the library (\<^verbatim>\<open>std::map\<close>); here they are association lists kept
  sorted by \<open>obj_put\<close>, the model of \<^verbatim>\<open>j[key] = value\<close>. Parsing, serialising and the numeric
  conversions \<^verbatim>\<open>get<float>\<close>, \<^verbatim>\<open>get<int>\<close>, \<^verbatim>\<open>get<unsigned>\<close> are the fields of the record
  \<open>json_api\<close>, a parameter of the definitions that call them.
\<close>

datatype json =
    JNull
  | JBool bool
  | JInt int
  | JUInt nat
  | JFloat "64 word"
  | JString string
  | JArray "json list"
  | JObject "(string \<times> json) list"

record json_api =
  json_parse :: "string \<Rightarrow> (string, json) result"
  json_dump :: "json \<Rightarrow> string"
  json_get_float :: "json \<Rightarrow> 32 word"
  json_get_int :: "json \<Rightarrow> int"
  json_get_uint :: "json \<Rightarrow> nat"

section \<open>Type tests and look-up\<close>

fun is_object :: "json \<Rightarrow> bool" where
  "is_object (JObject _) = True"
| "is_object _ = False"

fun is_array :: "json \<Rightarrow> bool" where
  "is_array (JArray _) = True"
| "is_array _ = False"

fun is_string :: "json \<Rightarrow> bool" where
  "is_string (JString _) = True"
| "is_string _ = False"

fun is_boolean :: "json \<Rightarrow> bool" where
  "is_boolean (JBool _) = True"
| "is_boolean _ = False"

fun is_null :: "json \<Rightarrow> bool" where
  "is_null JNull = True"
| "is_null _ = False"

fun is_number_integer :: "json \<Rightarrow> bool" where
  "is_number_integer (JInt _) = True"
| "is_number_integer (JUInt _) = True"
| "is_number_integer _ = False"

fun is_number_unsigned :: "json \<Rightarrow> bool" where
  "is_number_unsigned (JUInt _) = True"
| "is_number_unsigned _ = False"

fun is_number :: "json \<Rightarrow> bool" where
  "is_number (JFloat _) = True"
| "is_number j = is_number_integer j"

fun entries :: "json \<Rightarrow> (string \<times> json) list" where
  "entries (JObject kvs) = kvs"
| "entries _ = []"

definition jfind :: "string \<Rightarrow> json \<Rightarrow> json option" where
  "jfind k j = map_of (entries j) k"

text \<open>The pattern "\<^verbatim>\<open>contains(f) && at(f).is_T()\<close>, then \<^verbatim>\<open>at(f).get<T>()\<close>" of the parsers.\<close>

definition string_field :: "string \<Rightarrow> json \<Rightarrow> string option" where
  "string_field k j = (case jfind k j of Some (JString s) \<Rightarrow> Some s | _ \<Rightarrow> None)"

definition array_field :: "string \<Rightarrow> json \<Rightarrow> json list option" where
  "array_field k j = (case jfind k j of Some (JArray xs) \<Rightarrow> Some xs | _ \<Rightarrow> None)"

definition object_field :: "string \<Rightarrow> json \<Rightarrow> json option" where
  "object_field k j = (case jfind k j of Some (JObject kvs) \<Rightarrow> Some (JObject kvs) | _ \<Rightarrow> None)"

section \<open>Building objects\<close>

text \<open>\<^verbatim>\<open>std::map::operator[]=\<close> with string keys, which the library uses for objects.\<close>

fun obj_put :: "string \<Rightarrow> 'v \<Rightarrow> (string \<times> 'v) list \<Rightarrow> (string \<times> 'v) list" where
  "obj_put k v [] = [(k, v)]"
| "obj_put k v ((k', v') # m) =
     (if k < k' then (k, v) # (k', v') # m
      else if k = k' then (k, v) # m
      else (k', v') # obj_put k v m)"

text \<open>
  An initialiser list \<^verbatim>\<open>{{"a", x}, {"b", y}}\<close>; the lists of the source have distinct keys, so
  the order of insertion does not matter.
\<close>

definition json_object :: "(string \<times> json) list \<Rightarrow> json" where
  "json_object kvs = JObject (fold (\<lambda>(k, v). obj_put k v) kvs [])"

definition jset :: "string \<Rightarrow> json \<Rightarrow> json \<Rightarrow> json" where
  "jset k v j = JObject (obj_put k v (entries j))"

definition sorted_keys :: "(string \<times> 'v) list \<Rightarrow> bool" where
  "sorted_keys m \<longleftrightarrow> sorted_wrt (<) (map fst m)"

lemma map_of_obj_put [store_simps]:
  "map_of (obj_put k v m) k' = (if k' = k then Some v else map_of m k')"
  by (induction m) auto

lemma set_keys_obj_put: "set (map fst (obj_put k v m)) = insert k (set (map fst m))"
proof (induction m)
  case Nil
  then show ?case by simp
next
  case (Cons p m)
  then show ?case by (cases p) (simp add: insert_commute)
qed

lemma sorted_keys_obj_put: "sorted_keys m \<Longrightarrow> sorted_keys (obj_put k v m)"
proof (induction m)
  case Nil
  then show ?case by (simp add: sorted_keys_def)
next
  case (Cons p m)
  obtain k' v' where p: "p = (k', v')" by (cases p)
  from Cons p have ih: "sorted_keys (obj_put k v m)" and m: "\<forall>x \<in> set (map fst m). k' < x"
    by (auto simp: sorted_keys_def)
  have "k' \<noteq> k \<Longrightarrow> \<not> k < k' \<Longrightarrow> \<forall>x \<in> set (map fst (obj_put k v m)). k' < x"
    using m by (auto simp: set_keys_obj_put simp del: set_map)
  with ih Cons.prems p m show ?case
    by (auto simp: sorted_keys_def)
qed

lemma map_of_fold_obj_put:
  "map_of (fold (\<lambda>(k, v). obj_put k v) kvs m) k = (map_of m ++ map_of (rev kvs)) k"
proof (induction kvs arbitrary: m)
  case Nil
  then show ?case by simp
next
  case (Cons p kvs)
  then show ?case
    by (cases p) (auto simp: map_of_obj_put map_add_def split: option.splits)
qed

lemma map_of_rev_keys: "distinct (map fst kvs) \<Longrightarrow> map_of (rev kvs) = map_of kvs"
proof (induction kvs)
  case Nil
  then show ?case by simp
next
  case (Cons p kvs)
  then have "map_of (rev kvs) (fst p) = None" by (simp add: map_of_eq_None_iff)
  with Cons show ?case by (auto simp: map_add_def fun_eq_iff split: option.splits)
qed

lemma jfind_json_object: "distinct (map fst kvs) \<Longrightarrow> jfind k (json_object kvs) = map_of kvs k"
  by (simp add: jfind_def json_object_def map_of_fold_obj_put map_of_rev_keys)

lemma jfind_jset [store_simps]: "jfind k' (jset k v j) = (if k' = k then Some v else jfind k' j)"
  by (simp add: jfind_def jset_def map_of_obj_put)

lemma is_object_simps [simp]: "is_object (json_object kvs)" "is_object (jset k v j)"
  by (simp_all add: json_object_def jset_def)

lemma sorted_keys_json_object: "sorted_keys (entries (json_object kvs))"
proof -
  have "sorted_keys m \<Longrightarrow> sorted_keys (fold (\<lambda>(k, v). obj_put k v) kvs m)" for m
    by (induction kvs arbitrary: m) (auto simp: sorted_keys_obj_put)
  from this [of "[]"] show ?thesis by (simp add: json_object_def sorted_keys_def)
qed

lemma string_field_Some_iff: "string_field k j = Some s \<longleftrightarrow> jfind k j = Some (JString s)"
  by (auto simp: string_field_def split: option.splits json.splits)

lemma array_field_Some_iff: "array_field k j = Some xs \<longleftrightarrow> jfind k j = Some (JArray xs)"
  by (auto simp: array_field_def split: option.splits json.splits)

lemma object_field_Some_iff: "object_field k j = Some x \<longleftrightarrow> jfind k j = Some x \<and> is_object x"
  by (cases x) (auto simp: object_field_def split: option.splits json.splits)

lemmas field_iffs = string_field_Some_iff array_field_Some_iff object_field_Some_iff

end
