(* ===== verification/Internal_Utils.thy ===== *)
theory Internal_Utils
  imports Json_Values
begin

text \<open>
  \<^verbatim>\<open>src/server/internal_utils.hpp\<close>: \<open>combine_system_prompts\<close> and \<open>reject_unknown_keys\<close>, the two
  helpers every request parser, the configuration loader and the session store share, and the
  clock \<open>now_seconds\<close>, whose readings are arguments of the operations that take one.
\<close>

definition newline :: char where
  "newline = CHR 0x0A"

definition combine_system_prompts :: "string \<Rightarrow> string \<Rightarrow> string" where
  "combine_system_prompts base_prompt request_prompt =
     (if base_prompt = [] then request_prompt
      else if request_prompt = [] then base_prompt
      else base_prompt @ [newline, newline] @ request_prompt)"

definition reject_unknown_keys :: "json \<Rightarrow> string \<Rightarrow> string list \<Rightarrow> (string, unit) result" where
  "reject_unknown_keys json context allowed_keys =
     (if \<not> is_object json then Inl (context @ '' must be a JSON object'')
      else case find (\<lambda>k. k \<notin> set allowed_keys) (map fst (entries json)) of
             Some k \<Rightarrow> Inl (''Unknown '' @ context @ '' key: '' @ k)
           | None \<Rightarrow> Inr ())"

text \<open>
  \<^verbatim>\<open>now_seconds\<close>: \<open>ticks\<close> is what \<^verbatim>\<open>system_clock\<close> counts since the epoch, \<open>rate\<close> the number of its
  ticks in a second; \<^verbatim>\<open>duration_cast\<close> rounds toward zero.
\<close>

definition now_seconds :: "int \<Rightarrow> int \<Rightarrow> int" where
  "now_seconds rate ticks = (if 0 \<le> ticks then ticks div rate else - (- ticks div rate))"

lemma now_seconds_mono: "0 < rate \<Longrightarrow> ticks \<le> ticks' \<Longrightarrow> now_seconds rate ticks \<le> now_seconds rate ticks'"
proof -
  assume rate: "0 < rate" and le: "ticks \<le> ticks'"
  consider "0 \<le> ticks" | "ticks < 0" "0 \<le> ticks'" | "ticks < 0" "ticks' < 0" using le by linarith
  then show ?thesis
  proof cases
    case 1
    with rate le show ?thesis by (simp add: now_seconds_def zdiv_mono1)
  next
    case 2
    with rate have "0 \<le> ticks' div rate" "0 \<le> - ticks div rate"
      by (simp_all add: pos_imp_zdiv_nonneg_iff)
    with 2 show ?thesis by (simp add: now_seconds_def)
  next
    case 3
    from rate le have "- ticks' div rate \<le> - ticks div rate" by (simp add: zdiv_mono1)
    with 3 show ?thesis by (simp add: now_seconds_def)
  qed
qed

lemma find_mem: "find P xs = Some x \<Longrightarrow> x \<in> set xs \<and> P x"
  by (auto simp: find_Some_iff)

lemma reject_unknown_keys_Inr_iff [result_simps]:
  "reject_unknown_keys j c ks = Inr u \<longleftrightarrow> is_object j \<and> set (map fst (entries j)) \<subseteq> set ks"
proof (cases "find (\<lambda>k. k \<notin> set ks) (map fst (entries j))")
  case None
  then have "set (map fst (entries j)) \<subseteq> set ks" by (auto simp: find_None_iff)
  with None show ?thesis by (simp add: reject_unknown_keys_def)
next
  case (Some k)
  then have "\<not> set (map fst (entries j)) \<subseteq> set ks" using find_mem by fastforce
  with Some show ?thesis by (simp add: reject_unknown_keys_def)
qed

lemma reject_unknown_keys_Inl_unknown:
  assumes "reject_unknown_keys j c ks = Inl e" and "is_object j"
  obtains k where "k \<in> set (map fst (entries j))" "k \<notin> set ks" "e = ''Unknown '' @ c @ '' key: '' @ k"
  using assms by (auto simp: reject_unknown_keys_def split: option.splits dest!: find_mem)

lemma combine_system_prompts_empty_iff [simp]:
  "combine_system_prompts a b = [] \<longleftrightarrow> a = [] \<and> b = []"
  by (simp add: combine_system_prompts_def)

lemma combine_system_prompts_prefix:
  "\<exists>rest. combine_system_prompts a b = a @ rest"
  by (auto simp: combine_system_prompts_def)

lemma combine_system_prompts_suffix:
  "\<exists>pre. combine_system_prompts a b = pre @ b"
proof (cases "a = [] \<or> b = []")
  case True
  then show ?thesis by (auto simp: combine_system_prompts_def)
next
  case False
  then have "combine_system_prompts a b = (a @ [newline, newline]) @ b"
    by (simp add: combine_system_prompts_def)
  then show ?thesis by blast
qed

end
