(* ===== verification/Api_Types.thy ===== *)
theory Api_Types
  imports Internal_Utils
begin

text \<open>
  \<^verbatim>\<open>src/server/api_types.hpp\<close> and \<^verbatim>\<open>api_types.cpp\<close>: messages, API errors and their
  constructors, the request and result structures, the completion and extraction handles, and
  the release-once \<^verbatim>\<open>CompletionLease\<close>.

  The types the header takes over from the zoo library (\<^verbatim>\<open>zoo::Role\<close>, \<^verbatim>\<open>zoo::Message\<close>,
  \<^verbatim>\<open>zoo::ErrorCode\<close>, \<^verbatim>\<open>zoo::ToolInvocation\<close>, \<^verbatim>\<open>zoo::GenerationOptions\<close>) carry the members and
  enumerators the server's own code names. The library's role-sequence check is a function
  parameter, \<open>validate_role_sequence\<close>.
  A handle's future is \<open>None\<close> while the result is outstanding; \<open>get\<close> then blocks, which is the
  result \<open>None\<close> of the model.
\<close>

section \<open>Messages\<close>

datatype message_role = System | User | Assistant | Tool

record tool_call =
  call_id :: string
  call_name :: string
  call_arguments :: string

record chat_message =
  msg_role :: message_role
  msg_content :: string
  msg_tool_call_id :: string
  msg_tool_calls :: "tool_call list"

definition system_message :: "string \<Rightarrow> chat_message" where
  "system_message text = \<lparr>msg_role = System, msg_content = text, msg_tool_call_id = [], msg_tool_calls = []\<rparr>"

definition user_message :: "string \<Rightarrow> chat_message" where
  "user_message text = \<lparr>msg_role = User, msg_content = text, msg_tool_call_id = [], msg_tool_calls = []\<rparr>"

definition assistant_message :: "string \<Rightarrow> chat_message" where
  "assistant_message text = \<lparr>msg_role = Assistant, msg_content = text, msg_tool_call_id = [], msg_tool_calls = []\<rparr>"

definition tool_message :: "string \<Rightarrow> string \<Rightarrow> chat_message" where
  "tool_message text tid = \<lparr>msg_role = Tool, msg_content = text, msg_tool_call_id = tid, msg_tool_calls = []\<rparr>"

definition assistant_with_tool_calls :: "string \<Rightarrow> tool_call list \<Rightarrow> chat_message" where
  "assistant_with_tool_calls text calls =
     \<lparr>msg_role = Assistant, msg_content = text, msg_tool_call_id = [], msg_tool_calls = calls\<rparr>"

lemma message_roles [simp]:
  "msg_role (system_message t) = System" "msg_role (user_message t) = User"
  "msg_role (assistant_message t) = Assistant" "msg_role (tool_message t i) = Tool"
  "msg_role (assistant_with_tool_calls t cs) = Assistant"
  "msg_content (system_message t) = t" "msg_content (user_message t) = t"
  "msg_content (assistant_message t) = t" "msg_content (tool_message t i) = t"
  by (simp_all add: system_message_def user_message_def assistant_message_def tool_message_def
      assistant_with_tool_calls_def)

type_synonym role_validator = "chat_message list \<Rightarrow> message_role \<Rightarrow> (string, unit) result"

definition validate_message_sequence ::
  "role_validator \<Rightarrow> chat_message list \<Rightarrow> message_role \<Rightarrow> (string, unit) result" where
  "validate_message_sequence validate_role_sequence history next_role =
     (case validate_role_sequence history next_role of
        Inl message \<Rightarrow> Inl message
      | Inr _ \<Rightarrow> Inr ())"

section \<open>Errors\<close>

datatype runtime_error_code =
    InvalidConfig | InvalidSamplingParams | InvalidModelPath | InvalidContextSize
  | BackendInitFailed | ModelLoadFailed | ContextCreationFailed | InferenceFailed
  | TokenizationFailed | ContextWindowExceeded | InvalidMessageSequence | TemplateRenderFailed
  | AgentNotRunning | RequestCancelled | RequestTimeout | QueueFull | ToolNotFound
  | ToolExecutionFailed | InvalidToolSignature | InvalidToolSchema | ToolValidationFailed
  | ToolRetriesExhausted | ToolLoopLimitReached | InvalidOutputSchema | ExtractionFailed
  | GgufReadFailed | GgufMetadataNotFound | StoreCorrupted | FilesystemError | ModelNotFound
  | ModelAlreadyExists | DownloadFailed | HuggingFaceApiError | InvalidModelIdentifier | Unknown

record runtime_error =
  rt_code :: runtime_error_code
  rt_message :: string
  rt_context :: "string option"

type_synonym 'a runtime_result = "(runtime_error, 'a) result"

record api_error =
  http_status :: nat
  err_message :: string
  err_type :: string
  err_param :: "string option"
  err_code :: "string option"

type_synonym 'a api_result = "(api_error, 'a) result"

definition invalid_request_error :: "string \<Rightarrow> string option \<Rightarrow> string option \<Rightarrow> api_error" where
  "invalid_request_error message param code =
     \<lparr>http_status = 400, err_message = message, err_type = ''invalid_request_error'',
      err_param = param, err_code = code\<rparr>"

definition service_unavailable_error :: "string \<Rightarrow> string option \<Rightarrow> api_error" where
  "service_unavailable_error message code =
     \<lparr>http_status = 503, err_message = message, err_type = ''service_unavailable_error'',
      err_param = None, err_code = code\<rparr>"

definition server_error :: "string \<Rightarrow> string option \<Rightarrow> api_error" where
  "server_error message code =
     \<lparr>http_status = 500, err_message = message, err_type = ''server_error'',
      err_param = None, err_code = code\<rparr>"

definition not_found_error :: "string \<Rightarrow> string option \<Rightarrow> api_error" where
  "not_found_error message code =
     \<lparr>http_status = 404, err_message = message, err_type = ''not_found_error'',
      err_param = None, err_code = code\<rparr>"

definition conflict_error :: "string \<Rightarrow> string option \<Rightarrow> api_error" where
  "conflict_error message code =
     \<lparr>http_status = 409, err_message = message, err_type = ''conflict_error'',
      err_param = None, err_code = code\<rparr>"

definition auth_error :: "string \<Rightarrow> string option \<Rightarrow> api_error" where
  "auth_error message code =
     \<lparr>http_status = 401, err_message = message, err_type = ''auth_error'',
      err_param = None, err_code = code\<rparr>"

lemmas error_defs = invalid_request_error_def service_unavailable_error_def server_error_def
  not_found_error_def conflict_error_def auth_error_def

lemma error_status [simp]:
  "http_status (invalid_request_error m p c) = 400"
  "http_status (service_unavailable_error m c) = 503"
  "http_status (server_error m c) = 500"
  "http_status (not_found_error m c) = 404"
  "http_status (conflict_error m c) = 409"
  "http_status (auth_error m c) = 401"
  by (simp_all add: error_defs)

lemma error_code [simp]:
  "err_code (invalid_request_error m p c) = c"
  "err_code (service_unavailable_error m c) = c"
  "err_code (server_error m c) = c"
  "err_code (not_found_error m c) = c"
  "err_code (conflict_error m c) = c"
  "err_code (auth_error m c) = c"
  by (simp_all add: error_defs)

text \<open>The well-formedness every API error of the server has: a status and the type that goes with it.\<close>

definition api_error_wf :: "api_error \<Rightarrow> bool" where
  "api_error_wf e \<longleftrightarrow>
     (http_status e, err_type e) \<in>
       {(400, ''invalid_request_error''), (401, ''auth_error''), (404, ''not_found_error''),
        (409, ''conflict_error''), (500, ''server_error''), (503, ''service_unavailable_error'')}"

lemma api_error_wf_intros [simp, intro]:
  "api_error_wf (invalid_request_error m p c)"
  "api_error_wf (service_unavailable_error m c)"
  "api_error_wf (server_error m c)"
  "api_error_wf (not_found_error m c)"
  "api_error_wf (conflict_error m c)"
  "api_error_wf (auth_error m c)"
  by (simp_all add: api_error_wf_def error_defs)

section \<open>Results\<close>

record tool_definition =
  td_name :: string
  td_description :: string
  parameters_schema :: json

datatype tool_invocation_status = Succeeded | ExecutionFailed | OtherStatus nat

record tool_invocation =
  inv_id :: string
  inv_name :: string
  inv_arguments_json :: string
  inv_status :: tool_invocation_status
  inv_result_json :: "string option"
  inv_error :: "runtime_error option"

record completion_usage =
  prompt_tokens :: int
  completion_tokens :: int
  total_tokens :: int

record completion_metrics =
  latency_ms :: int
  time_to_first_token_ms :: int
  tokens_per_second :: "64 word"

record completion_result =
  cr_text :: string
  cr_usage :: completion_usage
  cr_metrics :: completion_metrics
  cr_tool_invocations :: "tool_invocation list"

record extraction_result =
  er_text :: string
  er_data :: json
  er_usage :: completion_usage
  er_metrics :: completion_metrics
  er_tool_invocations :: "tool_invocation list"

section \<open>Requests\<close>

text \<open>
  The nine per-request sampling overrides the three request structures repeat are one record;
  the templates \<^verbatim>\<open>parse_generation_overrides\<close> and \<^verbatim>\<open>merge_request_overrides_impl\<close> work on it.
\<close>

record generation_overrides =
  ov_temperature :: "32 word option"
  ov_top_p :: "32 word option"
  ov_top_k :: "int option"
  ov_repeat_penalty :: "32 word option"
  ov_repeat_last_n :: "int option"
  ov_max_tokens :: "int option"
  ov_seed :: "int option"
  ov_stop :: "string list option"
  ov_record_tool_trace :: "bool option"

definition no_overrides :: generation_overrides where
  "no_overrides = \<lparr>ov_temperature = None, ov_top_p = None, ov_top_k = None,
     ov_repeat_penalty = None, ov_repeat_last_n = None, ov_max_tokens = None, ov_seed = None,
     ov_stop = None, ov_record_tool_trace = None\<rparr>"

record chat_completion_request =
  cc_model :: string
  cc_messages :: "chat_message list"
  cc_stream :: bool
  cc_session_id :: "string option"
  cc_overrides :: generation_overrides

record extraction_request =
  ex_model :: string
  ex_schema :: json
  ex_messages :: "chat_message list"
  ex_stream :: bool
  ex_session_id :: "string option"
  ex_overrides :: generation_overrides

record agent_chat_request =
  ac_model :: string
  ac_message :: chat_message
  ac_overrides :: generation_overrides

record session_create_request =
  sc_model :: string
  sc_system_prompt :: "string option"

record session_summary =
  ss_id :: string
  ss_model :: string
  ss_created :: int
  ss_last_used :: int
  ss_expires_at :: int

record session_health =
  sh_enabled :: bool
  sh_active :: nat
  sh_max_sessions :: nat
  sh_idle_ttl_seconds :: nat

record agent_history_snapshot =
  ah_messages :: "chat_message list"
  ah_estimated_tokens :: int
  ah_context_size :: int
  ah_context_exceeded :: bool

end
