(* ===== verification/Handles.thy ===== *)
theory Handles
  imports Api_Types
begin

text \<open>
  The two result handles and the lease of \<^verbatim>\<open>api_types.hpp\<close>.

  \<^verbatim>\<open>CompletionHandle\<close> and \<^verbatim>\<open>ExtractionHandle\<close> share a contract, the locale \<open>one_shot_handle\<close>:
  the result of the underlying future is delivered by at most one \<open>get\<close>, every later \<open>get\<close>
  returns an error, and \<open>wait_for\<close> never blocks again. Both are interpreted below.
  \<^verbatim>\<open>CompletionLease\<close> runs its callback on the first \<open>release\<close> and never again.
\<close>

record 'r future_state =
  future :: "'r runtime_result option"
  consumed :: bool

record 'r handle =
  handle_id :: u64
  handle_state :: "'r future_state option"

datatype future_status = Ready | Timeout

text \<open>
  \<open>wait_for (0 ms)\<close> is the only use in the server: ready exactly when the result is there.
\<close>

definition completion_wait_for :: "completion_result handle \<Rightarrow> future_status" where
  "completion_wait_for h =
     (case handle_state h of
        None \<Rightarrow> Ready
      | Some s \<Rightarrow> if consumed s then Ready
                  else if future s = None then Timeout else Ready)"

definition completion_get ::
  "completion_result handle \<Rightarrow> (completion_result runtime_result \<times> completion_result handle) option" where
  "completion_get h =
     (case handle_state h of
        None \<Rightarrow> Some (Inl \<lparr>rt_code = Unknown, rt_message = ''Completion handle is not ready'',
                          rt_context = None\<rparr>, h)
      | Some s \<Rightarrow>
          if consumed s
          then Some (Inl \<lparr>rt_code = Unknown, rt_message = ''Completion result was already consumed'',
                         rt_context = None\<rparr>, h)
          else (case future s of
                  None \<Rightarrow> None
                | Some r \<Rightarrow> Some (r, h\<lparr>handle_state := Some (s\<lparr>consumed := True\<rparr>)\<rparr>)))"

definition make_completion_handle ::
  "u64 \<Rightarrow> completion_result runtime_result option \<Rightarrow> completion_result handle" where
  "make_completion_handle i fut =
     \<lparr>handle_id = i, handle_state = Some \<lparr>future = fut, consumed = False\<rparr>\<rparr>"

definition extraction_wait_for :: "extraction_result handle \<Rightarrow> future_status" where
  "extraction_wait_for h =
     (case handle_state h of
        None \<Rightarrow> Ready
      | Some s \<Rightarrow> if consumed s then Ready
                  else if future s = None then Timeout else Ready)"

definition extraction_get ::
  "extraction_result handle \<Rightarrow> (extraction_result runtime_result \<times> extraction_result handle) option" where
  "extraction_get h =
     (case handle_state h of
        None \<Rightarrow> Some (Inl \<lparr>rt_code = Unknown, rt_message = ''Extraction handle is not ready'',
                          rt_context = None\<rparr>, h)
      | Some s \<Rightarrow>
          if consumed s
          then Some (Inl \<lparr>rt_code = Unknown, rt_message = ''Extraction result was already consumed'',
                         rt_context = None\<rparr>, h)
          else (case future s of
                  None \<Rightarrow> None
                | Some r \<Rightarrow> Some (r, h\<lparr>handle_state := Some (s\<lparr>consumed := True\<rparr>)\<rparr>)))"

definition make_extraction_handle ::
  "u64 \<Rightarrow> extraction_result runtime_result option \<Rightarrow> extraction_result handle" where
  "make_extraction_handle i fut =
     \<lparr>handle_id = i, handle_state = Some \<lparr>future = fut, consumed = False\<rparr>\<rparr>"

text \<open>The lease: \<open>on_release\<close> is the possibly empty callback, \<open>release_once\<close> the once flag.\<close>

record 's lease =
  on_release :: "('s \<Rightarrow> 's) option"
  release_once :: bool

definition lease_release :: "'s lease \<Rightarrow> 's \<Rightarrow> 's lease \<times> 's" where
  "lease_release l s =
     (if release_once l then (l, s)
      else (l\<lparr>release_once := True\<rparr>, (case on_release l of None \<Rightarrow> s | Some f \<Rightarrow> f s)))"

fun lease_releases :: "nat \<Rightarrow> 's lease \<times> 's \<Rightarrow> 's lease \<times> 's" where
  "lease_releases 0 p = p"
| "lease_releases (Suc n) p = lease_releases n (lease_release (fst p) (snd p))"

section \<open>The contract of a handle\<close>

locale one_shot_handle =
  fixes get :: "'h \<Rightarrow> ('r runtime_result \<times> 'h) option"
    and wait :: "'h \<Rightarrow> future_status"
    and make :: "u64 \<Rightarrow> 'r runtime_result option \<Rightarrow> 'h"
    and spent :: "'h \<Rightarrow> bool"
    and spent_error :: "'h \<Rightarrow> runtime_error"
  assumes get_fresh: "\<exists>h'. get (make i (Some r)) = Some (r, h')"
    and get_blocks: "get (make i None) = None"
    and get_spends: "get h = Some (r, h') \<Longrightarrow> spent h'"
    and get_spent: "spent h \<Longrightarrow> get h = Some (Inl (spent_error h), h)"
    and wait_ready: "wait h = Ready \<longleftrightarrow> get h \<noteq> None"
begin

lemma get_twice:
  assumes "get h = Some (r, h')"
  shows "get h' = Some (Inl (spent_error h'), h')"
  using assms get_spends get_spent by blast

lemma wait_after_get: "get h = Some (r, h') \<Longrightarrow> wait h' = Ready"
  using get_twice wait_ready by force

lemma made_ready: "wait (make i (Some r)) = Ready"
  using get_fresh wait_ready by (metis option.distinct(1))

lemma made_pending: "wait (make i None) = Timeout"
  using get_blocks wait_ready by (metis future_status.exhaust)

end

definition handle_spent :: "'r handle \<Rightarrow> bool" where
  "handle_spent h \<longleftrightarrow> (case handle_state h of None \<Rightarrow> True | Some s \<Rightarrow> consumed s)"

definition completion_spent_error :: "completion_result handle \<Rightarrow> runtime_error" where
  "completion_spent_error h = \<lparr>rt_code = Unknown,
     rt_message = (if handle_state h = None then ''Completion handle is not ready''
                   else ''Completion result was already consumed''), rt_context = None\<rparr>"

definition extraction_spent_error :: "extraction_result handle \<Rightarrow> runtime_error" where
  "extraction_spent_error h = \<lparr>rt_code = Unknown,
     rt_message = (if handle_state h = None then ''Extraction handle is not ready''
                   else ''Extraction result was already consumed''), rt_context = None\<rparr>"

interpretation completion: one_shot_handle completion_get completion_wait_for
  make_completion_handle handle_spent completion_spent_error
  by unfold_locales
    (auto simp: completion_get_def completion_wait_for_def make_completion_handle_def
      handle_spent_def completion_spent_error_def split: option.splits if_splits)

interpretation extraction: one_shot_handle extraction_get extraction_wait_for
  make_extraction_handle handle_spent extraction_spent_error
  by unfold_locales
    (auto simp: extraction_get_def extraction_wait_for_def make_extraction_handle_def
      handle_spent_def extraction_spent_error_def split: option.splits if_splits)

section \<open>The lease runs its callback once\<close>

lemma lease_release_idempotent:
  "lease_release l s = (l', s') \<Longrightarrow> lease_release l' t = (l', t)"
  by (auto simp: lease_release_def split: if_splits)

lemma lease_releases_released: "release_once l \<Longrightarrow> lease_releases n (l, s) = (l, s)"
  by (induction n) (simp_all add: lease_release_def)


section \<open>Properties\<close>

text \<open>
  A completion or extraction handle yields its result once: whatever \<open>get\<close> returned, the
  next \<open>get\<close> does not block and returns the error that says so, without changing the handle, and
  \<open>wait_for\<close> reports ready; a fresh handle is ready exactly when its result is there.
\<close>

theorem handles_are_one_shot:
  assumes "completion_get h = Some (r, h')" and "extraction_get x = Some (q, x')"
  shows "completion_get h' = Some (Inl (completion_spent_error h'), h') \<and> completion_wait_for h' = Ready
    \<and> extraction_get x' = Some (Inl (extraction_spent_error x'), x') \<and> extraction_wait_for x' = Ready
    \<and> (\<forall>i fut. completion_wait_for (make_completion_handle i fut) = (if fut = None then Timeout else Ready))
    \<and> (\<forall>i fut. extraction_wait_for (make_extraction_handle i fut) = (if fut = None then Timeout else Ready))"
  using completion.get_twice [OF assms(1)] completion.wait_after_get [OF assms(1)]
    extraction.get_twice [OF assms(2)] extraction.wait_after_get [OF assms(2)]
  by (auto simp: completion.made_ready completion.made_pending extraction.made_ready extraction.made_pending)

definition demo_cancelled :: runtime_error where
  "demo_cancelled = \<lparr>rt_code = RequestCancelled, rt_message = ''cancelled'', rt_context = None\<rparr>"

theorem handles_are_one_shot_witness:
  "completion_get (make_completion_handle 4 (Some (Inl demo_cancelled))) =
     Some (Inl demo_cancelled, (make_completion_handle 4 (Some (Inl demo_cancelled)))
       \<lparr>handle_state := Some \<lparr>future = Some (Inl demo_cancelled), consumed = True\<rparr>\<rparr>)
   \<and> completion_wait_for ((make_completion_handle 4 (Some (Inl demo_cancelled)))
       \<lparr>handle_state := Some \<lparr>future = Some (Inl demo_cancelled), consumed = True\<rparr>\<rparr>) = Ready"
proof -
  let ?h = "make_completion_handle 4 (Some (Inl demo_cancelled))"
  let ?h' = "?h\<lparr>handle_state := Some \<lparr>future = Some (Inl demo_cancelled), consumed = True\<rparr>\<rparr>"
  let ?x = "make_extraction_handle 5 (Some (Inl demo_cancelled))"
  let ?x' = "?x\<lparr>handle_state := Some \<lparr>future = Some (Inl demo_cancelled), consumed = True\<rparr>\<rparr>"
  have h: "completion_get ?h = Some (Inl demo_cancelled, ?h')"
    by (simp add: completion_get_def make_completion_handle_def)
  have x: "extraction_get ?x = Some (Inl demo_cancelled, ?x')"
    by (simp add: extraction_get_def make_extraction_handle_def)
  from handles_are_one_shot [OF h x] h show ?thesis by simp
qed

text \<open>
  A lease runs its callback exactly once however often it is released (the destructor's
  release included), and not at all if it is never released.
\<close>

theorem lease_runs_once:
  "snd (lease_releases n (\<lparr>on_release = callback, release_once = False\<rparr>, s)) =
     (if n = 0 then s else case callback of None \<Rightarrow> s | Some f \<Rightarrow> f s)"
  by (cases n) (simp_all add: lease_release_def lease_releases_released split: option.splits)

end
