(* ===== verification/Session_Store.thy ===== *)
theory Session_Store
  imports Handles
begin

text \<open>
  \<^verbatim>\<open>src/server/session_manager.hpp\<close> and \<^verbatim>\<open>session_manager.cpp\<close>: the per-session conversation store.

  \<^verbatim>\<open>sessions_\<close> maps identifiers to \<^verbatim>\<open>shared_ptr<SessionState>\<close>; the objects live on a heap
  (\<open>st_heap\<close>, addressed by position and never freed), so that an operation which looked a
  session up under the store's mutex and works on it later, under the session's own mutex,
  still reaches the object after another thread removed it from the map. Each critical section
  is a definition (\<open>begin_lookup\<close>, \<open>begin_activate\<close>, \<open>erase_section\<close>, \<open>close_section\<close>,
  \<open>commit_section\<close>, \<open>release_section\<close>), and a public operation composes its sections; the
  theory \<open>Session_Threads\<close> interleaves them. Clock readings are arguments, in the order the code
  takes them. Log lines are not modelled.
\<close>

section \<open>State\<close>

record session_config =
  max_sessions :: nat
  idle_ttl_seconds :: nat

definition sessions_enabled :: "session_config \<Rightarrow> bool" where
  "sessions_enabled c \<longleftrightarrow> max_sessions c > 0"

record session_state =
  s_id :: string
  s_model :: string
  s_created :: int
  s_last_used :: int
  s_expires_at :: int
  s_history :: "chat_message list"
  s_active_request :: "u64 option"
  s_closed :: bool

record session_store =
  st_model_id :: string
  st_config :: session_config
  st_base_system_prompt :: string
  st_max_history_messages :: nat
  st_next_session_id :: u64
  st_heap :: "session_state list"
  st_sessions :: "(string \<times> nat) list"
  st_stopping :: bool

record begin_request_result =
  br_messages :: "chat_message list"
  br_started_at :: int
  br_user_message :: chat_message

definition make_session_state ::
  "string \<Rightarrow> string \<Rightarrow> int \<Rightarrow> int \<Rightarrow> chat_message list \<Rightarrow> session_state" where
  "make_session_state session_id session_model created_at expires_at_value seeded_history =
     \<lparr>s_id = session_id, s_model = session_model, s_created = created_at,
      s_last_used = created_at, s_expires_at = expires_at_value, s_history = seeded_history,
      s_active_request = None, s_closed = False\<rparr>"

definition make_session_store :: "string \<Rightarrow> session_config \<Rightarrow> string \<Rightarrow> nat \<Rightarrow> session_store" where
  "make_session_store model_id config base_system_prompt max_history_messages =
     \<lparr>st_model_id = model_id, st_config = config, st_base_system_prompt = base_system_prompt,
      st_max_history_messages = max_history_messages, st_next_session_id = 1, st_heap = [],
      st_sessions = [], st_stopping = False\<rparr>"

section \<open>History\<close>

definition make_initial_history :: "string \<Rightarrow> string option \<Rightarrow> chat_message list" where
  "make_initial_history base_prompt request_prompt =
     (let effective_prompt =
            combine_system_prompts base_prompt (case request_prompt of None \<Rightarrow> [] | Some p \<Rightarrow> p)
      in if effective_prompt = [] then [] else [system_message effective_prompt])"

text \<open>The \<^verbatim>\<open>while\<close> loop of \<^verbatim>\<open>trim_history_to_fit\<close>: the next user message at or after a position.\<close>

function skip_to_user :: "chat_message list \<Rightarrow> nat \<Rightarrow> nat" where
  "skip_to_user messages erase_end =
     (if erase_end < length messages \<and> msg_role (messages ! erase_end) \<noteq> User
      then skip_to_user messages (Suc erase_end) else erase_end)"
  by pat_completeness auto
termination
  by (relation "measure (\<lambda>(messages, erase_end). length messages - erase_end)") auto

declare skip_to_user.simps [simp del]

definition system_offset :: "chat_message list \<Rightarrow> nat" where
  "system_offset messages = (if messages \<noteq> [] \<and> msg_role (hd messages) = System then 1 else 0)"

text \<open>The range \<^verbatim>\<open>[first, last)\<close> handed to \<^verbatim>\<open>messages.erase\<close>; \<open>None\<close> where the code returns early.\<close>

definition trim_range :: "chat_message list \<Rightarrow> nat \<Rightarrow> (nat \<times> nat) option" where
  "trim_range messages max_history_messages =
     (let offset = system_offset messages in
      if length messages \<le> u64_add offset max_history_messages then None
      else let erase_end = u64_sub (length messages) max_history_messages;
               erase_end = (if erase_end < offset then offset else erase_end);
               erase_end = skip_to_user messages erase_end
           in if erase_end \<le> offset then None else Some (offset, erase_end))"

definition trim_history_to_fit :: "chat_message list \<Rightarrow> nat \<Rightarrow> chat_message list" where
  "trim_history_to_fit messages max_history_messages =
     (case trim_range messages max_history_messages of
        None \<Rightarrow> messages
      | Some (erase_first, erase_last) \<Rightarrow> take erase_first messages @ drop erase_last messages)"

section \<open>Operations\<close>

definition disabled_error :: api_error where
  "disabled_error =
     invalid_request_error ''Sessions are disabled for this server'' (Some ''session_id'')
       (Some ''sessions_disabled'')"

definition unknown_session_error :: "string \<Rightarrow> api_error" where
  "unknown_session_error session_id =
     not_found_error (''Unknown session: '' @ session_id) (Some ''session_not_found'')"

definition unknown_model_error :: "string \<Rightarrow> api_error" where
  "unknown_model_error model =
     invalid_request_error (''Unknown model: '' @ model) (Some ''model'') (Some ''invalid_model'')"

definition store_health :: "session_store \<Rightarrow> session_health" where
  "store_health st =
     \<lparr>sh_enabled = sessions_enabled (st_config st), sh_active = length (st_sessions st),
      sh_max_sessions = max_sessions (st_config st),
      sh_idle_ttl_seconds = idle_ttl_seconds (st_config st)\<rparr>"

definition snapshot_session :: "session_state \<Rightarrow> session_summary" where
  "snapshot_session s =
     \<lparr>ss_id = s_id s, ss_model = s_model s, ss_created = s_created s,
      ss_last_used = s_last_used s, ss_expires_at = s_expires_at s\<rparr>"

definition touch_session :: "session_config \<Rightarrow> int \<Rightarrow> session_state \<Rightarrow> session_state" where
  "touch_session config now s =
     s\<lparr>s_last_used := now, s_expires_at := now + int (idle_ttl_seconds config)\<rparr>"

definition should_expire :: "int \<Rightarrow> session_state \<Rightarrow> bool" where
  "should_expire now s \<longleftrightarrow> \<not> s_closed s \<and> s_active_request s = None \<and> s_expires_at s \<le> now"

fun reap_loop ::
  "int \<Rightarrow> (string \<times> nat) list \<Rightarrow> session_state list \<Rightarrow>
     (string \<times> nat) list \<times> session_state list \<times> nat list" where
  "reap_loop now [] heap = ([], heap, [])"
| "reap_loop now ((k, a) # rest) heap =
     (if should_expire now (heap ! a)
      then (case reap_loop now rest (heap[a := (heap ! a)\<lparr>s_closed := True\<rparr>]) of
              (kept, heap', expired) \<Rightarrow> (kept, heap', a # expired))
      else (case reap_loop now rest heap of
              (kept, heap', expired) \<Rightarrow> ((k, a) # kept, heap', expired)))"

definition reap_expired_sessions_locked :: "int \<Rightarrow> session_store \<Rightarrow> session_store" where
  "reap_expired_sessions_locked now st =
     (case reap_loop now (st_sessions st) (st_heap st) of
        (kept, heap, expired) \<Rightarrow> st\<lparr>st_sessions := kept, st_heap := heap\<rparr>)"

definition reap_expired_sessions :: "int \<Rightarrow> session_store \<Rightarrow> session_store" where
  "reap_expired_sessions now st =
     (if st_stopping st then st else reap_expired_sessions_locked now st)"

definition session_name :: "u64 \<Rightarrow> string" where
  "session_name n = ''sess-'' @ string_of_nat (unat n)"

definition create_session ::
  "session_create_request \<Rightarrow> int \<Rightarrow> session_store \<Rightarrow> session_summary api_result \<times> session_store" where
  "create_session request now st =
     (if \<not> sessions_enabled (st_config st) then (Inl disabled_error, st)
      else if sc_model request \<noteq> st_model_id st then (Inl (unknown_model_error (sc_model request)), st)
      else if st_stopping st
      then (Inl (service_unavailable_error ''Server runtime is stopping'' (Some ''agent_not_ready'')), st)
      else let st = reap_expired_sessions_locked now st in
        if max_sessions (st_config st) \<le> length (st_sessions st)
        then (Inl (service_unavailable_error ''Session capacity reached''
                     (Some ''session_capacity_reached'')), st)
        else let session_id = session_name (st_next_session_id st);
                 expires_at = now + int (idle_ttl_seconds (st_config st));
                 session = make_session_state session_id (st_model_id st) now expires_at
                   (make_initial_history (st_base_system_prompt st) (sc_system_prompt request));
                 addr = length (st_heap st)
             in (Inr (snapshot_session session),
                 st\<lparr>st_next_session_id := st_next_session_id st + 1,
                    st_heap := st_heap st @ [session],
                    st_sessions := al_emplace session_id addr (st_sessions st)\<rparr>))"

definition get_session ::
  "string \<Rightarrow> int \<Rightarrow> session_store \<Rightarrow> session_summary api_result \<times> session_store" where
  "get_session session_id now st =
     (if \<not> sessions_enabled (st_config st) then (Inl disabled_error, st)
      else let st = reap_expired_sessions_locked now st in
        (case map_of (st_sessions st) session_id of
           None \<Rightarrow> (Inl (unknown_session_error session_id), st)
         | Some addr \<Rightarrow> (Inr (snapshot_session (st_heap st ! addr)), st)))"

definition erase_section :: "string \<Rightarrow> session_store \<Rightarrow> nat option \<times> session_store" where
  "erase_section session_id st =
     (case map_of (st_sessions st) session_id of
        None \<Rightarrow> (None, st)
      | Some addr \<Rightarrow> (Some addr, st\<lparr>st_sessions := al_erase session_id (st_sessions st)\<rparr>))"

definition close_section :: "nat \<Rightarrow> session_store \<Rightarrow> session_store" where
  "close_section addr st =
     st\<lparr>st_heap := (st_heap st)[addr := (st_heap st ! addr)\<lparr>s_closed := True\<rparr>]\<rparr>"

definition delete_session :: "string \<Rightarrow> session_store \<Rightarrow> unit api_result \<times> session_store" where
  "delete_session session_id st =
     (if \<not> sessions_enabled (st_config st) then (Inl disabled_error, st)
      else case erase_section session_id st of
             (None, st) \<Rightarrow> (Inl (unknown_session_error session_id), st)
           | (Some addr, st) \<Rightarrow> (Inr (), close_section addr st))"

definition set_base_system_prompt :: "string \<Rightarrow> session_store \<Rightarrow> session_store" where
  "set_base_system_prompt base_system_prompt st = st\<lparr>st_base_system_prompt := base_system_prompt\<rparr>"

definition begin_validate ::
  "chat_completion_request \<Rightarrow> session_store \<Rightarrow> (string \<times> chat_message) api_result" where
  "begin_validate request st =
     (if \<not> sessions_enabled (st_config st) then Inl disabled_error
      else case cc_session_id request of
        None \<Rightarrow> Inl (invalid_request_error ''session_id is required'' (Some ''session_id'') None)
      | Some session_id \<Rightarrow>
          if cc_model request \<noteq> st_model_id st then Inl (unknown_model_error (cc_model request))
          else (case cc_messages request of
                  [message] \<Rightarrow>
                    if msg_role message \<noteq> User
                    then Inl (invalid_request_error
                      ''Session chat requests must contain exactly one user message''
                      (Some ''messages'') (Some ''invalid_message_sequence''))
                    else Inr (session_id, message)
                | _ \<Rightarrow> Inl (invalid_request_error
                      ''Session chat requests must contain exactly one user message''
                      (Some ''messages'') (Some ''invalid_message_sequence''))))"

definition begin_lookup :: "string \<Rightarrow> int \<Rightarrow> session_store \<Rightarrow> nat option \<times> session_store" where
  "begin_lookup session_id now st =
     (let st = reap_expired_sessions_locked now st in (map_of (st_sessions st) session_id, st))"

definition begin_activate ::
  "string \<Rightarrow> chat_message \<Rightarrow> u64 \<Rightarrow> nat \<Rightarrow> int \<Rightarrow> int \<Rightarrow> session_store \<Rightarrow>
     begin_request_result api_result \<times> session_store" where
  "begin_activate session_id message request_id addr started_at now st =
     (let session = st_heap st ! addr in
      if s_closed session then (Inl (unknown_session_error session_id), st)
      else if s_active_request session \<noteq> None
      then (Inl (conflict_error ''Session already has an active request'' (Some ''session_busy'')), st)
      else (Inr \<lparr>br_messages = s_history session @ [message], br_started_at = started_at,
                 br_user_message = message\<rparr>,
            st\<lparr>st_heap := (st_heap st)[addr := touch_session (st_config st) now
                  (session\<lparr>s_active_request := Some request_id\<rparr>)]\<rparr>))"

definition begin_request ::
  "chat_completion_request \<Rightarrow> u64 \<Rightarrow> int \<Rightarrow> int \<Rightarrow> int \<Rightarrow> session_store \<Rightarrow>
     begin_request_result api_result \<times> session_store" where
  "begin_request request request_id reap_time started_at touch_time st =
     (case begin_validate request st of
        Inl e \<Rightarrow> (Inl e, st)
      | Inr (session_id, message) \<Rightarrow>
          (case begin_lookup session_id reap_time st of
             (None, st) \<Rightarrow> (Inl (unknown_session_error session_id), st)
           | (Some addr, st) \<Rightarrow>
               begin_activate session_id message request_id addr started_at touch_time st))"

definition commit_section ::
  "u64 \<Rightarrow> chat_message \<Rightarrow> string runtime_result \<Rightarrow> nat \<Rightarrow> int \<Rightarrow> session_store \<Rightarrow> session_store" where
  "commit_section request_id message text addr now st =
     (let session = st_heap st ! addr in
      if s_active_request session \<noteq> Some request_id then st
      else let session =
             (case text of
                Inr t \<Rightarrow>
                  if \<not> s_closed session
                  then session\<lparr>s_history := trim_history_to_fit
                         (s_history session @ [message] @ [assistant_message t])
                         (st_max_history_messages st)\<rparr>
                  else session
              | Inl _ \<Rightarrow> session)
           in st\<lparr>st_heap := (st_heap st)[addr := touch_session (st_config st) now
                    (session\<lparr>s_active_request := None\<rparr>)]\<rparr>)"

definition commit_result ::
  "string \<Rightarrow> u64 \<Rightarrow> chat_message \<Rightarrow> completion_result runtime_result \<Rightarrow> int \<Rightarrow> session_store \<Rightarrow>
     session_store" where
  "commit_result session_id request_id message result now st =
     (case map_of (st_sessions st) session_id of
        None \<Rightarrow> st
      | Some addr \<Rightarrow>
          commit_section request_id message (map_sum id cr_text result) addr now st)"

definition commit_response_text ::
  "string \<Rightarrow> u64 \<Rightarrow> chat_message \<Rightarrow> string runtime_result \<Rightarrow> int \<Rightarrow> session_store \<Rightarrow> session_store" where
  "commit_response_text session_id request_id message result now st =
     (case map_of (st_sessions st) session_id of
        None \<Rightarrow> st
      | Some addr \<Rightarrow> commit_section request_id message result addr now st)"

definition release_section :: "u64 \<Rightarrow> nat \<Rightarrow> int \<Rightarrow> session_store \<Rightarrow> session_store" where
  "release_section request_id addr now st =
     (let session = st_heap st ! addr in
      if s_active_request session \<noteq> Some request_id then st
      else st\<lparr>st_heap := (st_heap st)[addr := touch_session (st_config st) now
                (session\<lparr>s_active_request := None\<rparr>)]\<rparr>)"

definition release_request :: "string \<Rightarrow> u64 \<Rightarrow> int \<Rightarrow> session_store \<Rightarrow> session_store" where
  "release_request session_id request_id now st =
     (case map_of (st_sessions st) session_id of
        None \<Rightarrow> st
      | Some addr \<Rightarrow> release_section request_id addr now st)"

fun close_all :: "(string \<times> nat) list \<Rightarrow> session_store \<Rightarrow> session_store" where
  "close_all [] st = st"
| "close_all ((k, a) # rest) st = close_all rest (close_section a st)"

definition store_stop :: "session_store \<Rightarrow> session_store" where
  "store_stop st =
     (if st_stopping st then st
      else close_all (st_sessions st) (st\<lparr>st_stopping := True, st_sessions := []\<rparr>))"

section \<open>Trimming\<close>

lemma skip_to_user_ge: "e \<le> skip_to_user m e"
proof (induction m e rule: skip_to_user.induct)
  case (1 m e)
  then show ?case by (subst skip_to_user.simps) auto
qed

lemma skip_to_user_le: "e \<le> length m \<Longrightarrow> skip_to_user m e \<le> length m"
proof (induction m e rule: skip_to_user.induct)
  case (1 m e)
  then show ?case by (subst skip_to_user.simps) auto
qed

lemma skip_to_user_stops:
  "skip_to_user m e < length m \<Longrightarrow> msg_role (m ! skip_to_user m e) = User"
proof (induction m e rule: skip_to_user.induct)
  case (1 m e)
  then show ?case
    by (cases "e < length m \<and> msg_role (m ! e) \<noteq> User") (auto simp: skip_to_user.simps [of m e])
qed

lemma skip_to_user_skips:
  "e \<le> i \<Longrightarrow> i < skip_to_user m e \<Longrightarrow> i < length m \<and> msg_role (m ! i) \<noteq> User"
proof (induction m e rule: skip_to_user.induct)
  case (1 m e)
  show ?case
  proof (cases "e < length m \<and> msg_role (m ! e) \<noteq> User")
    case True
    with 1 show ?thesis
      by (cases "e = i") (auto simp: skip_to_user.simps [of m e])
  next
    case False
    with 1 show ?thesis by (auto simp: skip_to_user.simps [of m e])
  qed
qed

lemma system_offset_le: "system_offset m \<le> 1" "system_offset m \<le> length m"
  by (cases m; simp add: system_offset_def)+

text \<open>
  The bounds under which \<^verbatim>\<open>size_t\<close> arithmetic is exact: a vector is shorter than \<open>2 ^ 64\<close>, and the
  configured limit leaves room for the system message.
\<close>

definition trim_bounds :: "chat_message list \<Rightarrow> nat \<Rightarrow> bool" where
  "trim_bounds m n \<longleftrightarrow> length m < 2 ^ 64 \<and> n < 2 ^ 64 - 1"

lemma trim_range_exact:
  assumes "trim_bounds m n"
  shows "trim_range m n =
    (if length m \<le> system_offset m + n then None
     else Some (system_offset m, skip_to_user m (length m - n)))"
proof -
  have add: "u64_add (system_offset m) n = system_offset m + n"
    using assms system_offset_le(1) [of m]
    by (intro u64_add_exact) (auto simp: trim_bounds_def)
  show ?thesis
  proof (cases "length m \<le> system_offset m + n")
    case True
    then show ?thesis by (simp add: trim_range_def add)
  next
    case False
    then have sub: "u64_sub (length m) n = length m - n"
      using assms by (intro u64_sub_exact) (auto simp: trim_bounds_def)
    have "system_offset m < skip_to_user m (length m - n)"
      using False skip_to_user_ge [of "length m - n" m] by linarith
    moreover have "\<not> length m - n < system_offset m" using False by linarith
    ultimately show ?thesis using False by (simp add: trim_range_def add sub Let_def)
  qed
qed

lemma trim_history_exact:
  assumes "trim_bounds m n"
  shows "trim_history_to_fit m n =
    (if length m \<le> system_offset m + n then m
     else take (system_offset m) m @ drop (skip_to_user m (length m - n)) m)"
  by (simp add: trim_history_to_fit_def trim_range_exact [OF assms])

section \<open>Shape of histories\<close>

fun exchanges :: "chat_message list \<Rightarrow> bool" where
  "exchanges [] = True"
| "exchanges [m] = False"
| "exchanges (u # a # r) = (msg_role u = User \<and> msg_role a = Assistant \<and> exchanges r)"

definition history_ok :: "chat_message list \<Rightarrow> bool" where
  "history_ok h \<longleftrightarrow> exchanges (drop (system_offset h) h)"

lemma exchanges_append [simp]:
  "exchanges xs \<Longrightarrow> exchanges ys \<Longrightarrow> exchanges (xs @ ys)"
  by (induction xs rule: exchanges.induct) auto

lemma exchanges_drop:
  "exchanges xs \<Longrightarrow> k < length xs \<Longrightarrow> msg_role (xs ! k) = User \<Longrightarrow> exchanges (drop k xs)"
proof (induction xs arbitrary: k rule: exchanges.induct)
  case (3 u a r)
  consider "k = 0" | "k = 1" | j where "k = Suc (Suc j)"
    by (metis One_nat_def old.nat.exhaust)
  then show ?case using 3 by cases auto
qed auto

lemma system_offset_append:
  "h \<noteq> [] \<or> msg_role (hd xs) \<noteq> System \<Longrightarrow> system_offset (h @ xs) = system_offset h"
  by (auto simp: system_offset_def hd_append)

lemma history_ok_append:
  assumes "history_ok h" and "msg_role u = User" and "msg_role a = Assistant"
  shows "history_ok (h @ [u, a])"
proof -
  have off: "system_offset (h @ [u, a]) = system_offset h"
    using assms by (intro system_offset_append) simp
  have "exchanges (drop (system_offset h) h @ [u, a])"
    using assms by (simp add: history_ok_def)
  then show ?thesis using system_offset_le(2) [of h] by (simp add: history_ok_def off)
qed

lemma history_ok_initial: "history_ok (make_initial_history b r)"
  by (simp add: make_initial_history_def history_ok_def system_offset_def Let_def)

lemma history_ok_trim:
  assumes "history_ok m" and b: "trim_bounds m n"
  shows "history_ok (trim_history_to_fit m n)"
proof (cases "length m \<le> system_offset m + n")
  case True
  with assms show ?thesis by (simp add: trim_history_exact [OF b])
next
  case False
  let ?o = "system_offset m" and ?e = "skip_to_user m (length m - n)"
  have oe: "?o < ?e" using False skip_to_user_ge [of "length m - n" m] by linarith
  have rest: "exchanges (drop ?e m)"
  proof (cases "?e < length m")
    case True
    then have "msg_role (m ! ?e) = User" by (rule skip_to_user_stops)
    with oe True have "msg_role (drop ?o m ! (?e - ?o)) = User" by simp
    moreover have "exchanges (drop ?o m)" using assms(1) by (simp add: history_ok_def)
    ultimately have "exchanges (drop (?e - ?o) (drop ?o m))"
      using oe True exchanges_drop [of "drop ?o m" "?e - ?o"] by simp
    with oe show ?thesis by simp
  qed simp
  have "system_offset (take ?o m @ drop ?e m) = ?o"
  proof (cases "?o = 0")
    case True
    then show ?thesis using rest
      by (cases "drop ?e m" rule: exchanges.cases) (auto simp: system_offset_def)
  next
    case False
    then show ?thesis by (cases m) (auto simp: system_offset_def split: if_splits)
  qed
  then show ?thesis
    using False rest system_offset_le(2) [of m]
    by (simp add: trim_history_exact [OF b] history_ok_def)
qed

lemma length_trim_history:
  assumes "trim_bounds m n"
  shows "length (trim_history_to_fit m n) \<le> system_offset m + n"
  using skip_to_user_ge [of "length m - n" m] system_offset_le(2) [of m]
  by (auto simp: trim_history_exact [OF assms])

section \<open>Well-formed stores and their view\<close>

text \<open>
  The abstract store: what an identifier stands for. The lemmas \<open>view_<op>\<close> below say what each
  operation does to it; they are the refinement of the heap of shared sessions to a plain map.
\<close>

definition session_view :: "session_store \<Rightarrow> string \<Rightarrow> session_state option" where
  "session_view st k = map_option ((!) (st_heap st)) (map_of (st_sessions st) k)"

definition store_wf :: "session_store \<Rightarrow> bool" where
  "store_wf st \<longleftrightarrow>
     distinct (al_keys (st_sessions st)) \<and>
     distinct (map snd (st_sessions st)) \<and>
     (\<forall>(k, a) \<in> set (st_sessions st).
        a < length (st_heap st) \<and> s_id (st_heap st ! a) = k \<and> \<not> s_closed (st_heap st ! a)) \<and>
     length (st_sessions st) \<le> max_sessions (st_config st) \<and>
     (st_stopping st \<longrightarrow> st_sessions st = [])"

definition histories_ok :: "session_store \<Rightarrow> bool" where
  "histories_ok st \<longleftrightarrow>
     (\<forall>s \<in> set (st_heap st). history_ok (s_history s) \<and>
        length (s_history s) \<le> Suc (st_max_history_messages st))"

definition expired_addrs :: "int \<Rightarrow> session_state list \<Rightarrow> (string \<times> nat) list \<Rightarrow> nat set" where
  "expired_addrs now heap ms = {a \<in> snd ` set ms. should_expire now (heap ! a)}"

lemma store_wfI:
  assumes "distinct (al_keys (st_sessions st))" "distinct (map snd (st_sessions st))"
    and "\<And>k a. (k, a) \<in> set (st_sessions st) \<Longrightarrow>
      a < length (st_heap st) \<and> s_id (st_heap st ! a) = k \<and> \<not> s_closed (st_heap st ! a)"
    and "length (st_sessions st) \<le> max_sessions (st_config st)"
    and "st_stopping st \<Longrightarrow> st_sessions st = []"
  shows "store_wf st"
  using assms unfolding store_wf_def by blast

lemma store_wfE:
  assumes "store_wf st"
  shows "distinct (al_keys (st_sessions st))" "distinct (map snd (st_sessions st))"
    and "(k, a) \<in> set (st_sessions st) \<Longrightarrow>
      a < length (st_heap st) \<and> s_id (st_heap st ! a) = k \<and> \<not> s_closed (st_heap st ! a)"
    and "length (st_sessions st) \<le> max_sessions (st_config st)"
    and "st_stopping st \<Longrightarrow> st_sessions st = []"
  using assms unfolding store_wf_def by blast+

lemma store_wfD:
  assumes "store_wf st" and "map_of (st_sessions st) k = Some a"
  shows "a < length (st_heap st)" "s_id (st_heap st ! a) = k" "\<not> s_closed (st_heap st ! a)"
  using assms map_of_SomeD [OF assms(2)] by (auto simp: store_wf_def)

lemma store_wf_addr_unique:
  assumes "store_wf st" "map_of (st_sessions st) k = Some a" "map_of (st_sessions st) k' = Some a"
  shows "k = k'"
  using store_wfD(2) [OF assms(1,2)] store_wfD(2) [OF assms(1,3)] by simp

lemma reap_loop_spec:
  assumes "distinct (map snd ms)" and "\<forall>(k, a) \<in> set ms. a < length heap"
    and "reap_loop now ms heap = (kept, heap', ex)"
  shows "kept = filter (\<lambda>p. \<not> should_expire now (heap ! snd p)) ms \<and>
     ex = map snd (filter (\<lambda>p. should_expire now (heap ! snd p)) ms) \<and>
     length heap' = length heap \<and>
     (\<forall>i < length heap. heap' ! i =
        (if i \<in> expired_addrs now heap ms then (heap ! i)\<lparr>s_closed := True\<rparr> else heap ! i))"
  using assms
proof (induction ms arbitrary: heap kept heap' ex)
  case Nil
  then show ?case by (simp add: expired_addrs_def)
next
  case (Cons p ms)
  obtain k a where p: "p = (k, a)" by (cases p)
  have a: "a < length heap" "a \<notin> snd ` set ms" using Cons.prems p by auto
  show ?case
  proof (cases "should_expire now (heap ! a)")
    case False
    then obtain kept1 where r: "reap_loop now ms heap = (kept1, heap', ex)" "kept = (k, a) # kept1"
      using Cons.prems(3) p by (auto split: prod.splits)
    have "expired_addrs now heap (p # ms) = expired_addrs now heap ms"
      using False p by (auto simp: expired_addrs_def)
    with Cons.IH [OF _ _ r(1)] Cons.prems(1,2) r(2) False p show ?thesis by auto
  next
    case True
    let ?heap = "heap[a := (heap ! a)\<lparr>s_closed := True\<rparr>]"
    obtain ex1 where r: "reap_loop now ms ?heap = (kept, heap', ex1)" "ex = a # ex1"
      using Cons.prems(3) p True by (auto split: prod.splits)
    have same: "q \<in> set ms \<Longrightarrow> ?heap ! snd q = heap ! snd q" for q
      using a(2) by (metis image_eqI nth_list_update_neq)
    then have filt: "filter (\<lambda>q. P (?heap ! snd q)) ms = filter (\<lambda>q. P (heap ! snd q)) ms" for P
      by (auto intro: filter_cong)
    have ea: "expired_addrs now ?heap ms = expired_addrs now heap ms"
      using same by (auto simp: expired_addrs_def)
    have eb: "expired_addrs now heap (p # ms) = insert a (expired_addrs now heap ms)"
      using True p by (auto simp: expired_addrs_def)
    have na: "a \<notin> expired_addrs now heap ms" using a(2) by (auto simp: expired_addrs_def)
    have "distinct (map snd ms)" "\<forall>(k, a) \<in> set ms. a < length ?heap" using Cons.prems by auto
    note ih = Cons.IH [OF this r(1), unfolded ea filt [of "\<lambda>s. \<not> should_expire now s"]
        filt [of "should_expire now"]]
    then have "\<forall>i < length heap. heap' ! i = (if i \<in> expired_addrs now heap (p # ms)
        then (heap ! i)\<lparr>s_closed := True\<rparr> else heap ! i)"
      using a(1) na by (auto simp: eb nth_list_update)
    with ih r(2) True p show ?thesis by simp
  qed
qed

lemma reap_locked:
  assumes "store_wf st"
  shows "st_sessions (reap_expired_sessions_locked now st) =
           filter (\<lambda>p. \<not> should_expire now (st_heap st ! snd p)) (st_sessions st)"
    and "length (st_heap (reap_expired_sessions_locked now st)) = length (st_heap st)"
    and "i < length (st_heap st) \<Longrightarrow> st_heap (reap_expired_sessions_locked now st) ! i =
           (if i \<in> expired_addrs now (st_heap st) (st_sessions st)
            then (st_heap st ! i)\<lparr>s_closed := True\<rparr> else st_heap st ! i)"
proof -
  obtain kept heap' ex where r: "reap_loop now (st_sessions st) (st_heap st) = (kept, heap', ex)"
    by (metis prod_cases3)
  have "distinct (map snd (st_sessions st))" "\<forall>(k, a) \<in> set (st_sessions st). a < length (st_heap st)"
    using assms by (auto simp: store_wf_def)
  note spec = reap_loop_spec [OF this r]
  show "st_sessions (reap_expired_sessions_locked now st) =
      filter (\<lambda>p. \<not> should_expire now (st_heap st ! snd p)) (st_sessions st)"
    "length (st_heap (reap_expired_sessions_locked now st)) = length (st_heap st)"
    "i < length (st_heap st) \<Longrightarrow> st_heap (reap_expired_sessions_locked now st) ! i =
      (if i \<in> expired_addrs now (st_heap st) (st_sessions st)
       then (st_heap st ! i)\<lparr>s_closed := True\<rparr> else st_heap st ! i)"
    using spec by (auto simp: reap_expired_sessions_locked_def r)
qed

lemma reap_frame [simp]:
  "st_config (reap_expired_sessions_locked now st) = st_config st"
  "st_model_id (reap_expired_sessions_locked now st) = st_model_id st"
  "st_stopping (reap_expired_sessions_locked now st) = st_stopping st"
  "st_base_system_prompt (reap_expired_sessions_locked now st) = st_base_system_prompt st"
  "st_max_history_messages (reap_expired_sessions_locked now st) = st_max_history_messages st"
  "st_next_session_id (reap_expired_sessions_locked now st) = st_next_session_id st"
  by (auto simp: reap_expired_sessions_locked_def split: prod.splits)

lemma map_of_filter_addr:
  "distinct (al_keys m) \<Longrightarrow>
     map_of (filter (\<lambda>p. P (snd p)) m) k = (case map_of m k of Some a \<Rightarrow> if P a then Some a else None | None \<Rightarrow> None)"
proof (induction m)
  case Nil
  then show ?case by simp
next
  case (Cons p m)
  then have "map_of m (fst p) = None" by (simp add: map_of_eq_None_iff)
  with Cons show ?case by (cases p) (auto split: option.splits)
qed

lemma not_expired_addr:
  assumes "store_wf st" "map_of (st_sessions st) k = Some a"
  shows "a \<in> expired_addrs now (st_heap st) (st_sessions st) \<longleftrightarrow> should_expire now (st_heap st ! a)"
  using map_of_SomeD [OF assms(2)] by (force simp: expired_addrs_def)

lemma map_of_reap:
  assumes "store_wf st"
  shows "map_of (st_sessions (reap_expired_sessions_locked now st)) k =
    (case map_of (st_sessions st) k of
       None \<Rightarrow> None
     | Some a \<Rightarrow> if should_expire now (st_heap st ! a) then None else Some a)"
proof -
  have "distinct (al_keys (st_sessions st))" using assms by (simp add: store_wf_def)
  from map_of_filter_addr [OF this, of "\<lambda>a. \<not> should_expire now (st_heap st ! a)" k]
  show ?thesis by (auto simp: reap_locked(1) [OF assms] split: option.splits)
qed

lemma view_reap:
  assumes "store_wf st"
  shows "session_view (reap_expired_sessions_locked now st) k =
    (case session_view st k of
       None \<Rightarrow> None
     | Some s \<Rightarrow> if should_expire now s then None else Some s)"
  using assms not_expired_addr [OF assms] store_wfD(1) [OF assms]
  by (auto simp: session_view_def map_of_reap reap_locked(3) [OF assms] split: option.splits)

section \<open>Updating one session\<close>

lemma wf_heap_update [intro]:
  assumes "store_wf st" "s_id x = s_id (st_heap st ! a)" "s_closed x = s_closed (st_heap st ! a)"
  shows "store_wf (st\<lparr>st_heap := (st_heap st)[a := x]\<rparr>)"
  using assms by (cases "a < length (st_heap st)")
    (auto simp: store_wf_def nth_list_update list_update_beyond)

lemma view_heap_update:
  assumes "store_wf st" "map_of (st_sessions st) k = Some a"
  shows "session_view (st\<lparr>st_heap := (st_heap st)[a := x]\<rparr>) = (session_view st)(k \<mapsto> x)"
  using store_wfD(1) [OF assms] store_wf_addr_unique [OF assms]
  by (auto simp: session_view_def fun_eq_iff nth_list_update assms(2) map_option_case
      split: option.splits)

lemma touch_session_simps [simp]:
  "s_id (touch_session c now s) = s_id s" "s_closed (touch_session c now s) = s_closed s"
  "s_history (touch_session c now s) = s_history s"
  "s_active_request (touch_session c now s) = s_active_request s"
  "s_created (touch_session c now s) = s_created s" "s_model (touch_session c now s) = s_model s"
  "s_last_used (touch_session c now s) = now"
  "s_expires_at (touch_session c now s) = now + int (idle_ttl_seconds c)"
  by (simp_all add: touch_session_def)

lemma view_Some_iff:
  "session_view st k = Some s \<longleftrightarrow> (\<exists>a. map_of (st_sessions st) k = Some a \<and> s = st_heap st ! a)"
  by (auto simp: session_view_def)

lemma view_None_iff: "session_view st k = None \<longleftrightarrow> map_of (st_sessions st) k = None"
  by (simp add: session_view_def)

section \<open>The store invariant is kept by every section\<close>

lemma wf_reap [intro]: "store_wf st \<Longrightarrow> store_wf (reap_expired_sessions_locked now st)"
proof (rule store_wfI)
  assume wf: "store_wf st"
  let ?st = "reap_expired_sessions_locked now st"
  show "distinct (al_keys (st_sessions ?st))" "distinct (map snd (st_sessions ?st))"
    using wf by (simp_all add: reap_locked(1) [OF wf] distinct_map_filter store_wf_def)
  show "(k, a) \<in> set (st_sessions ?st) \<Longrightarrow> a < length (st_heap ?st) \<and>
      s_id (st_heap ?st ! a) = k \<and> \<not> s_closed (st_heap ?st ! a)" for k a
    using wf by (auto simp: reap_locked [OF wf] store_wf_def expired_addrs_def)
  have "length (st_sessions ?st) \<le> length (st_sessions st)"
    by (simp add: reap_locked(1) [OF wf])
  with store_wfE(4) [OF wf] show "length (st_sessions ?st) \<le> max_sessions (st_config ?st)" by simp
  show "st_stopping ?st \<Longrightarrow> st_sessions ?st = []"
    using store_wfE(5) [OF wf] by (simp add: reap_locked(1) [OF wf])
qed

lemma wf_reap_expired [intro]: "store_wf st \<Longrightarrow> store_wf (reap_expired_sessions now st)"
  by (auto simp: reap_expired_sessions_def)

lemma wf_add_session:
  assumes "store_wf st" and "length (st_sessions st) < max_sessions (st_config st)"
    and "\<not> st_stopping st" and "s_id x = k" and "\<not> s_closed x"
  shows "store_wf (st\<lparr>st_next_session_id := n, st_heap := st_heap st @ [x],
           st_sessions := al_emplace k (length (st_heap st)) (st_sessions st)\<rparr>)"
proof -
  have "\<forall>(k, a) \<in> set (st_sessions st). a < length (st_heap st)"
    using assms(1) by (auto simp: store_wf_def)
  then have "length (st_heap st) \<notin> snd ` set (st_sessions st)" by auto
  with assms show ?thesis
    by (auto simp: store_wf_def al_emplace_def nth_append map_of_eq_None_iff split: option.splits)
qed

lemma wf_create [intro]: "store_wf st \<Longrightarrow> store_wf (snd (create_session request now st))"
  using wf_reap [of st now]
  by (auto simp: create_session_def Let_def make_session_state_def intro!: wf_add_session)

lemma wf_get [intro]: "store_wf st \<Longrightarrow> store_wf (snd (get_session k now st))"
  by (auto simp: get_session_def Let_def split: option.splits)

lemma erase_section_Some:
  assumes "store_wf st" "erase_section k st = (Some a, st')"
  shows "map_of (st_sessions st) k = Some a" "st' = st\<lparr>st_sessions := al_erase k (st_sessions st)\<rparr>"
    "a \<notin> snd ` set (st_sessions st')"
proof -
  show m: "map_of (st_sessions st) k = Some a"
    and st': "st' = st\<lparr>st_sessions := al_erase k (st_sessions st)\<rparr>"
    using assms(2) by (auto simp: erase_section_def split: option.splits)
  have "distinct (al_keys (st_sessions st))" using assms(1) by (simp add: store_wf_def)
  then have "(k', a) \<in> set (st_sessions st) \<Longrightarrow> k' = k" for k'
    using store_wf_addr_unique [OF assms(1) _ m, of k'] by simp
  then show "a \<notin> snd ` set (st_sessions st')" by (auto simp: st' al_erase_def)
qed

lemma wf_erase [intro]: "store_wf st \<Longrightarrow> store_wf (snd (erase_section k st))"
proof -
  assume wf: "store_wf st"
  have "distinct (map snd (al_erase k (st_sessions st)))"
    using wf by (simp add: al_erase_def distinct_map_filter store_wf_def)
  moreover have "length (al_erase k (st_sessions st)) \<le> max_sessions (st_config st)"
    using wf length_al_erase [of k "st_sessions st"] by (auto simp: store_wf_def intro: order_trans)
  ultimately show ?thesis
    using wf by (auto simp: store_wf_def erase_section_def al_erase_def distinct_al_filter
        split: option.splits)
qed

lemma wf_close [intro]:
  "store_wf st \<Longrightarrow> a \<notin> snd ` set (st_sessions st) \<Longrightarrow> store_wf (close_section a st)"
proof (rule store_wfI)
  assume wf: "store_wf st" and a: "a \<notin> snd ` set (st_sessions st)"
  show "(k, b) \<in> set (st_sessions (close_section a st)) \<Longrightarrow> b < length (st_heap (close_section a st)) \<and>
      s_id (st_heap (close_section a st) ! b) = k \<and> \<not> s_closed (st_heap (close_section a st) ! b)" for k b
  proof -
    assume "(k, b) \<in> set (st_sessions (close_section a st))"
    then have kb: "(k, b) \<in> set (st_sessions st)" by (simp add: close_section_def)
    with a have "b \<noteq> a" by force
    then show ?thesis using store_wfE(3) [OF wf kb] by (simp add: close_section_def)
  qed
qed (simp_all add: close_section_def store_wfE)

lemma wf_delete [intro]: "store_wf st \<Longrightarrow> store_wf (snd (delete_session k st))"
proof -
  assume wf: "store_wf st"
  obtain r st' where e: "erase_section k st = (r, st')" by fastforce
  with wf have "store_wf st'" using wf_erase [of st k] by simp
  with e wf show ?thesis
    by (cases r) (auto simp: delete_session_def dest: erase_section_Some(3))
qed

lemma wf_set_base [intro]: "store_wf st \<Longrightarrow> store_wf (set_base_system_prompt p st)"
  by (simp add: store_wf_def set_base_system_prompt_def)

lemma wf_begin_lookup [intro]: "store_wf st \<Longrightarrow> store_wf (snd (begin_lookup k now st))"
  by (auto simp: begin_lookup_def Let_def)

lemma wf_begin_activate [intro]: "store_wf st \<Longrightarrow> store_wf (snd (begin_activate k m r a t0 t1 st))"
  by (auto simp: begin_activate_def Let_def)

lemma wf_begin [intro]: "store_wf st \<Longrightarrow> store_wf (snd (begin_request q r t0 t1 t2 st))"
proof -
  assume wf: "store_wf st"
  have "begin_lookup k t0 st = (r', st') \<Longrightarrow> store_wf st'" for k r' st'
    using wf_begin_lookup [OF wf, of k t0] by simp
  then show ?thesis using wf
    by (auto simp: begin_request_def split: sum.splits prod.splits option.splits)
qed

lemma wf_commit_section [intro]: "store_wf st \<Longrightarrow> store_wf (commit_section r m t a now st)"
  by (auto simp: commit_section_def Let_def split: sum.splits)

lemma wf_commit [intro]:
  "store_wf st \<Longrightarrow> store_wf (commit_result k r m res now st)"
  "store_wf st \<Longrightarrow> store_wf (commit_response_text k r m txt now st)"
  by (auto simp: commit_result_def commit_response_text_def split: option.splits)

lemma wf_release_section [intro]: "store_wf st \<Longrightarrow> store_wf (release_section r a now st)"
  by (auto simp: release_section_def Let_def)

lemma wf_release [intro]: "store_wf st \<Longrightarrow> store_wf (release_request k r now st)"
  by (auto simp: release_request_def split: option.splits)

lemma close_all_frame [simp]:
  "st_sessions (close_all es st) = st_sessions st" "st_config (close_all es st) = st_config st"
  "st_stopping (close_all es st) = st_stopping st"
  "st_max_history_messages (close_all es st) = st_max_history_messages st"
  by (induction es st rule: close_all.induct) (simp_all add: close_section_def)

lemma wf_stop [intro]: "store_wf st \<Longrightarrow> store_wf (store_stop st)"
  by (simp add: store_stop_def store_wf_def)

lemma wf_initial: "store_wf (make_session_store m c p n)"
  by (simp add: store_wf_def make_session_store_def)

lemmas store_wf_intros = wf_reap wf_reap_expired wf_create wf_get wf_erase wf_close wf_delete
  wf_set_base wf_begin_lookup wf_begin_activate wf_begin wf_commit_section wf_commit
  wf_release_section wf_release wf_stop wf_initial

section \<open>What the operations do to the view\<close>

lemma view_erase:
  assumes "store_wf st"
  shows "session_view (snd (erase_section k st)) = (session_view st)(k := None)"
  by (auto simp: session_view_def erase_section_def fun_eq_iff store_simps split: option.splits)

lemma view_close:
  assumes "a \<notin> snd ` set (st_sessions st)"
  shows "session_view (close_section a st) = session_view st"
proof
  fix k
  have "map_of (st_sessions st) k = Some b \<Longrightarrow> b \<noteq> a" for b
    using assms map_of_snd_mem [of "st_sessions st" k b] by blast
  then show "session_view (close_section a st) k = session_view st k"
    by (cases "map_of (st_sessions st) k") (simp_all add: session_view_def close_section_def)
qed

lemma view_delete:
  assumes wf: "store_wf st" and en: "sessions_enabled (st_config st)"
  shows "session_view (snd (delete_session k st)) = (session_view st)(k := None)"
proof -
  obtain r st' where e: "erase_section k st = (r, st')" by fastforce
  have v: "session_view st' = (session_view st)(k := None)" using view_erase [OF wf, of k] e by simp
  show ?thesis
  proof (cases r)
    case None
    with e en v show ?thesis by (simp add: delete_session_def)
  next
    case (Some a)
    with e wf have "a \<notin> snd ` set (st_sessions st')" by (auto dest: erase_section_Some(3))
    with e en v Some show ?thesis by (simp add: delete_session_def view_close)
  qed
qed

lemma view_commit_section:
  assumes "store_wf st" and "map_of (st_sessions st) k = Some a" and "session_view st k = Some s"
  shows "session_view (commit_section r m t a now st) =
    (if s_active_request s \<noteq> Some r then session_view st
     else (session_view st)(k \<mapsto> touch_session (st_config st) now
       (s\<lparr>s_history := (case t of Inl _ \<Rightarrow> s_history s
           | Inr x \<Rightarrow> trim_history_to_fit (s_history s @ [m, assistant_message x])
                        (st_max_history_messages st)),
          s_active_request := None\<rparr>)))"
proof -
  have s: "s = st_heap st ! a" using assms(2,3) by (simp add: session_view_def)
  then show ?thesis
    using store_wfD(3) [OF assms(1,2)]
    by (auto simp: commit_section_def Let_def view_heap_update [OF assms(1,2)] split: sum.splits)
qed

lemma view_release:
  assumes "store_wf st" and "session_view st k = Some s"
  shows "session_view (release_request k r now st) =
    (if s_active_request s \<noteq> Some r then session_view st
     else (session_view st)(k \<mapsto> touch_session (st_config st) now (s\<lparr>s_active_request := None\<rparr>)))"
proof -
  obtain a where a: "map_of (st_sessions st) k = Some a" "s = st_heap st ! a"
    using assms(2) by (auto simp: view_Some_iff)
  then show ?thesis
    by (simp add: release_request_def release_section_def Let_def view_heap_update [OF assms(1) a(1)])
qed

lemma view_commit:
  assumes "store_wf st" and "session_view st k = Some s"
  shows "session_view (commit_result k r m res now st) =
    (if s_active_request s \<noteq> Some r then session_view st
     else (session_view st)(k \<mapsto> touch_session (st_config st) now
       (s\<lparr>s_history := (case res of Inl _ \<Rightarrow> s_history s
           | Inr x \<Rightarrow> trim_history_to_fit (s_history s @ [m, assistant_message (cr_text x)])
                        (st_max_history_messages st)),
          s_active_request := None\<rparr>)))"
proof -
  obtain a where a: "map_of (st_sessions st) k = Some a"
    using assms(2) by (auto simp: view_Some_iff)
  show ?thesis
    using view_commit_section [OF assms(1) a assms(2), of r m "map_sum id cr_text res" now]
    by (cases res) (simp_all add: commit_result_def a)
qed

lemma view_commit_unknown:
  "session_view st k = None \<Longrightarrow> commit_result k r m res now st = st"
  "session_view st k = None \<Longrightarrow> commit_response_text k r m txt now st = st"
  "session_view st k = None \<Longrightarrow> release_request k r now st = st"
  by (simp_all add: view_None_iff commit_result_def commit_response_text_def release_request_def)

lemma view_begin_activate:
  assumes "store_wf st" and "map_of (st_sessions st) k = Some a" and "session_view st k = Some s"
  shows "begin_activate k m r a t1 t2 st =
    (if s_active_request s \<noteq> None
     then (Inl (conflict_error ''Session already has an active request'' (Some ''session_busy'')), st)
     else (Inr \<lparr>br_messages = s_history s @ [m], br_started_at = t1, br_user_message = m\<rparr>,
           st\<lparr>st_heap := (st_heap st)[a := touch_session (st_config st) t2
                (s\<lparr>s_active_request := Some r\<rparr>)]\<rparr>))"
proof -
  have s: "s = st_heap st ! a" using assms(2,3) by (simp add: session_view_def)
  then show ?thesis using store_wfD(3) [OF assms(1,2)] by (simp add: begin_activate_def Let_def)
qed

text \<open>
  The request lifecycle in terms of the view: beginning a request on an idle, unexpired session
  hands out its history with the new message and makes the session busy.
\<close>

lemma view_begin:
  assumes wf: "store_wf st" and v: "begin_validate q st = Inr (k, m)"
    and b: "begin_request q r t0 t1 t2 st = (res, st')"
    and live: "live = session_view (reap_expired_sessions_locked t0 st)"
  shows "(case live k of
       None \<Rightarrow> res = Inl (unknown_session_error k) \<and> session_view st' = live
     | Some s \<Rightarrow>
         if s_active_request s \<noteq> None
         then res = Inl (conflict_error ''Session already has an active request'' (Some ''session_busy''))
              \<and> session_view st' = live
         else res = Inr \<lparr>br_messages = s_history s @ [m], br_started_at = t1, br_user_message = m\<rparr>
              \<and> session_view st' = live(k \<mapsto> touch_session (st_config st) t2 (s\<lparr>s_active_request := Some r\<rparr>)))"
proof -
  let ?st = "reap_expired_sessions_locked t0 st"
  note live_def = live
  have wf': "store_wf ?st" using wf by blast
  show ?thesis
  proof (cases "map_of (st_sessions ?st) k")
    case None
    then have "live k = None" by (simp add: live_def view_None_iff)
    with b v None show ?thesis by (simp add: begin_request_def begin_lookup_def Let_def live_def)
  next
    case (Some a)
    then obtain s where s: "session_view ?st k = Some s" by (auto simp: session_view_def)
    have "begin_request q r t0 t1 t2 st = begin_activate k m r a t1 t2 ?st"
      using v Some by (simp add: begin_request_def begin_lookup_def Let_def)
    with b view_begin_activate [OF wf' Some s, of m r t1 t2] s show ?thesis
      by (auto simp: live_def view_heap_update [OF wf' Some])
  qed
qed

section \<open>Histories\<close>

lemma histories_heap_update:
  assumes "histories_ok st" "history_ok (s_history x)"
    and "length (s_history x) \<le> Suc (st_max_history_messages st)"
  shows "histories_ok (st\<lparr>st_heap := (st_heap st)[a := x]\<rparr>)"
  using assms set_update_subset_insert [of "st_heap st" a x] by (auto simp: histories_ok_def)

lemma histories_same:
  assumes "histories_ok st" "a < length (st_heap st)" "s_history x = s_history (st_heap st ! a)"
  shows "histories_ok (st\<lparr>st_heap := (st_heap st)[a := x]\<rparr>)"
  using assms by (intro histories_heap_update) (auto simp: histories_ok_def)

lemma histories_commit_section:
  assumes h: "histories_ok st" and a: "a < length (st_heap st)" and m: "msg_role m = User"
    and n: "st_max_history_messages st < 2 ^ 64 - 3"
  shows "histories_ok (commit_section r m t a now st)"
proof -
  let ?s = "st_heap st ! a"
  have ok: "history_ok (s_history ?s)" and len: "length (s_history ?s) \<le> Suc (st_max_history_messages st)"
    using h a by (auto simp: histories_ok_def)
  have same: "s_history x = s_history ?s \<Longrightarrow> histories_ok (st\<lparr>st_heap := (st_heap st)[a := x]\<rparr>)" for x
    using h a by (rule histories_same)
  have new: "histories_ok (st\<lparr>st_heap := (st_heap st)[a := x]\<rparr>)"
    if x: "s_history x = trim_history_to_fit (s_history ?s @ [m, assistant_message y]) (st_max_history_messages st)"
    for x y
  proof (rule histories_heap_update [OF h])
    let ?h = "s_history ?s @ [m, assistant_message y]"
    have b: "trim_bounds ?h (st_max_history_messages st)" using len n by (simp add: trim_bounds_def)
    show "history_ok (s_history x)"
      unfolding x using ok m by (intro history_ok_trim [OF _ b] history_ok_append) simp_all
    show "length (s_history x) \<le> Suc (st_max_history_messages st)"
      unfolding x using length_trim_history [OF b] system_offset_le(1) [of ?h] by linarith
  qed
  show ?thesis
  proof (cases "s_active_request ?s = Some r \<and> (\<exists>y. t = Inr y) \<and> \<not> s_closed ?s")
    case True
    then show ?thesis by (auto simp: commit_section_def Let_def intro: new)
  next
    case False
    then show ?thesis by (cases t) (auto simp: commit_section_def Let_def intro: h same)
  qed
qed

section \<open>The contract the chat service relies on\<close>

text \<open>
  The chat service ends a request by committing its result and then releasing the lease,
  which releases the request once more. The contract is what makes the second call harmless;
  both commit operations provide it.
\<close>

locale exchange_store =
  fixes invar :: "'st \<Rightarrow> bool"
    and view :: "'st \<Rightarrow> string \<Rightarrow> session_state option"
    and commit :: "string \<Rightarrow> u64 \<Rightarrow> chat_message \<Rightarrow> 'res runtime_result \<Rightarrow> int \<Rightarrow> 'st \<Rightarrow> 'st"
    and release :: "string \<Rightarrow> u64 \<Rightarrow> int \<Rightarrow> 'st \<Rightarrow> 'st"
  assumes commit_invar: "invar st \<Longrightarrow> invar (commit k r m res t st)"
    and release_invar: "invar st \<Longrightarrow> invar (release k r t st)"
    and commit_clears: "invar st \<Longrightarrow> view (commit k r m res t st) k = Some s \<Longrightarrow> s_active_request s \<noteq> Some r"
    and release_clears: "invar st \<Longrightarrow> view (release k r t st) k = Some s \<Longrightarrow> s_active_request s \<noteq> Some r"
    and release_idle: "invar st \<Longrightarrow> (\<And>s. view st k = Some s \<Longrightarrow> s_active_request s \<noteq> Some r) \<Longrightarrow>
      release k r t st = st"
    and commit_frame: "invar st \<Longrightarrow> k' \<noteq> k \<Longrightarrow> view (commit k r m res t st) k' = view st k'"
    and release_frame: "invar st \<Longrightarrow> k' \<noteq> k \<Longrightarrow> view (release k r t st) k' = view st k'"
begin

lemma release_after_commit:
  "invar st \<Longrightarrow> release k r t' (commit k r m res t st) = commit k r m res t st"
  by (rule release_idle) (auto intro: commit_invar dest: commit_clears)

lemma release_twice: "invar st \<Longrightarrow> release k r t' (release k r t st) = release k r t st"
  by (rule release_idle) (auto intro: release_invar dest: release_clears)

lemma finalize_frame:
  "invar st \<Longrightarrow> k' \<noteq> k \<Longrightarrow> view (release k r t' (commit k r m res t st)) k' = view st k'"
  by (simp add: release_after_commit commit_frame)

end

lemma commit_result_as_text:
  "commit_result k r m res now st = commit_response_text k r m (map_sum id cr_text res) now st"
  by (simp add: commit_result_def commit_response_text_def)

lemma view_commit_text:
  assumes "store_wf st"
  shows "session_view (commit_response_text k r m t now st) =
    (case session_view st k of
       None \<Rightarrow> session_view st
     | Some s \<Rightarrow>
         if s_active_request s \<noteq> Some r then session_view st
         else (session_view st)(k \<mapsto> touch_session (st_config st) now
           (s\<lparr>s_history := (case t of Inl _ \<Rightarrow> s_history s
               | Inr x \<Rightarrow> trim_history_to_fit (s_history s @ [m, assistant_message x])
                            (st_max_history_messages st)),
              s_active_request := None\<rparr>)))"
proof (cases "session_view st k")
  case None
  then show ?thesis by (simp add: view_commit_unknown)
next
  case (Some s)
  then obtain a where a: "map_of (st_sessions st) k = Some a" by (auto simp: view_Some_iff)
  show ?thesis using view_commit_section [OF assms a Some, of r m t now] Some
    by (simp add: commit_response_text_def a)
qed

lemma text_exchange_store:
  "exchange_store store_wf session_view commit_response_text release_request"
proof (unfold_locales, goal_cases)
  case (3 st k r m res t s)
  then show ?case by (auto simp: view_commit_text split: option.splits if_splits)
next
  case (4 st k r t s)
  then show ?case
    by (cases "session_view st k") (auto simp: view_release view_commit_unknown(3) split: if_splits)
next
  case (5 st k r t)
  then show ?case
    by (auto simp: release_request_def release_section_def Let_def session_view_def split: option.splits)
next
  case (6 st k' k r m res t)
  then show ?case by (auto simp: view_commit_text split: option.splits)
next
  case (7 st k' k r t)
  then show ?case by (cases "session_view st k") (auto simp: view_release view_commit_unknown(3))
qed (auto intro: store_wf_intros)

interpretation text_store: exchange_store store_wf session_view commit_response_text release_request
  by (rule text_exchange_store)

interpretation result_store: exchange_store store_wf session_view commit_result release_request
proof (unfold_locales, goal_cases)
  case (3 st k r m res t s)
  then show ?case unfolding commit_result_as_text by (rule text_store.commit_clears)
next
  case (4 st k r t s)
  then show ?case by (rule text_store.release_clears)
next
  case (5 st k r t)
  then show ?case by (rule text_store.release_idle)
next
  case (6 st k' k r m res t)
  then show ?case unfolding commit_result_as_text by (rule text_store.commit_frame)
next
  case (7 st k' k r t)
  then show ?case by (rule text_store.release_frame)
qed (auto intro: store_wf_intros)

section \<open>Identifiers\<close>

definition ids_below_counter :: "session_store \<Rightarrow> bool" where
  "ids_below_counter st \<longleftrightarrow>
     (\<forall>k \<in> set (al_keys (st_sessions st)). \<exists>j < st_next_session_id st. k = session_name j)"

lemma session_name_inject [simp]: "session_name i = session_name j \<longleftrightarrow> i = j"
  by (simp add: session_name_def word_unat_eq_iff)

lemma ids_below_fresh: "ids_below_counter st \<Longrightarrow> map_of (st_sessions st) (session_name (st_next_session_id st)) = None"
  by (auto simp: ids_below_counter_def map_of_eq_None_iff)

lemma ids_below_filter:
  "ids_below_counter st \<Longrightarrow> ids_below_counter (st\<lparr>st_sessions := filter P (st_sessions st), st_heap := h\<rparr>)"
  by (auto simp: ids_below_counter_def)

lemma ids_below_reap:
  assumes "store_wf st" "ids_below_counter st"
  shows "ids_below_counter (reap_expired_sessions_locked now st)"
  using assms by (auto simp: ids_below_counter_def reap_locked(1))

section \<open>A store, for the witnesses\<close>

text \<open>A store with one session: idle, with a request under way, and after its exchange.\<close>

definition demo_config :: session_config where
  "demo_config = \<lparr>max_sessions = 2, idle_ttl_seconds = 900\<rparr>"

definition demo_create :: session_create_request where
  "demo_create = \<lparr>sc_model = ''m'', sc_system_prompt = None\<rparr>"

definition demo_request :: chat_completion_request where
  "demo_request = \<lparr>cc_model = ''m'', cc_messages = [user_message ''hi''], cc_stream = False,
     cc_session_id = Some ''sess-1'', cc_overrides = no_overrides\<rparr>"

definition demo_session :: session_state where
  "demo_session = \<lparr>s_id = ''sess-1'', s_model = ''m'', s_created = 100, s_last_used = 100,
     s_expires_at = 1000, s_history = [system_message ''Be brief.''], s_active_request = None,
     s_closed = False\<rparr>"

definition demo_store1 :: session_store where
  "demo_store1 = \<lparr>st_model_id = ''m'', st_config = demo_config,
     st_base_system_prompt = ''Be brief.'', st_max_history_messages = 10, st_next_session_id = 2,
     st_heap = [demo_session], st_sessions = [(''sess-1'', 0)], st_stopping = False\<rparr>"

definition demo_store2 :: session_store where
  "demo_store2 = demo_store1\<lparr>st_heap := [demo_session\<lparr>s_last_used := 102, s_expires_at := 1002,
     s_active_request := Some 7\<rparr>]\<rparr>"

definition demo_store3 :: session_store where
  "demo_store3 = demo_store1\<lparr>st_heap := [demo_session\<lparr>s_last_used := 103, s_expires_at := 1003,
     s_history := [system_message ''Be brief.'', user_message ''hi'', assistant_message ''hello'']\<rparr>]\<rparr>"

lemma demo_trim:
  "trim_history_to_fit [system_message ''Be brief.'', user_message ''hi'', assistant_message ''hello''] 10 =
     [system_message ''Be brief.'', user_message ''hi'', assistant_message ''hello'']"
  by (subst trim_history_exact) (simp_all add: trim_bounds_def)

lemma session_name_1: "session_name 1 = ''sess-1''"
  by (simp add: session_name_def string_of_nat.simps digit_char_def) code_simp

lemmas demo_defs = demo_store3_def demo_store2_def demo_store1_def demo_session_def demo_config_def
  demo_create_def demo_request_def

lemma demo_sections:
  "snd (create_session demo_create 100 (make_session_store ''m'' demo_config ''Be brief.'' 10)) = demo_store1"
  "begin_validate demo_request demo_store1 = Inr (''sess-1'', user_message ''hi'')"
  "begin_lookup ''sess-1'' 101 demo_store1 = (Some 0, demo_store1)"
  "snd (begin_activate ''sess-1'' (user_message ''hi'') 7 0 101 102 demo_store1) = demo_store2"
  "map_of (st_sessions demo_store2) ''sess-1'' = Some 0"
  "commit_section 7 (user_message ''hi'') (Inr ''hello'') 0 103 demo_store2 = demo_store3"
  by (simp_all add: demo_defs create_session_def make_session_store_def make_session_state_def
      sessions_enabled_def reap_expired_sessions_locked_def al_emplace_def Let_def session_name_1
      make_initial_history_def combine_system_prompts_def begin_validate_def begin_lookup_def
      should_expire_def begin_activate_def touch_session_def commit_section_def demo_trim)

definition demo_result :: completion_result where
  "demo_result = \<lparr>cr_text = ''hello'',
     cr_usage = \<lparr>prompt_tokens = 3, completion_tokens = 1, total_tokens = 4\<rparr>,
     cr_metrics = \<lparr>latency_ms = 12, time_to_first_token_ms = 5, tokens_per_second = 0\<rparr>,
     cr_tool_invocations = []\<rparr>"

lemma demo_store1_wf: "store_wf demo_store1"
  by (simp add: demo_defs store_wf_def)

section \<open>Properties\<close>

text \<open>
  C22. Trimming keeps the system message, cuts one contiguous block right after it, leaves
  at most the configured number of other messages, starts the remainder at a user message, and
  removes no user message beyond the block that had to go; a history within the limit is
  untouched.
\<close>

theorem trim_history_to_fit_correct:
  assumes "trim_bounds m n"
  shows "\<exists>e. system_offset m \<le> e \<and> e \<le> length m \<and>
    trim_history_to_fit m n = take (system_offset m) m @ drop e m \<and>
    length (trim_history_to_fit m n) \<le> system_offset m + n \<and>
    (length m \<le> system_offset m + n \<longrightarrow> trim_history_to_fit m n = m) \<and>
    (system_offset m < e \<and> e < length m \<longrightarrow> msg_role (m ! e) = User) \<and>
    (\<forall>i. length m - n \<le> i \<and> i < e \<and> system_offset m < e \<longrightarrow> msg_role (m ! i) \<noteq> User)"
proof (cases "length m \<le> system_offset m + n")
  case True
  then show ?thesis
    using system_offset_le(2) [of m] by (intro exI [of _ "system_offset m"]) (simp add: trim_history_exact [OF assms])
next
  case False
  let ?e = "skip_to_user m (length m - n)"
  have "system_offset m < ?e" using False skip_to_user_ge [of "length m - n" m] by linarith
  with False show ?thesis
    using skip_to_user_le [of "length m - n" m] length_trim_history [OF assms]
      skip_to_user_stops [of m "length m - n"] skip_to_user_skips [of "length m - n" _ m]
    by (intro exI [of _ ?e]) (auto simp: trim_history_exact [OF assms])
qed

theorem trim_history_to_fit_correct_witness:
  "trim_bounds [system_message ''s'', user_message ''a'', assistant_message ''b'', user_message ''c'',
      assistant_message ''d''] 3 \<and>
   length (trim_history_to_fit [system_message ''s'', user_message ''a'', assistant_message ''b'',
      user_message ''c'', assistant_message ''d''] 3) \<le> 4"
proof -
  let ?m = "[system_message ''s'', user_message ''a'', assistant_message ''b'', user_message ''c'',
      assistant_message ''d'']"
  have b: "trim_bounds ?m 3" by (simp add: trim_bounds_def)
  then show ?thesis using trim_history_to_fit_correct [OF b] by (auto simp: system_offset_def)
qed

text \<open>
  With a limit of \<open>2 ^ 64 - 1\<close> messages the \<^verbatim>\<open>size_t\<close> sum of limit and system offset wraps to
  zero, and the range handed to \<^verbatim>\<open>erase\<close> ends one past the end of the vector.
\<close>

theorem trim_range_wraps_at_max_limit:
  "trim_range [system_message p] (2 ^ 64 - 1) = Some (1, 2)"
proof -
  have "skip_to_user [system_message p] 2 = 2" by (subst skip_to_user.simps) simp
  then show ?thesis by (simp add: trim_range_def system_offset_def u64_add_def u64_sub_def)
qed

text \<open>
  C20. One exchange, begin to end: a begun request is handed the session's history plus the
  new message; a successful commit under its identifier stores exactly that exchange (trimmed)
  and frees the session; a failed commit or a release frees it and leaves the history as it
  was; a commit under any other identifier changes nothing.
\<close>

theorem session_exchange_correct:
  assumes "store_wf st" and "begin_validate q st = Inr (k, u)"
    and "begin_request q r t0 t1 t2 st = (Inr b, st1)"
  shows "\<exists>s. session_view st k = Some s \<and> \<not> should_expire t0 s \<and>
    br_messages b = s_history s @ [u] \<and> br_user_message b = u \<and>
    session_view (commit_result k r u (Inr x) t st1) k =
      Some (touch_session (st_config st) t
        (s\<lparr>s_history := trim_history_to_fit (s_history s @ [u, assistant_message (cr_text x)])
             (st_max_history_messages st), s_active_request := None\<rparr>)) \<and>
    session_view (commit_result k r u (Inl e) t st1) k =
      Some (touch_session (st_config st) t (s\<lparr>s_active_request := None\<rparr>)) \<and>
    session_view (release_request k r t st1) k =
      Some (touch_session (st_config st) t (s\<lparr>s_active_request := None\<rparr>)) \<and>
    (\<forall>r' res. r' \<noteq> r \<longrightarrow> session_view (commit_result k r' u res t st1) = session_view st1)"
proof -
  let ?live = "session_view (reap_expired_sessions_locked t0 st)"
  from view_begin [OF assms refl] obtain s where s: "?live k = Some s" "s_active_request s = None"
    and b: "b = \<lparr>br_messages = s_history s @ [u], br_started_at = t1, br_user_message = u\<rparr>"
    and v1: "session_view st1 = ?live(k \<mapsto> touch_session (st_config st) t2 (s\<lparr>s_active_request := Some r\<rparr>))"
    by (auto split: option.splits if_splits)
  have st: "session_view st k = Some s" "\<not> should_expire t0 s"
    using s(1) by (auto simp: view_reap [OF assms(1)] split: option.splits if_splits)
  have wf1: "store_wf st1" using wf_begin [OF assms(1), of q r t0 t1 t2] assms(3) by simp
  have cfg: "st_config st1 = st_config st" "st_max_history_messages st1 = st_max_history_messages st"
    using assms(3) by (auto simp: begin_request_def begin_lookup_def begin_activate_def Let_def
        split: sum.splits prod.splits option.splits if_splits)
  let ?s1 = "touch_session (st_config st) t2 (s\<lparr>s_active_request := Some r\<rparr>)"
  have v1k: "session_view st1 k = Some ?s1" using v1 by simp
  note [simp] = view_commit [OF wf1 v1k] view_release [OF wf1 v1k] cfg
  show ?thesis
    by (intro exI [of _ s]) (simp add: st b s(2) touch_session_def)
qed

theorem session_exchange_correct_witness:
  "\<exists>s. session_view demo_store1 ''sess-1'' = Some s \<and>
     session_view (commit_result ''sess-1'' 7 (user_message ''hi'')
       (Inl \<lparr>rt_code = QueueFull, rt_message = [], rt_context = None\<rparr>) 103 demo_store2) ''sess-1'' =
     Some (touch_session demo_config 103 (s\<lparr>s_active_request := None\<rparr>))"
proof -
  have b: "begin_request demo_request 7 101 101 102 demo_store1 =
      (Inr \<lparr>br_messages = [system_message ''Be brief.'', user_message ''hi''], br_started_at = 101,
            br_user_message = user_message ''hi''\<rparr>, demo_store2)"
    using demo_sections(2,3)
    by (simp add: begin_request_def begin_activate_def Let_def demo_defs touch_session_def)
  have "st_config demo_store1 = demo_config" by (simp add: demo_store1_def)
  with session_exchange_correct [OF demo_store1_wf demo_sections(2) b, where t = 103 and x = demo_result
      and e = "\<lparr>rt_code = QueueFull, rt_message = [], rt_context = None\<rparr>"]
  show ?thesis by auto
qed

text \<open>
  While a request is under way on a session, a second one is refused with 409
  \<open>session_busy\<close> at any time, however far in the future: the session is neither handed out twice
  nor reaped, and the refusal changes no session other than by expiry.
\<close>

theorem second_request_is_refused:
  assumes "store_wf st" and "begin_validate q st = Inr (k, u)"
    and "begin_request q r t0 t1 t2 st = (Inr b, st1)"
    and "begin_validate q' st1 = Inr (k, u')"
    and "begin_request q' r' t0' t1' t2' st1 = (res, st2)"
  shows "res = Inl (conflict_error ''Session already has an active request'' (Some ''session_busy'')) \<and>
    session_view st2 k = session_view st1 k \<and>
    session_view st2 = session_view (reap_expired_sessions_locked t0' st1)"
proof -
  have wf1: "store_wf st1" using wf_begin [OF assms(1), of q r t0 t1 t2] assms(3) by simp
  from view_begin [OF assms(1-3) refl] obtain s where
    s: "session_view st1 k = Some s" "s_active_request s = Some r"
    by (auto split: option.splits if_splits)
  then have live: "session_view (reap_expired_sessions_locked t0' st1) k = Some s"
    by (simp add: view_reap [OF wf1] should_expire_def)
  with view_begin [OF wf1 assms(4,5) refl] s show ?thesis by simp
qed

theorem second_request_is_refused_witness:
  "begin_request demo_request 8 (10 ^ 9) (10 ^ 9) (10 ^ 9) demo_store2 =
     (Inl (conflict_error ''Session already has an active request'' (Some ''session_busy'')), demo_store2)"
proof -
  have b: "begin_request demo_request 7 101 101 102 demo_store1 =
      (Inr \<lparr>br_messages = [system_message ''Be brief.'', user_message ''hi''], br_started_at = 101,
            br_user_message = user_message ''hi''\<rparr>, demo_store2)"
    using demo_sections(2,3)
    by (simp add: begin_request_def begin_activate_def Let_def demo_defs touch_session_def)
  have v: "begin_validate demo_request demo_store2 = Inr (''sess-1'', user_message ''hi'')"
    by (simp add: demo_defs begin_validate_def sessions_enabled_def)
  have "begin_lookup ''sess-1'' (10 ^ 9) demo_store2 = (Some 0, demo_store2)"
    by (simp add: begin_lookup_def reap_expired_sessions_locked_def demo_defs should_expire_def)
  then have "begin_request demo_request 8 (10 ^ 9) (10 ^ 9) (10 ^ 9) demo_store2 =
      begin_activate ''sess-1'' (user_message ''hi'') 8 0 (10 ^ 9) (10 ^ 9) demo_store2"
    by (simp only: begin_request_def v sum.case prod.case option.case)
  then have "snd (begin_request demo_request 8 (10 ^ 9) (10 ^ 9) (10 ^ 9) demo_store2) = demo_store2"
    by (simp add: begin_activate_def Let_def demo_defs)
  moreover have "fst (begin_request demo_request 8 (10 ^ 9) (10 ^ 9) (10 ^ 9) demo_store2) =
      Inl (conflict_error ''Session already has an active request'' (Some ''session_busy''))"
    using second_request_is_refused [OF demo_store1_wf demo_sections(2) b v prod.collapse [symmetric]]
    by blast
  ultimately show ?thesis by (metis prod.collapse)
qed

text \<open>
  A new session: \<open>create_session\<close> hands out an identifier no stored session has, files
  an idle session under it whose history is the combined system prompt, and keeps every
  session that has not expired; the identifiers stay below the counter, which is what makes the
  next one fresh (as long as the 64-bit counter has not wrapped).
\<close>

theorem create_session_fresh:
  assumes "store_wf st" and "ids_below_counter st" and "st_next_session_id st < - 1"
    and "create_session q now st = (Inr summary, st')"
  shows "session_view st (ss_id summary) = None \<and>
    session_view st' = (session_view (reap_expired_sessions_locked now st))(ss_id summary \<mapsto>
      make_session_state (ss_id summary) (st_model_id st) now (now + int (idle_ttl_seconds (st_config st)))
        (make_initial_history (st_base_system_prompt st) (sc_system_prompt q))) \<and>
    ids_below_counter st'"
proof -
  let ?st = "reap_expired_sessions_locked now st" and ?k = "session_name (st_next_session_id st)"
  let ?x = "make_session_state ?k (st_model_id st) now (now + int (idle_ttl_seconds (st_config st)))
        (make_initial_history (st_base_system_prompt st) (sc_system_prompt q))"
  have below: "ids_below_counter ?st" using assms(1,2) by (rule ids_below_reap)
  have k: "map_of (st_sessions ?st) ?k = None" using ids_below_fresh [OF below] by simp
  have id: "ss_id summary = ?k"
    and st': "st' = ?st\<lparr>st_next_session_id := st_next_session_id st + 1, st_heap := st_heap ?st @ [?x],
      st_sessions := al_emplace ?k (length (st_heap ?st)) (st_sessions ?st)\<rparr>"
    using assms(4) by (auto simp: create_session_def Let_def snapshot_session_def make_session_state_def
        split: if_splits)
  have wf: "store_wf ?st" using assms(1) by blast
  have "session_view st' = (session_view ?st)(?k \<mapsto> ?x)"
    using k store_wfD(1) [OF wf]
    by (auto simp: session_view_def st' store_simps fun_eq_iff nth_append map_option_case split: option.splits)
  moreover have "session_view st ?k = None"
    using ids_below_fresh [OF assms(2)] by (simp add: view_None_iff)
  moreover have "j < st_next_session_id st \<Longrightarrow> j < st_next_session_id st + 1" for j
    using assms(3) by unat_arith
  moreover have "st_next_session_id st < st_next_session_id st + 1"
    using assms(3) by unat_arith
  ultimately show ?thesis
    using below by (auto simp: id st' ids_below_counter_def al_emplace_def k)
qed

theorem create_session_fresh_witness:
  "\<exists>summary st'. create_session demo_create 200 demo_store1 = (Inr summary, st') \<and>
     session_view demo_store1 (ss_id summary) = None \<and> ids_below_counter st'"
proof -
  have "\<exists>summary st'. create_session demo_create 200 demo_store1 = (Inr summary, st')"
    by (simp add: create_session_def demo_defs sessions_enabled_def reap_expired_sessions_locked_def
        should_expire_def Let_def)
  then obtain summary st' where c: "create_session demo_create 200 demo_store1 = (Inr summary, st')"
    by blast
  have "ids_below_counter demo_store1"
    using session_name_1 by (auto simp: ids_below_counter_def demo_store1_def intro: exI [of _ 1])
  moreover have "st_next_session_id demo_store1 < - 1" by (simp add: demo_store1_def)
  ultimately show ?thesis using create_session_fresh [OF demo_store1_wf _ _ c] c by blast
qed

text \<open>
  With sessions disabled every session operation returns \<open>sessions_disabled\<close> at once and
  leaves the store as it is.
\<close>

theorem disabled_store_rejects:
  assumes "max_sessions (st_config st) = 0"
  shows "create_session c now st = (Inl disabled_error, st) \<and>
    get_session k now st = (Inl disabled_error, st) \<and>
    delete_session k st = (Inl disabled_error, st) \<and>
    begin_request q r t0 t1 t2 st = (Inl disabled_error, st)"
  using assms by (simp add: create_session_def get_session_def delete_session_def begin_request_def
      begin_validate_def sessions_enabled_def)

theorem disabled_store_rejects_witness:
  "get_session ''sess-1'' 0 (make_session_store ''m'' \<lparr>max_sessions = 0, idle_ttl_seconds = 1\<rparr> [] 1) =
     (Inl disabled_error, make_session_store ''m'' \<lparr>max_sessions = 0, idle_ttl_seconds = 1\<rparr> [] 1)"
  using disabled_store_rejects
    [of "make_session_store ''m'' \<lparr>max_sessions = 0, idle_ttl_seconds = 1\<rparr> [] 1" demo_create 0 "''sess-1''"]
  by (simp add: make_session_store_def)

end
