(* ===== verification/Session_Threads.thy ===== *)
theory Session_Threads
  imports Session_Store
begin

text \<open>
  The session store under concurrency. Any number of threads run the operations of
  \<open>Session_Store\<close>; a step is one critical section of one thread, and between its sections a
  thread holds what it looked up (its program point). The reachable states of this system are
  all interleavings of \<^verbatim>\<open>session_manager.cpp\<close>'s lock regions. Clock readings and requests are
  arbitrary in every step. \<open>reachable_inv\<close> gives the invariant; the properties at the end are
  about every interleaving.
\<close>

datatype session_pc =
    Idle
  | Beginning string chat_message u64 nat
  | Deleting nat
  | Committing u64 chat_message "string runtime_result" nat
  | Releasing u64 nat
  | Stopping "(string \<times> nat) list"

record session_sys =
  sys_store :: session_store
  sys_pcs :: "nat \<Rightarrow> session_pc"

definition move :: "session_sys \<Rightarrow> nat \<Rightarrow> session_pc \<Rightarrow> session_store \<Rightarrow> session_sys" where
  "move s i pc st = s\<lparr>sys_store := st, sys_pcs := (sys_pcs s)(i := pc)\<rparr>"

text \<open>The first section of \<^verbatim>\<open>stop\<close>: the flag is set and the map swapped out.\<close>

definition stop_section :: "session_store \<Rightarrow> session_store" where
  "stop_section st = st\<lparr>st_stopping := True, st_sessions := []\<rparr>"

inductive session_step :: "session_sys \<Rightarrow> session_sys \<Rightarrow> bool" where
  create: "sys_pcs s i = Idle \<Longrightarrow>
     session_step s (move s i Idle (snd (create_session q now (sys_store s))))"
| get: "sys_pcs s i = Idle \<Longrightarrow>
     session_step s (move s i Idle (snd (get_session k now (sys_store s))))"
| reap: "sys_pcs s i = Idle \<Longrightarrow>
     session_step s (move s i Idle (reap_expired_sessions now (sys_store s)))"
| set_prompt: "sys_pcs s i = Idle \<Longrightarrow>
     session_step s (move s i Idle (set_base_system_prompt p (sys_store s)))"
| begin_reject: "sys_pcs s i = Idle \<Longrightarrow> begin_validate q (sys_store s) = Inr (k, m) \<Longrightarrow>
     begin_lookup k now (sys_store s) = (None, st) \<Longrightarrow> session_step s (move s i Idle st)"
| begin_find: "sys_pcs s i = Idle \<Longrightarrow> begin_validate q (sys_store s) = Inr (k, m) \<Longrightarrow>
     begin_lookup k now (sys_store s) = (Some a, st) \<Longrightarrow>
     session_step s (move s i (Beginning k m r a) st)"
| begin_finish: "sys_pcs s i = Beginning k m r a \<Longrightarrow>
     session_step s (move s i Idle (snd (begin_activate k m r a started now (sys_store s))))"
| delete_find: "sys_pcs s i = Idle \<Longrightarrow> sessions_enabled (st_config (sys_store s)) \<Longrightarrow>
     erase_section k (sys_store s) = (Some a, st) \<Longrightarrow> session_step s (move s i (Deleting a) st)"
| delete_finish: "sys_pcs s i = Deleting a \<Longrightarrow>
     session_step s (move s i Idle (close_section a (sys_store s)))"
| commit_find: "sys_pcs s i = Idle \<Longrightarrow> map_of (st_sessions (sys_store s)) k = Some a \<Longrightarrow>
     msg_role m = User \<Longrightarrow> session_step s (move s i (Committing r m t a) (sys_store s))"
| commit_finish: "sys_pcs s i = Committing r m t a \<Longrightarrow>
     session_step s (move s i Idle (commit_section r m t a now (sys_store s)))"
| release_find: "sys_pcs s i = Idle \<Longrightarrow> map_of (st_sessions (sys_store s)) k = Some a \<Longrightarrow>
     session_step s (move s i (Releasing r a) (sys_store s))"
| release_finish: "sys_pcs s i = Releasing r a \<Longrightarrow>
     session_step s (move s i Idle (release_section r a now (sys_store s)))"
| stop_swap: "sys_pcs s i = Idle \<Longrightarrow> \<not> st_stopping (sys_store s) \<Longrightarrow>
     session_step s (move s i (Stopping (st_sessions (sys_store s))) (stop_section (sys_store s)))"
| stop_close: "sys_pcs s i = Stopping ((k, a) # es) \<Longrightarrow>
     session_step s (move s i (Stopping es) (close_section a (sys_store s)))"
| stop_finish: "sys_pcs s i = Stopping [] \<Longrightarrow>
     session_step s (move s i Idle (sys_store s))"

definition session_init :: "string \<Rightarrow> session_config \<Rightarrow> string \<Rightarrow> nat \<Rightarrow> session_sys" where
  "session_init m c p n =
     \<lparr>sys_store = make_session_store m c p n, sys_pcs = (\<lambda>_. Idle)\<rparr>"

inductive session_reachable :: "session_sys \<Rightarrow> session_sys \<Rightarrow> bool" for s0 where
  start: "session_reachable s0 s0"
| step: "session_reachable s0 s \<Longrightarrow> session_step s t \<Longrightarrow> session_reachable s0 t"

lemma move_simps [simp]:
  "sys_store (move s i pc st) = st" "sys_pcs (move s i pc st) = (sys_pcs s)(i := pc)"
  by (simp_all add: move_def)

section \<open>What sections leave in place\<close>

text \<open>
  Objects are never freed, an address leaves the map for good, and configuration is constant:
  what a thread knows about the address it holds stays true.
\<close>

definition live_addrs :: "session_store \<Rightarrow> nat set" where
  "live_addrs st = snd ` set (st_sessions st)"

definition store_grows :: "session_store \<Rightarrow> session_store \<Rightarrow> bool" where
  "store_grows st st' \<longleftrightarrow>
     length (st_heap st) \<le> length (st_heap st') \<and>
     live_addrs st' \<subseteq> live_addrs st \<union> {length (st_heap st)..} \<and>
     st_config st' = st_config st \<and>
     st_max_history_messages st' = st_max_history_messages st"

lemma grows_heap_update [simp]: "store_grows st (st\<lparr>st_heap := (st_heap st)[a := x]\<rparr>)"
  by (simp add: store_grows_def live_addrs_def)

lemma grows_refl [simp]: "store_grows st st"
  by (simp add: store_grows_def)

lemma grows_trans: "store_grows a b \<Longrightarrow> store_grows b c \<Longrightarrow> store_grows a c"
  unfolding store_grows_def by fastforce

lemma grows_reap: "store_wf st \<Longrightarrow> store_grows st (reap_expired_sessions_locked now st)"
  by (auto simp: store_grows_def live_addrs_def reap_locked)

lemma grows_create: "store_wf st \<Longrightarrow> store_grows st (snd (create_session q now st))"
proof -
  assume wf: "store_wf st"
  have add: "store_grows s (s\<lparr>st_next_session_id := n, st_heap := st_heap s @ [x],
      st_sessions := al_emplace k (length (st_heap s)) (st_sessions s)\<rparr>)" for s n x k
    by (auto simp: store_grows_def live_addrs_def al_emplace_def split: option.splits)
  show ?thesis
    using grows_reap [OF wf, of now]
    by (auto simp: create_session_def Let_def intro: grows_trans [OF _ add, simplified])
qed

lemma grows_get: "store_wf st \<Longrightarrow> store_grows st (snd (get_session k now st))"
  by (auto simp: get_session_def Let_def grows_reap split: option.splits)

lemma grows_begin_lookup: "store_wf st \<Longrightarrow> store_grows st (snd (begin_lookup k now st))"
  by (simp add: begin_lookup_def Let_def grows_reap)

lemma grows_begin_activate: "store_grows st (snd (begin_activate k m r a t0 t1 st))"
  by (simp add: begin_activate_def Let_def)

lemma grows_erase: "store_grows st (snd (erase_section k st))"
  by (auto simp: erase_section_def store_grows_def live_addrs_def al_erase_def split: option.splits)

lemma grows_close: "store_grows st (close_section a st)"
  by (simp add: close_section_def)

lemma grows_commit_section: "store_grows st (commit_section r m t a now st)"
  by (simp add: commit_section_def Let_def)

lemma grows_release_section: "store_grows st (release_section r a now st)"
  by (simp add: release_section_def Let_def)

lemma grows_others:
  "store_grows st (set_base_system_prompt p st)" "store_grows st (stop_section st)"
  by (auto simp: set_base_system_prompt_def stop_section_def store_grows_def live_addrs_def)

section \<open>The invariant\<close>

fun pc_ok :: "session_store \<Rightarrow> session_pc \<Rightarrow> bool" where
  "pc_ok st Idle = True"
| "pc_ok st (Beginning k m r a) = (a < length (st_heap st) \<and> msg_role m = User)"
| "pc_ok st (Deleting a) = (a < length (st_heap st) \<and> a \<notin> live_addrs st)"
| "pc_ok st (Committing r m t a) = (a < length (st_heap st) \<and> msg_role m = User)"
| "pc_ok st (Releasing r a) = (a < length (st_heap st))"
| "pc_ok st (Stopping es) = (\<forall>(k, a) \<in> set es. a < length (st_heap st) \<and> a \<notin> live_addrs st)"

definition session_inv :: "session_sys \<Rightarrow> bool" where
  "session_inv s \<longleftrightarrow> store_wf (sys_store s) \<and> histories_ok (sys_store s) \<and>
     (\<forall>i. pc_ok (sys_store s) (sys_pcs s i))"

lemma pc_ok_grows: "pc_ok st pc \<Longrightarrow> store_grows st st' \<Longrightarrow> pc_ok st' pc"
  by (cases pc) (fastforce simp: store_grows_def)+

lemma session_inv_move:
  assumes "session_inv s" "store_grows (sys_store s) st" "store_wf st" "histories_ok st" "pc_ok st pc"
  shows "session_inv (move s i pc st)"
  using assms pc_ok_grows by (auto simp: session_inv_def)

lemma histories_nth:
  "histories_ok st \<longleftrightarrow> (\<forall>i < length (st_heap st). history_ok (s_history (st_heap st ! i)) \<and>
     length (s_history (st_heap st ! i)) \<le> Suc (st_max_history_messages st))"
  by (auto simp: histories_ok_def all_set_conv_all_nth)

lemma histories_reap:
  "store_wf st \<Longrightarrow> histories_ok st \<Longrightarrow> histories_ok (reap_expired_sessions_locked now st)"
  by (simp add: histories_nth reap_locked)

lemma length_initial_history: "length (make_initial_history b r) \<le> Suc n"
  by (simp add: make_initial_history_def Let_def)

lemma histories_create:
  "store_wf st \<Longrightarrow> histories_ok st \<Longrightarrow> histories_ok (snd (create_session q now st))"
  using histories_reap [of st now] length_initial_history
  by (auto simp: create_session_def Let_def histories_ok_def make_session_state_def
      history_ok_initial)

lemma histories_close:
  assumes "histories_ok st" "a < length (st_heap st)"
  shows "histories_ok (close_section a st)"
  using assms by (simp add: close_section_def histories_same)

lemma histories_begin_activate:
  assumes "histories_ok st" "a < length (st_heap st)"
  shows "histories_ok (snd (begin_activate k m r a t0 t1 st))"
  using assms by (simp add: begin_activate_def Let_def histories_same)

lemma histories_release_section:
  assumes "histories_ok st" "a < length (st_heap st)"
  shows "histories_ok (release_section r a now st)"
  using assms by (simp add: release_section_def Let_def histories_same)

lemma begin_validate_user: "begin_validate q st = Inr (k, m) \<Longrightarrow> msg_role m = User"
  by (auto simp: begin_validate_def split: if_splits option.splits list.splits)

lemma begin_lookup_live:
  assumes "store_wf st" "begin_lookup k now st = (Some a, st')"
  shows "a < length (st_heap st')" "store_wf st'" "st' = reap_expired_sessions_locked now st"
proof -
  show "st' = reap_expired_sessions_locked now st"
    using assms(2) by (auto simp: begin_lookup_def Let_def)
  with assms show "store_wf st'" by auto
  with assms(2) show "a < length (st_heap st')"
    by (auto simp: begin_lookup_def Let_def dest: store_wfD(1))
qed

lemma begin_lookup_store: "begin_lookup k now st = (r, st') \<Longrightarrow> st' = reap_expired_sessions_locked now st"
  by (auto simp: begin_lookup_def Let_def)

lemma inv_delete_find:
  assumes inv: "session_inv s" and at: "sys_pcs s i = Idle" and found: "erase_section k (sys_store s) = (Some a, st)"
  shows "session_inv (move s i (Deleting a) st) \<and> store_grows (sys_store s) (sys_store (move s i (Deleting a) st))"
proof -
  have wf: "store_wf (sys_store s)" and h: "histories_ok (sys_store s)" using inv by (auto simp: session_inv_def)
  have "st = snd (erase_section k (sys_store s))" using found by simp
  moreover have "histories_ok st" using h found
    by (auto simp: erase_section_def histories_ok_def split: option.splits)
  moreover have "pc_ok st (Deleting a)"
    using erase_section_Some [OF wf found] store_wfD(1) [OF wf, of k a] by (simp add: live_addrs_def)
  ultimately show ?thesis using wf by (auto intro!: session_inv_move [OF inv] grows_erase)
qed

lemma inv_stop_swap:
  assumes inv: "session_inv s"
  shows "session_inv (move s i (Stopping (st_sessions (sys_store s))) (stop_section (sys_store s))) \<and>
    store_grows (sys_store s) (stop_section (sys_store s))"
proof -
  have wf: "store_wf (sys_store s)" and h: "histories_ok (sys_store s)" using inv by (auto simp: session_inv_def)
  then have "store_wf (stop_section (sys_store s))" "histories_ok (stop_section (sys_store s))"
    by (auto simp: stop_section_def store_wf_def histories_ok_def)
  moreover have "pc_ok (stop_section (sys_store s)) (Stopping (st_sessions (sys_store s)))"
    using store_wfE(3) [OF wf] by (auto simp: stop_section_def live_addrs_def)
  ultimately show ?thesis by (auto intro!: session_inv_move [OF inv] grows_others simp del: pc_ok.simps)
qed

lemma inv_close:
  assumes inv: "session_inv s" and "pc_ok (sys_store s) (Deleting a)" and "pc_ok (sys_store s) pc"
  shows "session_inv (move s i pc (close_section a (sys_store s))) \<and>
    store_grows (sys_store s) (close_section a (sys_store s))"
proof -
  have wf: "store_wf (sys_store s)" and h: "histories_ok (sys_store s)" using inv by (auto simp: session_inv_def)
  have "pc_ok (close_section a (sys_store s)) pc" using assms(3) by (rule pc_ok_grows [OF _ grows_close])
  with assms(2) wf h show ?thesis using session_inv_move [OF inv, of "close_section a (sys_store s)" pc i]
    by (auto intro!: grows_close histories_close wf_close simp: live_addrs_def)
qed

lemma session_step_inv:
  assumes "session_step s t" and inv: "session_inv s"
    and n: "st_max_history_messages (sys_store s) < 2 ^ 64 - 3"
  shows "session_inv t \<and> store_grows (sys_store s) (sys_store t)"
proof -
  have wf: "store_wf (sys_store s)" and h: "histories_ok (sys_store s)"
    and pcs: "\<And>i. pc_ok (sys_store s) (sys_pcs s i)"
    using inv by (auto simp: session_inv_def)
  note go = session_inv_move [OF inv]
  from assms(1) show ?thesis
  proof cases
    case (begin_find i q k m now a st r)
    then show ?thesis using wf h begin_lookup_live [OF wf begin_find(4)]
      by (auto intro!: go simp: grows_reap histories_reap begin_validate_user)
  next
    case (begin_finish i k m r a started now)
    then show ?thesis using wf h pcs [of i] by (auto intro!: go grows_begin_activate histories_begin_activate)
  next
    case (delete_find i k a st)
    then show ?thesis using inv_delete_find [OF inv] by simp
  next
    case (delete_finish i a)
    then show ?thesis using inv_close [OF inv, of a Idle i] pcs [of i] by simp
  next
    case (commit_finish i r m t a now)
    then show ?thesis using wf h pcs [of i] n by (auto intro!: go grows_commit_section histories_commit_section)
  next
    case (release_finish i r a now)
    then show ?thesis using wf h pcs [of i] by (auto intro!: go grows_release_section histories_release_section)
  next
    case (stop_swap i)
    then show ?thesis using inv_stop_swap [OF inv] by simp
  next
    case (stop_close i k a es)
    then show ?thesis using inv_close [OF inv, of a "Stopping es" i] pcs [of i] by simp
  next
    case (set_prompt i p)
    then show ?thesis using wf h
      by (auto intro!: go grows_others) (simp add: set_base_system_prompt_def histories_ok_def)
  qed (use wf h in \<open>auto intro!: go grows_create histories_create dest: store_wfD(1)
        dest!: begin_lookup_store simp: grows_reap histories_reap get_session_def reap_expired_sessions_def
        Let_def split: option.splits\<close>)
qed

lemma session_inv_init: "session_inv (session_init m c p n)"
  by (simp add: session_inv_def session_init_def wf_initial)
    (simp add: make_session_store_def histories_ok_def)

lemma reachable_inv:
  assumes "session_reachable (session_init m c p n) s" and "n < 2 ^ 64 - 3"
  shows "session_inv s \<and> st_config (sys_store s) = c \<and> st_max_history_messages (sys_store s) = n"
  using assms(1)
proof (induction rule: session_reachable.induct)
  case start
  show ?case using session_inv_init
    by (simp add: session_init_def make_session_store_def)
next
  case (step s t)
  then show ?case using session_step_inv [OF step.hyps(2)] assms(2)
    by (auto simp: store_grows_def)
qed

section \<open>The effect of a step on one session object\<close>

definition same_request_state :: "session_state \<Rightarrow> session_state \<Rightarrow> bool" where
  "same_request_state x y \<longleftrightarrow> s_history y = s_history x \<and> s_active_request y = s_active_request x"

lemma same_request_refl [simp]: "same_request_state x x"
  by (simp add: same_request_state_def)

lemma reap_same:
  "store_wf st \<Longrightarrow> a < length (st_heap st) \<Longrightarrow>
     same_request_state (st_heap st ! a) (st_heap (reap_expired_sessions_locked now st) ! a)"
  by (simp add: reap_locked same_request_state_def)

lemma close_same:
  "a < length (st_heap st) \<Longrightarrow> same_request_state (st_heap st ! a) (st_heap (close_section b st) ! a)"
  by (cases "a = b") (simp_all add: close_section_def same_request_state_def)

lemma create_same:
  assumes "store_wf st" "a < length (st_heap st)"
  shows "same_request_state (st_heap st ! a) (st_heap (snd (create_session q now st)) ! a)"
  using reap_same [OF assms, of now] assms reap_locked(2) [OF assms(1), of now]
  by (simp add: create_session_def Let_def nth_append)

lemma get_same:
  assumes "store_wf st" "a < length (st_heap st)"
  shows "same_request_state (st_heap st ! a) (st_heap (snd (get_session k now st)) ! a)"
  using reap_same [OF assms, of now] by (simp add: get_session_def Let_def split: option.splits)

inductive session_effect :: "session_sys \<Rightarrow> nat \<Rightarrow> session_state \<Rightarrow> session_state \<Rightarrow> bool" for s a where
  unchanged: "same_request_state x y \<Longrightarrow> session_effect s a x y"
| began: "sys_pcs s i = Beginning k m r a \<Longrightarrow> s_active_request x = None \<Longrightarrow> \<not> s_closed x \<Longrightarrow>
     s_active_request y = Some r \<Longrightarrow> s_history y = s_history x \<Longrightarrow> session_effect s a x y"
| committed: "sys_pcs s i = Committing r m (Inr t) a \<Longrightarrow> s_active_request x = Some r \<Longrightarrow>
     \<not> s_closed x \<Longrightarrow> s_active_request y = None \<Longrightarrow>
     s_history y = trim_history_to_fit (s_history x @ [m, assistant_message t])
       (st_max_history_messages (sys_store s)) \<Longrightarrow> session_effect s a x y"
| dropped: "sys_pcs s i = Committing r m t a \<or> sys_pcs s i = Releasing r a \<Longrightarrow>
     s_active_request x = Some r \<Longrightarrow> s_active_request y = None \<Longrightarrow>
     s_history y = s_history x \<Longrightarrow> session_effect s a x y"

lemma begin_effect:
  assumes "sys_pcs s i = Beginning k m r b" "a < length (st_heap (sys_store s))"
  shows "session_effect s a (st_heap (sys_store s) ! a)
    (st_heap (snd (begin_activate k m r b t0 t1 (sys_store s))) ! a)"
  using assms by (cases "a = b")
    (auto simp: begin_activate_def Let_def intro: session_effect.unchanged session_effect.began)

lemma commit_effect:
  assumes "sys_pcs s i = Committing r m t b" "a < length (st_heap (sys_store s))"
  shows "session_effect s a (st_heap (sys_store s) ! a)
    (st_heap (commit_section r m t b now (sys_store s)) ! a)"
proof (cases "a = b \<and> s_active_request (st_heap (sys_store s) ! a) = Some r")
  case False
  then show ?thesis using assms by (auto simp: commit_section_def Let_def intro: session_effect.unchanged)
next
  case True
  show ?thesis
  proof (cases "\<exists>x. t = Inr x \<and> \<not> s_closed (st_heap (sys_store s) ! a)")
    case T: True
    then obtain x where x: "t = Inr x" by blast
    from True have b: "b = a" and act: "s_active_request (st_heap (sys_store s) ! a) = Some r" by auto
    show ?thesis using assms T x act
      by (intro session_effect.committed [of s i r m x]) (simp_all add: commit_section_def Let_def b)
  next
    case F: False
    show ?thesis using assms True F
      by (intro session_effect.dropped [of s i r m t])
        (auto simp: commit_section_def Let_def split: sum.splits)
  qed
qed

lemma release_effect:
  assumes "sys_pcs s i = Releasing r b" "a < length (st_heap (sys_store s))"
  shows "session_effect s a (st_heap (sys_store s) ! a)
    (st_heap (release_section r b now (sys_store s)) ! a)"
proof (cases "a = b \<and> s_active_request (st_heap (sys_store s) ! a) = Some r")
  case False
  then show ?thesis using assms by (auto simp: release_section_def Let_def intro: session_effect.unchanged)
next
  case True
  show ?thesis using assms True
    by (intro session_effect.dropped [of s i r]) (auto simp: release_section_def Let_def)
qed

lemma step_effect:
  assumes "session_step s t" "session_inv s" "a < length (st_heap (sys_store s))"
  shows "session_effect s a (st_heap (sys_store s) ! a) (st_heap (sys_store t) ! a)"
proof -
  have wf: "store_wf (sys_store s)" using assms(2) by (simp add: session_inv_def)
  note same = session_effect.unchanged
  from assms(1) show ?thesis
  proof cases
    case (create i q now)
    then show ?thesis using create_same [OF wf assms(3)] by (auto intro: same)
  next
    case (get i k now)
    then show ?thesis using get_same [OF wf assms(3)] by (auto intro: same)
  next
    case (reap i now)
    then show ?thesis using reap_same [OF wf assms(3)] by (auto simp: reap_expired_sessions_def intro: same)
  next
    case (begin_reject i q k m now st)
    then show ?thesis using reap_same [OF wf assms(3)] by (auto dest: begin_lookup_store intro: same)
  next
    case (begin_find i q k m now b st r)
    then show ?thesis using reap_same [OF wf assms(3)] by (auto dest: begin_lookup_store intro: same)
  next
    case (begin_finish i k m r b started now)
    then show ?thesis using begin_effect [OF _ assms(3)] by auto
  next
    case (delete_find i k b st)
    then show ?thesis by (auto simp: erase_section_def intro: same split: option.splits)
  next
    case (commit_finish i r m x b now)
    then show ?thesis using commit_effect [OF _ assms(3)] by auto
  next
    case (release_finish i r b now)
    then show ?thesis using release_effect [OF _ assms(3)] by auto
  qed (auto intro!: same close_same assms(3) simp: set_base_system_prompt_def stop_section_def)
qed

section \<open>A run, for the witnesses\<close>

text \<open>One thread creates a session, begins a request on it and commits its answer.\<close>

definition demo0 :: session_sys where
  "demo0 = session_init ''m'' demo_config ''Be brief.'' 10"

definition demo1 :: session_sys where "demo1 = move demo0 0 Idle demo_store1"
definition demo2 :: session_sys where
  "demo2 = move demo1 0 (Beginning ''sess-1'' (user_message ''hi'') 7 0) demo_store1"
definition demo3 :: session_sys where "demo3 = move demo2 0 Idle demo_store2"
definition demo4 :: session_sys where
  "demo4 = move demo3 0 (Committing 7 (user_message ''hi'') (Inr ''hello'') 0) demo_store2"
definition demo5 :: session_sys where "demo5 = move demo4 0 Idle demo_store3"

lemma demo_steps:
  "session_step demo0 demo1" "session_step demo1 demo2" "session_step demo2 demo3"
  "session_step demo3 demo4" "session_step demo4 demo5"
proof -
  show "session_step demo0 demo1"
    using session_step.create [of demo0 0 demo_create 100] demo_sections(1)
    by (simp add: demo1_def demo0_def session_init_def)
  show "session_step demo1 demo2"
    using session_step.begin_find [of demo1 0 demo_request "''sess-1''" "user_message ''hi''" 101 0 demo_store1 7]
      demo_sections(2,3) by (simp add: demo2_def demo1_def)
  show "session_step demo2 demo3"
    using session_step.begin_finish [of demo2 0 "''sess-1''" "user_message ''hi''" 7 0 101 102] demo_sections(4)
    by (simp add: demo3_def demo2_def)
  show "session_step demo3 demo4"
    using session_step.commit_find [of demo3 0 "''sess-1''" 0 "user_message ''hi''" 7 "Inr ''hello''"] demo_sections(5)
    by (simp add: demo4_def demo3_def)
  show "session_step demo4 demo5"
    using session_step.commit_finish [of demo4 0 7 "user_message ''hi''" "Inr ''hello''" 0 103] demo_sections(6)
    by (simp add: demo5_def demo4_def)
qed

lemma demo_reachable:
  "session_reachable demo0 demo3" "session_reachable demo0 demo4" "session_reachable demo0 demo5"
  using demo_steps by (meson session_reachable.intros)+

section \<open>Properties\<close>

text \<open>
  C17. In every interleaving of the store's critical sections by any number of threads: the
  capacity limit holds; every stored session is filed under its own identifier and open; its
  history is an optional system message followed by complete user/assistant exchanges and
  is at most one message (the system prompt) longer than the configured limit; and a stopped
  store is empty.
\<close>

theorem sessions_interleaving_invariant:
  assumes "session_reachable (session_init m c p n) s" and "n < 2 ^ 64 - 3"
  shows "length (st_sessions (sys_store s)) \<le> max_sessions c \<and>
    (\<forall>k x. session_view (sys_store s) k = Some x \<longrightarrow>
       s_id x = k \<and> \<not> s_closed x \<and> history_ok (s_history x) \<and> length (s_history x) \<le> Suc n) \<and>
    (st_stopping (sys_store s) \<longrightarrow> st_sessions (sys_store s) = [])"
proof -
  from reachable_inv [OF assms] have inv: "store_wf (sys_store s)" "histories_ok (sys_store s)"
    "st_config (sys_store s) = c" "st_max_history_messages (sys_store s) = n"
    by (auto simp: session_inv_def)
  then show ?thesis
    using store_wfE(4,5) [OF inv(1)] store_wfD [OF inv(1)]
    by (auto simp: view_Some_iff histories_nth)
qed

theorem sessions_interleaving_invariant_witness:
  "session_reachable demo0 demo5 \<and> length (st_sessions (sys_store demo5)) = 1 \<and>
     (\<exists>x. session_view (sys_store demo5) ''sess-1'' = Some x \<and> s_id x = ''sess-1'' \<and>
        history_ok (s_history x) \<and> length (s_history x) = 3 \<and> length (s_history x) \<le> Suc 10)"
proof -
  have r: "session_reachable (session_init ''m'' demo_config ''Be brief.'' 10) demo5"
    using demo_reachable(3) by (simp add: demo0_def)
  obtain x where "session_view (sys_store demo5) ''sess-1'' = Some x" "length (s_history x) = 3"
    by (simp add: demo5_def demo_store3_def demo_store1_def session_view_def)
  with sessions_interleaving_invariant [OF r] show ?thesis
    using demo_reachable(3) by (simp add: demo5_def demo_store3_def demo_store1_def)
qed

text \<open>
  C18. In every interleaving, a session's history changes only when the request that holds
  the session commits a successful result: the new history is the old one with that request's
  user message and the answer appended, trimmed, and the session becomes idle in the same
  section. No other operation, and no late or foreign request, writes a history.
\<close>

theorem history_written_only_by_active_request:
  assumes "session_reachable (session_init m c p n) s" and "n < 2 ^ 64 - 3"
    and "session_step s t" and "a < length (st_heap (sys_store s))"
    and "s_history (st_heap (sys_store t) ! a) \<noteq> s_history (st_heap (sys_store s) ! a)"
  shows "\<exists>i r u x. sys_pcs s i = Committing r u (Inr x) a \<and> msg_role u = User \<and>
    s_active_request (st_heap (sys_store s) ! a) = Some r \<and>
    s_active_request (st_heap (sys_store t) ! a) = None \<and>
    s_history (st_heap (sys_store t) ! a) =
      trim_history_to_fit (s_history (st_heap (sys_store s) ! a) @ [u, assistant_message x]) n"
proof -
  from reachable_inv [OF assms(1,2)] have inv: "session_inv s"
    and n: "st_max_history_messages (sys_store s) = n" by auto
  from step_effect [OF assms(3) inv assms(4)] assms(5) show ?thesis
  proof cases
    case (committed i r u x)
    moreover have "pc_ok (sys_store s) (sys_pcs s i)" using inv by (simp add: session_inv_def)
    ultimately show ?thesis using n by auto
  qed (auto simp: same_request_state_def)
qed

theorem history_written_only_by_active_request_witness:
  "\<exists>i r u x. sys_pcs demo4 i = Committing r u (Inr x) 0 \<and>
     s_history (st_heap (sys_store demo5) ! 0) =
       trim_history_to_fit (s_history (st_heap (sys_store demo4) ! 0) @ [u, assistant_message x]) 10"
proof -
  have r: "session_reachable (session_init ''m'' demo_config ''Be brief.'' 10) demo4"
    using demo_reachable(2) by (simp add: demo0_def)
  have "s_history (st_heap (sys_store demo5) ! 0) \<noteq> s_history (st_heap (sys_store demo4) ! 0)"
    by (simp add: demo5_def demo4_def demo_store3_def demo_store2_def demo_store1_def demo_session_def)
  moreover have "0 < length (st_heap (sys_store demo4))"
    by (simp add: demo4_def demo_store2_def demo_store1_def)
  ultimately show ?thesis
    using history_written_only_by_active_request [OF r _ demo_steps(5), of 0] by auto
qed

text \<open>
  C19. In every interleaving, a busy session stays assigned to its request until that request
  itself commits or releases it: no second request can take the session over.
\<close>

theorem busy_session_kept_until_own_release:
  assumes "session_reachable (session_init m c p n) s" and "n < 2 ^ 64 - 3"
    and "session_step s t" and "a < length (st_heap (sys_store s))"
    and "s_active_request (st_heap (sys_store s) ! a) = Some r"
  shows "s_active_request (st_heap (sys_store t) ! a) = Some r \<or>
    (s_active_request (st_heap (sys_store t) ! a) = None \<and>
     (\<exists>i. sys_pcs s i = Releasing r a \<or> (\<exists>u x. sys_pcs s i = Committing r u x a)))"
proof -
  from reachable_inv [OF assms(1,2)] have inv: "session_inv s" by auto
  from step_effect [OF assms(3) inv assms(4)] assms(5) show ?thesis
    by cases (auto simp: same_request_state_def)
qed

theorem busy_session_kept_until_own_release_witness:
  "s_active_request (st_heap (sys_store demo4) ! 0) = Some 7 \<and>
   s_active_request (st_heap (sys_store demo5) ! 0) = None \<and>
   (\<exists>i. sys_pcs demo4 i = Releasing 7 0 \<or> (\<exists>u x. sys_pcs demo4 i = Committing 7 u x 0))"
proof -
  have r: "session_reachable (session_init ''m'' demo_config ''Be brief.'' 10) demo4"
    using demo_reachable(2) by (simp add: demo0_def)
  have a: "s_active_request (st_heap (sys_store demo4) ! 0) = Some 7"
    "s_active_request (st_heap (sys_store demo5) ! 0) = None"
    by (simp_all add: demo5_def demo4_def demo_store3_def demo_store2_def demo_store1_def demo_session_def)
  have "0 < length (st_heap (sys_store demo4))" by (simp add: demo4_def demo_store2_def demo_store1_def)
  from busy_session_kept_until_own_release [OF r _ demo_steps(5) this a(1)] a show ?thesis by simp
qed

end
