(* ===== verification/Executor.thy ===== *)
theory Executor
  imports Zks_Prelude "HOL-Library.Multiset"
begin

text \<open>
  \<^verbatim>\<open>src/server/executor.cpp\<close>: the bounded thread pool.

  \<open>submit\<close> and \<open>executor_stop\<close> are the public operations; \<open>worker_wake\<close> is the locked part of
  one turn of \<^verbatim>\<open>worker_loop\<close> (wait, exit or take the front task). A task is an abstract value:
  running it ends in the worker returning to the loop whether it returns or throws, since the
  loop catches every exception. The system of workers is a step relation with two ghost lists,
  the tasks accepted and started so far, which state the ordering guarantees.
  The locale \<open>bounded_submission\<close> is the contract of a bounded submission point; the executor
  provides it here and the server runtime, which wraps it, in \<open>Runtime\<close>.
\<close>

datatype 'task worker = Waiting | Running 'task | Exited

record 'task executor =
  max_pending_tasks :: nat
  tasks :: "'task list"
  workers :: "'task worker list"
  stopping :: bool

definition make_executor :: "nat \<Rightarrow> nat \<Rightarrow> 'task executor" where
  "make_executor worker_count max_pending =
     (let effective_workers = (if worker_count = 0 then 1 else worker_count)
      in \<lparr>max_pending_tasks = (if max_pending = 0 then 1 else max_pending), tasks = [],
          workers = replicate effective_workers Waiting, stopping = False\<rparr>)"

definition submit :: "'task \<Rightarrow> 'task executor \<Rightarrow> (string, unit) result \<times> 'task executor" where
  "submit task ex =
     (if stopping ex then (Inl ''Executor is stopping'', ex)
      else if max_pending_tasks ex \<le> length (tasks ex) then (Inl ''Executor queue is full'', ex)
      else (Inr (), ex\<lparr>tasks := tasks ex @ [task]\<rparr>))"

definition executor_stop :: "'task executor \<Rightarrow> 'task executor" where
  "executor_stop ex = (if stopping ex then ex else ex\<lparr>stopping := True\<rparr>)"

text \<open>The joins of \<^verbatim>\<open>stop\<close>: possible once every worker has left its loop.\<close>

definition executor_join :: "'task executor \<Rightarrow> 'task executor option" where
  "executor_join ex = (if list_all ((=) Exited) (workers ex) then Some (ex\<lparr>workers := []\<rparr>) else None)"

text \<open>One turn under the mutex: \<open>None\<close> while the wait predicate is false.\<close>

definition worker_wake :: "'task executor \<Rightarrow> ('task worker \<times> 'task executor) option" where
  "worker_wake ex =
     (if \<not> (stopping ex \<or> tasks ex \<noteq> []) then None
      else if stopping ex \<and> tasks ex = [] then Some (Exited, ex)
      else Some (Running (hd (tasks ex)), ex\<lparr>tasks := tl (tasks ex)\<rparr>))"

section \<open>The contract\<close>

locale bounded_submission =
  fixes capacity :: "'s \<Rightarrow> nat"
    and pending :: "'s \<Rightarrow> 'task list"
    and closed :: "'s \<Rightarrow> bool"
    and put :: "'task \<Rightarrow> 's \<Rightarrow> (string, unit) result \<times> 's"
  assumes put_accepts_iff:
      "fst (put t s) = Inr () \<longleftrightarrow> \<not> closed s \<and> length (pending s) < capacity s"
    and put_pending:
      "pending (snd (put t s)) = (if fst (put t s) = Inr () then pending s @ [t] else pending s)"
    and put_rejects_unchanged: "fst (put t s) \<noteq> Inr () \<Longrightarrow> snd (put t s) = s"
    and put_keeps: "capacity (snd (put t s)) = capacity s" "closed (snd (put t s)) = closed s"
begin

fun put_all :: "'task list \<Rightarrow> 's \<Rightarrow> 's" where
  "put_all [] s = s"
| "put_all (t # ts) s = put_all ts (snd (put t s))"

lemma put_bounded:
  "length (pending s) \<le> capacity s \<Longrightarrow> length (pending (snd (put t s))) \<le> capacity (snd (put t s))"
  using put_accepts_iff [of t s] by (auto simp: put_pending put_keeps)

lemma put_all_closed: "closed s \<Longrightarrow> put_all ts s = s"
  by (induction ts arbitrary: s) (auto simp: put_accepts_iff put_rejects_unchanged)

lemma put_all_pending:
  assumes "\<not> closed s"
  shows "pending (put_all ts s) = pending s @ take (capacity s - length (pending s)) ts"
  using assms
proof (induction ts arbitrary: s)
  case Nil
  then show ?case by simp
next
  case (Cons t ts)
  have "\<not> closed (snd (put t s))" using Cons.prems by (simp add: put_keeps)
  note ih = Cons.IH [OF this]
  show ?case
  proof (cases "length (pending s) < capacity s")
    case True
    then have "fst (put t s) = Inr ()" using Cons.prems by (simp add: put_accepts_iff)
    with True ih show ?thesis
      by (simp add: put_pending put_keeps take_Cons' Suc_diff_le)
  next
    case False
    then have "fst (put t s) \<noteq> Inr ()" by (simp add: put_accepts_iff)
    with False ih show ?thesis by (simp add: put_pending put_keeps)
  qed
qed

end

interpretation executor_queue: bounded_submission max_pending_tasks tasks stopping submit
  by unfold_locales (auto simp: submit_def)

section \<open>The pool as a transition system\<close>

record 'task pool =
  pool_ex :: "'task executor"
  accepted :: "'task list"
  started :: "'task list"
  finished :: "'task list"

definition set_worker :: "nat \<Rightarrow> 'task worker \<Rightarrow> 'task executor \<Rightarrow> 'task executor" where
  "set_worker i w ex = ex\<lparr>workers := (workers ex)[i := w]\<rparr>"

inductive worker_step :: "'task pool \<Rightarrow> 'task pool \<Rightarrow> bool" where
  take_task: "i < length (workers (pool_ex p)) \<Longrightarrow> workers (pool_ex p) ! i = Waiting \<Longrightarrow>
     worker_wake (pool_ex p) = Some (Running t, ex) \<Longrightarrow>
     worker_step p (p\<lparr>pool_ex := set_worker i (Running t) ex, started := started p @ [t]\<rparr>)"
| run_task: "i < length (workers (pool_ex p)) \<Longrightarrow> workers (pool_ex p) ! i = Running t \<Longrightarrow>
     worker_step p (p\<lparr>pool_ex := set_worker i Waiting (pool_ex p), finished := finished p @ [t]\<rparr>)"
| exit_loop: "i < length (workers (pool_ex p)) \<Longrightarrow> workers (pool_ex p) ! i = Waiting \<Longrightarrow>
     worker_wake (pool_ex p) = Some (Exited, ex) \<Longrightarrow>
     worker_step p (p\<lparr>pool_ex := set_worker i Exited ex\<rparr>)"

inductive pool_step :: "'task pool \<Rightarrow> 'task pool \<Rightarrow> bool" where
  accept: "submit t (pool_ex p) = (Inr (), ex) \<Longrightarrow>
     pool_step p (p\<lparr>pool_ex := ex, accepted := accepted p @ [t]\<rparr>)"
| reject: "submit t (pool_ex p) = (Inl e, ex) \<Longrightarrow> pool_step p (p\<lparr>pool_ex := ex\<rparr>)"
| stop: "pool_step p (p\<lparr>pool_ex := executor_stop (pool_ex p)\<rparr>)"
| work: "worker_step p q \<Longrightarrow> pool_step p q"

definition pool_init :: "nat \<Rightarrow> nat \<Rightarrow> 'task pool" where
  "pool_init n c = \<lparr>pool_ex = make_executor n c, accepted = [], started = [], finished = []\<rparr>"

inductive pool_reachable :: "nat \<Rightarrow> nat \<Rightarrow> 'task pool \<Rightarrow> bool" for n c where
  start: "pool_reachable n c (pool_init n c)"
| step: "pool_reachable n c p \<Longrightarrow> pool_step p q \<Longrightarrow> pool_reachable n c q"

inductive_cases pool_stepE: "pool_step p q"
inductive_cases worker_stepE: "worker_step p q"

fun task_of :: "'task worker \<Rightarrow> 'task multiset" where
  "task_of (Running t) = {#t#}"
| "task_of _ = {#}"

definition running :: "'task executor \<Rightarrow> 'task multiset" where
  "running ex = sum_list (map task_of (workers ex))"

definition pool_inv :: "nat \<Rightarrow> nat \<Rightarrow> 'task pool \<Rightarrow> bool" where
  "pool_inv n c p \<longleftrightarrow>
     accepted p = started p @ tasks (pool_ex p) \<and>
     mset (started p) = mset (finished p) + running (pool_ex p) \<and>
     max_pending_tasks (pool_ex p) = max 1 c \<and>
     length (tasks (pool_ex p)) \<le> max 1 c \<and>
     length (workers (pool_ex p)) = max 1 n \<and>
     (Exited \<in> set (workers (pool_ex p)) \<longrightarrow> stopping (pool_ex p) \<and> tasks (pool_ex p) = [])"

lemma running_set_worker:
  assumes "i < length (workers ex)"
  shows "running (set_worker i w ex) + task_of (workers ex ! i) = running ex + task_of w"
proof -
  let ?ws = "workers ex"
  have "?ws = take i ?ws @ ?ws ! i # drop (Suc i) ?ws" using assms by (rule id_take_nth_drop)
  then have "running ex = sum_list (map task_of (take i ?ws @ ?ws ! i # drop (Suc i) ?ws))"
    by (simp add: running_def)
  moreover have "running (set_worker i w ex) = sum_list (map task_of (take i ?ws @ w # drop (Suc i) ?ws))"
    using assms by (simp add: running_def set_worker_def upd_conv_take_nth_drop)
  ultimately show ?thesis by (simp add: ac_simps)
qed

lemma worker_wake_Running:
  "worker_wake ex = Some (Running t, ex') \<longleftrightarrow>
     (\<exists>ts. tasks ex = t # ts \<and> ex' = ex\<lparr>tasks := ts\<rparr>)"
  by (cases "tasks ex") (auto simp: worker_wake_def)

lemma worker_wake_Exited:
  "worker_wake ex = Some (Exited, ex') \<longleftrightarrow> stopping ex \<and> tasks ex = [] \<and> ex' = ex"
  by (auto simp: worker_wake_def)

lemma set_worker_simps [simp]:
  "tasks (set_worker i w ex) = tasks ex" "stopping (set_worker i w ex) = stopping ex"
  "max_pending_tasks (set_worker i w ex) = max_pending_tasks ex"
  "workers (set_worker i w ex) = (workers ex)[i := w]"
  by (simp_all add: set_worker_def)

lemma running_cong: "workers ex = workers ex' \<Longrightarrow> running ex = running ex'"
  by (simp add: running_def)

lemma pool_inv_init: "pool_inv n c (pool_init n c)"
proof -
  have "sum_list (map task_of (replicate k Waiting)) = {#}" for k :: nat
    by (induction k) auto
  then show ?thesis by (auto simp: pool_inv_def pool_init_def make_executor_def running_def Let_def max_def)
qed

lemma pool_inv_worker_step: "worker_step p q \<Longrightarrow> pool_inv n c p \<Longrightarrow> pool_inv n c q"
proof (induction rule: worker_step.induct)
  case (take_task i p t ex)
  then obtain ts where ts: "tasks (pool_ex p) = t # ts" "ex = (pool_ex p)\<lparr>tasks := ts\<rparr>"
    by (auto simp: worker_wake_Running)
  have i: "i < length (workers ex)" using take_task.hyps(1) ts(2) by simp
  have "running (set_worker i (Running t) ex) = running (pool_ex p) + {#t#}"
    using running_set_worker [OF i, of "Running t"] take_task.hyps(2) ts(2)
      running_cong [of ex "pool_ex p"] by simp
  with take_task ts show ?case
    by (auto simp: pool_inv_def dest: set_update_subset_insert [THEN subsetD])
next
  case (run_task i p t)
  have "running (set_worker i Waiting (pool_ex p)) + {#t#} = running (pool_ex p)"
    using running_set_worker [OF run_task.hyps(1), of Waiting] run_task.hyps(2) by simp
  with run_task show ?case
    by (auto simp: pool_inv_def dest: set_update_subset_insert [THEN subsetD])
next
  case (exit_loop i p ex)
  have "running (set_worker i Exited (pool_ex p)) = running (pool_ex p)"
    using running_set_worker [OF exit_loop.hyps(1), of Exited] exit_loop.hyps(2) by simp
  with exit_loop show ?case
    by (auto simp: pool_inv_def worker_wake_Exited)
qed

lemma submit_Inr_iff:
  "submit t ex = (Inr (), ex') \<longleftrightarrow>
     \<not> stopping ex \<and> length (tasks ex) < max_pending_tasks ex \<and> ex' = ex\<lparr>tasks := tasks ex @ [t]\<rparr>"
  by (auto simp: submit_def)

lemma submit_Inl_same: "submit t ex = (Inl e, ex') \<Longrightarrow> ex' = ex"
  by (auto simp: submit_def split: if_splits)

lemma pool_inv_step: "pool_step p q \<Longrightarrow> pool_inv n c p \<Longrightarrow> pool_inv n c q"
proof (induction rule: pool_step.induct)
  case (accept t p ex)
  then show ?case
    by (auto simp: pool_inv_def submit_Inr_iff running_def)
next
  case (reject t p e ex)
  then show ?case by (auto dest: submit_Inl_same)
next
  case (stop p)
  then show ?case by (auto simp: pool_inv_def executor_stop_def running_def)
next
  case (work p q)
  then show ?case by (blast intro: pool_inv_worker_step)
qed

lemma pool_reachable_inv: "pool_reachable n c p \<Longrightarrow> pool_inv n c p"
  by (induction rule: pool_reachable.induct) (auto intro: pool_inv_init pool_inv_step)

section \<open>Shutdown\<close>

text \<open>
  The work left in a pool: a queued task costs taking and finishing, a running one finishing,
  and every live worker its exit.
\<close>

fun worker_cost :: "'task worker \<Rightarrow> nat" where
  "worker_cost Waiting = 1"
| "worker_cost (Running _) = 2"
| "worker_cost Exited = 0"

definition pool_cost :: "'task pool \<Rightarrow> nat" where
  "pool_cost p = 2 * length (tasks (pool_ex p)) + sum_list (map worker_cost (workers (pool_ex p)))"

lemma worker_cost_update:
  assumes "i < length ws"
  shows "sum_list (map worker_cost (ws[i := w])) + worker_cost (ws ! i) =
         sum_list (map worker_cost ws) + worker_cost w"
proof -
  have "ws = take i ws @ ws ! i # drop (Suc i) ws" using assms by (rule id_take_nth_drop)
  then have "sum_list (map worker_cost ws) =
      sum_list (map worker_cost (take i ws @ ws ! i # drop (Suc i) ws))" by simp
  with assms show ?thesis by (simp add: upd_conv_take_nth_drop)
qed

lemma worker_step_cost: "worker_step p q \<Longrightarrow> pool_cost q < pool_cost p"
proof (induction rule: worker_step.induct)
  case (take_task i p t ex)
  then show ?case
    using worker_cost_update [of i "workers (pool_ex p)" "Running t"]
    by (auto simp: pool_cost_def worker_wake_Running)
next
  case (run_task i p t)
  then show ?case
    using worker_cost_update [of i "workers (pool_ex p)" Waiting] by (auto simp: pool_cost_def)
next
  case (exit_loop i p ex)
  then show ?case
    using worker_cost_update [of i "workers (pool_ex p)" Exited]
    by (auto simp: pool_cost_def worker_wake_Exited)
qed

lemma worker_step_stopping: "worker_step p q \<Longrightarrow> stopping (pool_ex q) = stopping (pool_ex p)"
  by (induction rule: worker_step.induct) (auto simp: worker_wake_Running worker_wake_Exited)

lemma worker_step_enabled:
  assumes "stopping (pool_ex p)" and "\<not> list_all ((=) Exited) (workers (pool_ex p))"
  shows "\<exists>q. worker_step p q"
proof -
  from assms(2) obtain i where i: "i < length (workers (pool_ex p))"
    and live: "workers (pool_ex p) ! i \<noteq> Exited"
    by (auto simp: list_all_length)
  consider (run) t where "workers (pool_ex p) ! i = Running t"
    | (wait) "workers (pool_ex p) ! i = Waiting" using live by (cases "workers (pool_ex p) ! i") auto
  then show ?thesis
  proof cases
    case run
    with i show ?thesis by (blast intro: worker_step.run_task)
  next
    case wait
    show ?thesis
    proof (cases "tasks (pool_ex p)")
      case Nil
      with assms(1) have "worker_wake (pool_ex p) = Some (Exited, pool_ex p)"
        by (simp add: worker_wake_Exited)
      with i wait show ?thesis by (blast intro: worker_step.exit_loop)
    next
      case (Cons t ts)
      then have "worker_wake (pool_ex p) = Some (Running t, (pool_ex p)\<lparr>tasks := ts\<rparr>)"
        by (simp add: worker_wake_Running)
      with i wait show ?thesis by (blast intro: worker_step.take_task)
    qed
  qed
qed

lemma worker_steps_reachable:
  "worker_step\<^sup>*\<^sup>* p q \<Longrightarrow> pool_reachable n c p \<Longrightarrow> pool_reachable n c q"
  by (induction rule: rtranclp_induct) (auto intro: pool_reachable.step pool_step.work)

lemma stopping_pool_drains:
  assumes "stopping (pool_ex p)"
  shows "\<exists>q. worker_step\<^sup>*\<^sup>* p q \<and> list_all ((=) Exited) (workers (pool_ex q))"
  using assms
proof (induction "pool_cost p" arbitrary: p rule: less_induct)
  case less
  show ?case
  proof (cases "list_all ((=) Exited) (workers (pool_ex p))")
    case True
    then show ?thesis by blast
  next
    case False
    then obtain q where q: "worker_step p q" using worker_step_enabled less.prems by blast
    with less.hyps [OF worker_step_cost [OF q]] less.prems
    obtain r where "worker_step\<^sup>*\<^sup>* q r" "list_all ((=) Exited) (workers (pool_ex r))"
      by (auto simp: worker_step_stopping)
    with q show ?thesis by (blast intro: converse_rtranclp_into_rtranclp)
  qed
qed

lemma running_all_exited: "list_all ((=) Exited) (workers ex) \<Longrightarrow> running ex = {#}"
proof -
  have "list_all ((=) Exited) ws \<Longrightarrow> sum_list (map task_of ws) = {#}" for ws :: "'a worker list"
    by (induction ws) auto
  then show "list_all ((=) Exited) (workers ex) \<Longrightarrow> running ex = {#}" by (simp add: running_def)
qed

lemma pool_inv_drained:
  assumes "pool_inv n c p" and "list_all ((=) Exited) (workers (pool_ex p))"
  shows "tasks (pool_ex p) = [] \<and> started p = accepted p \<and> mset (finished p) = mset (accepted p)"
proof -
  from assms have "workers (pool_ex p) \<noteq> []" by (auto simp: pool_inv_def)
  with assms(2) have "Exited \<in> set (workers (pool_ex p))"
    by (cases "workers (pool_ex p)") auto
  with assms running_all_exited [OF assms(2)] show ?thesis by (auto simp: pool_inv_def)
qed

section \<open>Properties\<close>

text \<open>
  C23. In every state the pool of \<^verbatim>\<open>BoundedExecutor\<close> can reach under any interleaving of
  submitters, workers and \<open>stop\<close>: the tasks taken by workers followed by the queue are exactly
  the accepted tasks in the order of submission (none lost, duplicated or reordered); every
  started task has finished or is held by exactly one worker; the queue never exceeds the
  configured bound; and a worker has left its loop only when the pool is stopping and drained.
\<close>

theorem executor_fifo_exactly_once:
  assumes "pool_reachable n c p"
  shows "accepted p = started p @ tasks (pool_ex p)
    \<and> mset (started p) = mset (finished p) + running (pool_ex p)
    \<and> length (tasks (pool_ex p)) \<le> max 1 c
    \<and> length (workers (pool_ex p)) = max 1 n
    \<and> (Exited \<in> set (workers (pool_ex p)) \<longrightarrow> stopping (pool_ex p) \<and> tasks (pool_ex p) = [])"
  using pool_reachable_inv [OF assms] by (simp add: pool_inv_def)

definition demo_pool1 :: "nat pool" where
  "demo_pool1 = (pool_init 0 2)\<lparr>pool_ex := snd (submit 7 (make_executor 0 2)), accepted := [7]\<rparr>"

definition demo_pool2 :: "nat pool" where
  "demo_pool2 = demo_pool1
     \<lparr>pool_ex := set_worker 0 (Running 7) ((pool_ex demo_pool1)\<lparr>tasks := []\<rparr>), started := [7]\<rparr>"

lemmas demo_pool_defs = demo_pool1_def demo_pool2_def pool_init_def make_executor_def submit_def
  set_worker_def

lemma demo_pool1_reachable: "pool_reachable 0 2 demo_pool1"
proof -
  have "pool_step (pool_init 0 2) ((pool_init 0 2)\<lparr>pool_ex := snd (submit 7 (make_executor 0 2)),
      accepted := accepted (pool_init 0 2) @ [7::nat]\<rparr>)"
    by (rule pool_step.accept [of 7]) (simp add: demo_pool_defs)
  then show ?thesis
    by (auto intro!: pool_reachable.step [OF pool_reachable.start] simp: demo_pool1_def pool_init_def)
qed

lemma demo_pool2_reachable: "pool_reachable 0 2 demo_pool2"
proof -
  have "worker_step demo_pool1 (demo_pool1\<lparr>pool_ex := set_worker 0 (Running 7)
      ((pool_ex demo_pool1)\<lparr>tasks := []\<rparr>), started := started demo_pool1 @ [7]\<rparr>)"
    by (rule worker_step.take_task) (simp_all add: demo_pool_defs worker_wake_def)
  moreover have "started demo_pool1 = []" by (simp add: demo_pool_defs)
  ultimately have "worker_step demo_pool1 demo_pool2" by (simp add: demo_pool2_def)
  with demo_pool1_reachable show ?thesis by (blast intro: pool_reachable.step pool_step.work)
qed

theorem executor_fifo_exactly_once_witness:
  "pool_reachable 0 2 demo_pool2 \<and> accepted demo_pool2 = [7] \<and>
   accepted demo_pool2 = started demo_pool2 @ tasks (pool_ex demo_pool2)"
  using executor_fifo_exactly_once [OF demo_pool2_reachable] demo_pool2_reachable
  by (simp add: demo_pool_defs)

text \<open>
  C24. Shutdown completes and drops nothing: from every reachable state in which \<open>stop\<close> has set
  the flag the workers cannot run forever (each of their steps reduces the work left), some worker
  can always move until all have exited, and then the joins succeed with every accepted task
  finished, started in the order of submission, and every later submission refused.
\<close>

theorem executor_stop_drains:
  assumes "pool_reachable n c p" and "stopping (pool_ex p)"
  shows "(\<forall>q. worker_step p q \<longrightarrow> pool_cost q < pool_cost p)
    \<and> (executor_join (pool_ex p) = None \<longrightarrow> (\<exists>q. worker_step p q))
    \<and> (\<exists>q ex. worker_step\<^sup>*\<^sup>* p q \<and> executor_join (pool_ex q) = Some ex)
    \<and> (\<forall>q ex. worker_step\<^sup>*\<^sup>* p q \<longrightarrow> executor_join (pool_ex q) = Some ex \<longrightarrow>
         tasks ex = [] \<and> workers ex = [] \<and> started q = accepted q
         \<and> mset (finished q) = mset (accepted q)
         \<and> (\<forall>t. submit t ex = (Inl ''Executor is stopping'', ex)))"
proof (intro conjI allI impI)
  fix q ex
  assume q: "worker_step\<^sup>*\<^sup>* p q" and j: "executor_join (pool_ex q) = Some ex"
  then have all: "list_all ((=) Exited) (workers (pool_ex q))"
    and ex: "ex = (pool_ex q)\<lparr>workers := []\<rparr>"
    by (auto simp: executor_join_def split: if_splits)
  have "stopping (pool_ex q) = stopping (pool_ex p)"
    using q by (induction rule: rtranclp_induct) (auto simp: worker_step_stopping)
  moreover note inv = pool_inv_drained [OF pool_reachable_inv [OF worker_steps_reachable [OF q assms(1)]] all]
  ultimately show "tasks ex = []" "workers ex = []" "started q = accepted q"
    "mset (finished q) = mset (accepted q)" "submit t ex = (Inl ''Executor is stopping'', ex)" for t
    using ex assms(2) by (simp_all add: submit_def)
next
  show "\<exists>q ex. worker_step\<^sup>*\<^sup>* p q \<and> executor_join (pool_ex q) = Some ex"
    using stopping_pool_drains [OF assms(2)] by (auto simp: executor_join_def)
next
  assume "executor_join (pool_ex p) = None"
  then show "\<exists>q. worker_step p q"
    by (intro worker_step_enabled [OF assms(2)]) (auto simp: executor_join_def split: if_splits)
next
  fix q assume "worker_step p q"
  then show "pool_cost q < pool_cost p" by (rule worker_step_cost)
qed

definition demo_pool3 :: "nat pool" where
  "demo_pool3 = demo_pool2\<lparr>pool_ex := executor_stop (pool_ex demo_pool2)\<rparr>"

lemma demo_pool3_reachable: "pool_reachable 0 2 demo_pool3"
  unfolding demo_pool3_def by (rule pool_reachable.step [OF demo_pool2_reachable pool_step.stop])

theorem executor_stop_drains_witness:
  "pool_reachable 0 2 demo_pool3 \<and> stopping (pool_ex demo_pool3) \<and>
   (\<exists>q ex. worker_step\<^sup>*\<^sup>* demo_pool3 q \<and> executor_join (pool_ex q) = Some ex)"
proof -
  have "stopping (pool_ex demo_pool3)"
    by (simp add: demo_pool3_def executor_stop_def)
  with executor_stop_drains [OF demo_pool3_reachable] demo_pool3_reachable show ?thesis by blast
qed

end
