(* ===== verification/Auth.thy ===== *)
theory Auth
  imports Api_Types
begin

text \<open>
  \<^verbatim>\<open>src/server/auth.hpp\<close>: the API key check. The header is compared byte by byte, all
  differences or-ed into one \<^verbatim>\<open>unsigned char\<close>, so that the running time does not depend on the
  position of the first difference. The loop, the padding byte \<open>0xFF\<close> and the length flag are
  modelled at 8 bits; \<open>check_auth_correct\<close> shows that the accumulated byte is zero exactly for
  the header \<open>Bearer <key>\<close>.
\<close>

unbundle bit_operations_syntax

definition kBearerPrefix :: string where
  "kBearerPrefix = ''Bearer ''"

definition byte_of :: "char \<Rightarrow> 8 word" where
  "byte_of c = of_char c"

definition auth_byte :: "string \<Rightarrow> nat \<Rightarrow> 8 word" where
  "auth_byte s i = (if i < length s then byte_of (s ! i) else 0xFF)"

fun auth_diff_loop :: "string \<Rightarrow> string \<Rightarrow> nat \<Rightarrow> nat list \<Rightarrow> 8 word \<Rightarrow> 8 word" where
  "auth_diff_loop auth_header expected key_start_offset [] diff = diff"
| "auth_diff_loop auth_header expected key_start_offset (i # is) diff =
     auth_diff_loop auth_header expected key_start_offset is
       (diff OR (auth_byte auth_header (key_start_offset + i) XOR auth_byte expected i))"

definition check_auth :: "string option \<Rightarrow> string \<Rightarrow> api_error option" where
  "check_auth api_key auth_header =
     (case api_key of
        None \<Rightarrow> None
      | Some expected \<Rightarrow>
          let key_start_offset = length kBearerPrefix;
              expected_total = key_start_offset + length expected;
              compare_len = max (length expected) 1;
              diff0 = (if length auth_header < key_start_offset \<or>
                          take (length kBearerPrefix) auth_header \<noteq> kBearerPrefix
                       then 1 else 0);
              length_mismatch = (if length auth_header \<noteq> expected_total then 1 else 0);
              diff = auth_diff_loop auth_header expected key_start_offset [0..<compare_len] diff0
                       OR length_mismatch
          in if diff \<noteq> 0 then Some (auth_error ''Invalid API key'' (Some ''invalid_api_key''))
             else None)"

lemma byte_of_inject [simp]: "byte_of c = byte_of d \<longleftrightarrow> c = d"
proof
  assume "byte_of c = byte_of d"
  then have "unat (of_char c :: 8 word) = unat (of_char d :: 8 word)" by (simp add: byte_of_def)
  moreover have "unat (of_char c :: 8 word) = of_char c" for c
  proof -
    have "unat (of_nat (of_char c) :: 8 word) = of_char c mod 2 ^ 8"
      by (simp only: unsigned_of_nat take_bit_eq_mod) simp
    then show ?thesis by (simp add: of_nat_of_char)
  qed
  ultimately show "c = d" by simp
qed simp

lemma word_xor_eq_0_iff: "(a :: 'a::len word) XOR b = 0 \<longleftrightarrow> a = b"
  by (auto simp: bit_eq_iff bit_xor_iff)

lemma auth_diff_loop_eq_0_iff:
  "auth_diff_loop h e k is d = 0 \<longleftrightarrow>
     d = 0 \<and> (\<forall>i \<in> set is. auth_byte h (k + i) = auth_byte e i)"
  by (induction "is" arbitrary: d) (auto simp: or_eq_0_iff word_xor_eq_0_iff)

lemma header_split_iff:
  "take (length p) h = p \<and> length h = length p + length k \<and> (\<forall>i < length k. h ! (length p + i) = k ! i)
     \<longleftrightarrow> h = p @ k"
proof
  assume a: "take (length p) h = p \<and> length h = length p + length k \<and> (\<forall>i < length k. h ! (length p + i) = k ! i)"
  then have "drop (length p) h = k" by (intro nth_equalityI) auto
  with a show "h = p @ k" by (metis append_take_drop_id)
qed auto

lemma check_auth_Some:
  "check_auth (Some key) auth_header =
     (if auth_header = kBearerPrefix @ key then None
      else Some (auth_error ''Invalid API key'' (Some ''invalid_api_key'')))"
proof -
  let ?n = "length kBearerPrefix"
  let ?d0 = "(if length auth_header < ?n \<or> take ?n auth_header \<noteq> kBearerPrefix then 1 else 0) :: 8 word"
  let ?lm = "(if length auth_header \<noteq> ?n + length key then 1 else 0) :: 8 word"
  let ?diff = "auth_diff_loop auth_header key ?n [0..<max (length key) 1] ?d0 OR ?lm"
  have "?diff = 0 \<longleftrightarrow> auth_header = kBearerPrefix @ key"
    unfolding or_eq_0_iff auth_diff_loop_eq_0_iff header_split_iff [symmetric]
    by (auto simp: auth_byte_def)
  then show ?thesis by (simp add: check_auth_def Let_def)
qed

text \<open>
  C35. The accumulated difference is zero exactly when the whole header is \<open>Bearer \<close> followed by
  the configured key: no other header is accepted and the right one is never refused, whatever
  the lengths; without a configured key every request passes.
\<close>

theorem check_auth_correct:
  "check_auth api_key auth_header =
     (case api_key of
        None \<Rightarrow> None
      | Some key \<Rightarrow> if auth_header = kBearerPrefix @ key then None
                    else Some (auth_error ''Invalid API key'' (Some ''invalid_api_key'')))"
  by (cases api_key) (simp_all add: check_auth_Some, simp add: check_auth_def)

end
