(* ===== verification/Streaming.thy ===== *)
theory Streaming
  imports Api_Types
begin

text \<open>
  \<^verbatim>\<open>src/server/streaming.cpp\<close>: the hand-written serialiser of streaming chunks.

  The code avoids \<^verbatim>\<open>nlohmann::json\<close> on this path and writes the frame directly. The model has
  the escaping loop and the frame builder; the reference definitions are a decoder of JSON
  string literals (\<open>json_unescape\<close>), a generic serialiser of JSON values (\<open>serialize\<close>) and a
  reader of event streams (\<open>sse_events\<close>). The lemmas show that escaping is inverted by the
  decoder and leaves no byte below 0x20, that a chunk is the serialisation of the chunk object,
  and that a stream of frames is read back frame by frame.
\<close>

definition dquote :: char where "dquote = CHR 0x22"
definition backslash :: char where "backslash = CHR 0x5C"

definition hex_digit :: "nat \<Rightarrow> char" where
  "hex_digit n = ''0123456789abcdef'' ! n"

definition json_escape_char :: "char \<Rightarrow> string" where
  "json_escape_char c =
     (if c = dquote then [backslash, dquote]
      else if c = backslash then [backslash, backslash]
      else if c = CHR 0x08 then [backslash, CHR ''b'']
      else if c = CHR 0x0C then [backslash, CHR ''f'']
      else if c = CHR 0x0A then [backslash, CHR ''n'']
      else if c = CHR 0x0D then [backslash, CHR ''r'']
      else if c = CHR 0x09 then [backslash, CHR ''t'']
      else if (of_char c :: nat) < 0x20
           then [backslash, CHR ''u'', CHR ''0'', CHR ''0'',
                 hex_digit (of_char c div 16 mod 16), hex_digit (of_char c mod 16)]
      else [c])"

fun append_json_escaped :: "string \<Rightarrow> string \<Rightarrow> string" where
  "append_json_escaped out [] = out"
| "append_json_escaped out (c # sv) = append_json_escaped (out @ json_escape_char c) sv"

definition make_chunk_impl ::
  "string \<Rightarrow> int \<Rightarrow> string \<Rightarrow> string option \<Rightarrow> bool \<Rightarrow> string option \<Rightarrow> string" where
  \<open>make_chunk_impl completion_id created model_id content include_role finish_reason =
     (let result = ''data: {"id":"'';
          result = append_json_escaped result completion_id;
          result = result @ ''","object":"chat.completion.chunk","created":'';
          result = result @ string_of_int created;
          result = result @ '',"model":"'';
          result = append_json_escaped result model_id;
          result = result @ ''","choices":[{"index":0,"delta":{'';
          has_delta_field = include_role;
          result = (if include_role then result @ ''"role":"assistant"'' else result);
          result = (case content of
                      None \<Rightarrow> result
                    | Some text \<Rightarrow>
                        append_json_escaped
                          ((if has_delta_field then result @ '','' else result) @ ''"content":"'') text
                        @ ''"'');
          result = result @ ''},"finish_reason":'';
          result = (case finish_reason of
                      None \<Rightarrow> result @ ''null''
                    | Some reason \<Rightarrow> append_json_escaped (result @ ''"'') reason @ ''"'');
          result = result @ ''}]}''
      in result @ [newline, newline])\<close>

definition make_sse_data :: "json_api \<Rightarrow> json \<Rightarrow> string" where
  "make_sse_data api payload = ''data: '' @ json_dump api payload @ [newline, newline]"

definition make_sse_done :: string where
  "make_sse_done = ''data: [DONE]'' @ [newline, newline]"

definition make_first_streaming_chunk ::
  "string \<Rightarrow> int \<Rightarrow> string \<Rightarrow> string option \<Rightarrow> string option \<Rightarrow> string" where
  "make_first_streaming_chunk completion_id created model_id content finish_reason =
     make_chunk_impl completion_id created model_id content True finish_reason"

definition make_streaming_chunk ::
  "string \<Rightarrow> int \<Rightarrow> string \<Rightarrow> string option \<Rightarrow> string option \<Rightarrow> string" where
  "make_streaming_chunk completion_id created model_id content finish_reason =
     make_chunk_impl completion_id created model_id content False finish_reason"

section \<open>Reference definitions\<close>

definition hex_value :: "char \<Rightarrow> nat option" where
  "hex_value c =
     (let n = of_char c :: nat in
      if 48 \<le> n \<and> n \<le> 57 then Some (n - 48)
      else if 97 \<le> n \<and> n \<le> 102 then Some (n - 87)
      else if 65 \<le> n \<and> n \<le> 70 then Some (n - 55)
      else None)"

text \<open>
  The body of a JSON string literal (RFC 8259, section 7), one byte per character; of the
  \<open>\u\<close> escapes, those of ASCII code points.
\<close>

definition simple_escape :: "char \<Rightarrow> char option" where
  "simple_escape c =
     (if c = dquote \<or> c = backslash \<or> c = CHR ''/'' then Some c
      else if c = CHR ''b'' then Some (CHR 0x08)
      else if c = CHR ''f'' then Some (CHR 0x0C)
      else if c = CHR ''n'' then Some (CHR 0x0A)
      else if c = CHR ''r'' then Some (CHR 0x0D)
      else if c = CHR ''t'' then Some (CHR 0x09)
      else None)"

definition unicode_escape :: "char \<Rightarrow> char \<Rightarrow> char \<Rightarrow> char \<Rightarrow> char option" where
  "unicode_escape a b c d =
     (case (hex_value a, hex_value b, hex_value c, hex_value d) of
        (Some w, Some x, Some y, Some z) \<Rightarrow>
          let n = ((w * 16 + x) * 16 + y) * 16 + z
          in if n < 128 then Some (char_of n) else None
      | _ \<Rightarrow> None)"

fun json_unescape :: "string \<Rightarrow> string option" where
  "json_unescape [] = Some []"
| "json_unescape (c # s) =
     (if c = backslash then
        (case s of
           [] \<Rightarrow> None
         | e # s1 \<Rightarrow>
             if e = CHR ''u'' then
               (case s1 of
                  h1 # h2 # h3 # h4 # s2 \<Rightarrow>
                    (case unicode_escape h1 h2 h3 h4 of
                       None \<Rightarrow> None
                     | Some x \<Rightarrow> map_option ((#) x) (json_unescape s2))
                | _ \<Rightarrow> None)
             else (case simple_escape e of
                     None \<Rightarrow> None
                   | Some x \<Rightarrow> map_option ((#) x) (json_unescape s1)))
      else if c = dquote \<or> (of_char c :: nat) < 0x20 then None
      else map_option ((#) c) (json_unescape s))"

text \<open>A JSON value as compact text, members in list order; doubles are printed by a parameter.\<close>

definition json_string :: "string \<Rightarrow> string" where
  "json_string s = [dquote] @ concat (map json_escape_char s) @ [dquote]"

fun intersperse_comma :: "string list \<Rightarrow> string" where
  "intersperse_comma [] = []"
| "intersperse_comma [x] = x"
| "intersperse_comma (x # y # ys) = x @ '','' @ intersperse_comma (y # ys)"

fun serialize :: "(64 word \<Rightarrow> string) \<Rightarrow> json \<Rightarrow> string" where
  "serialize dbl JNull = ''null''"
| "serialize dbl (JBool b) = (if b then ''true'' else ''false'')"
| "serialize dbl (JInt i) = string_of_int i"
| "serialize dbl (JUInt n) = string_of_nat n"
| "serialize dbl (JFloat d) = dbl d"
| "serialize dbl (JString s) = json_string s"
| "serialize dbl (JArray js) = ''['' @ intersperse_comma (map (serialize dbl) js) @ '']''"
| "serialize dbl (JObject kvs) =
     ''{'' @ intersperse_comma (map (\<lambda>(k, v). json_string k @ '':'' @ serialize dbl v) kvs) @ ''}''"

definition chunk_json ::
  "string \<Rightarrow> int \<Rightarrow> string \<Rightarrow> string option \<Rightarrow> bool \<Rightarrow> string option \<Rightarrow> json" where
  "chunk_json completion_id created model_id content include_role finish_reason =
     JObject
       [(''id'', JString completion_id), (''object'', JString ''chat.completion.chunk''),
        (''created'', JInt created), (''model'', JString model_id),
        (''choices'', JArray
          [JObject
            [(''index'', JInt 0),
             (''delta'', JObject
               ((if include_role then [(''role'', JString ''assistant'')] else []) @
                (case content of None \<Rightarrow> [] | Some t \<Rightarrow> [(''content'', JString t)]))),
             (''finish_reason'', (case finish_reason of None \<Rightarrow> JNull | Some r \<Rightarrow> JString r))]])]"

text \<open>
  An event-stream reader: an event ends at a blank line, its data is what follows the six
  characters \<open>data: \<close>.
\<close>

fun sse_events :: "string \<Rightarrow> string \<Rightarrow> string list" where
  "sse_events acc [] = []"
| "sse_events acc [c] = []"
| "sse_events acc (c # d # s) =
     (if c = newline \<and> d = newline then drop 6 acc # sse_events [] s
      else sse_events (acc @ [c]) (d # s))"

definition sse_frame :: "string \<Rightarrow> string" where
  "sse_frame payload = ''data: '' @ payload @ [newline, newline]"

section \<open>Escaping\<close>

lemma append_json_escaped_eq: "append_json_escaped out s = out @ concat (map json_escape_char s)"
  by (induction s arbitrary: out) auto

lemma hex_value_hex_digit: "n < 16 \<Longrightarrow> hex_value (hex_digit n) = Some n"
proof -
  have "\<forall>n \<in> {0..<16}. hex_value (hex_digit n) = Some n"
    by (simp add: hex_value_def hex_digit_def atLeastLessThan_nat_numeral Let_def)
  then show "n < 16 \<Longrightarrow> hex_value (hex_digit n) = Some n" by simp
qed

lemma hex_digit_printable: "n < 16 \<Longrightarrow> (32::nat) \<le> of_char (hex_digit n)"
proof -
  have "\<forall>n \<in> {0..<16}. (32::nat) \<le> of_char (hex_digit n)"
    by (simp add: hex_digit_def atLeastLessThan_nat_numeral)
  then show "n < 16 \<Longrightarrow> (32::nat) \<le> of_char (hex_digit n)" by simp
qed

lemma unicode_escape_control:
  assumes "(of_char c :: nat) < 32"
  shows "unicode_escape (CHR ''0'') (CHR ''0'') (hex_digit (of_char c div 16 mod 16))
           (hex_digit (of_char c mod 16)) = Some c"
proof -
  have "hex_value (CHR ''0'') = Some 0" by (simp add: hex_value_def)
  moreover have "(of_char c div 16 mod 16) * 16 + of_char c mod 16 = (of_char c :: nat)"
    using assms by auto
  ultimately show ?thesis
    using assms by (simp add: unicode_escape_def hex_value_hex_digit Let_def)
qed

lemma json_unescape_escape_char:
  "json_unescape (json_escape_char c @ s) = map_option ((#) c) (json_unescape s)"
proof (cases "(of_char c :: nat) < 32 \<and> c \<notin> {CHR 0x08, CHR 0x0C, CHR 0x0A, CHR 0x0D, CHR 0x09}")
  case True
  then have "c \<noteq> dquote" "c \<noteq> backslash" by (auto simp: dquote_def backslash_def)
  with True show ?thesis by (simp add: json_escape_char_def unicode_escape_control)
next
  case False
  then show ?thesis
    by (auto simp: json_escape_char_def simple_escape_def dquote_def backslash_def)
qed

lemma json_unescape_escape: "json_unescape (concat (map json_escape_char s)) = Some s"
  by (induction s) (simp_all add: json_unescape_escape_char del: json_unescape.simps(2))

definition printable :: "string \<Rightarrow> bool" where
  "printable s \<longleftrightarrow> list_all (\<lambda>c. (32::nat) \<le> of_char c) s"

lemma printable_simps [simp]:
  "printable []" "printable (s @ t) \<longleftrightarrow> printable s \<and> printable t"
  "printable (c # s) \<longleftrightarrow> (32::nat) \<le> of_char c \<and> printable s"
  by (simp_all add: printable_def)

lemma printable_escape_char: "printable (json_escape_char c)"
  by (simp add: json_escape_char_def dquote_def backslash_def hex_digit_printable)

lemma printable_concat: "(\<And>x. x \<in> set xs \<Longrightarrow> printable x) \<Longrightarrow> printable (concat xs)"
  by (induction xs) simp_all

lemma printable_escape: "printable (concat (map json_escape_char s))"
  by (rule printable_concat) (auto simp: printable_escape_char)

lemma printable_json_string: "printable (json_string s)"
  by (simp add: json_string_def printable_escape dquote_def)

lemma printable_string_of_nat: "printable (string_of_nat n)"
  using string_of_nat_digits [of n] by (auto simp: printable_def is_digit_char_def list_all_iff)

lemma printable_string_of_int: "printable (string_of_int i)"
  by (simp add: string_of_int_def printable_string_of_nat)

lemma printable_no_newline: "printable s \<Longrightarrow> newline \<notin> set s"
  by (auto simp: printable_def list_all_iff newline_def)

section \<open>Chunks\<close>

lemma string_of_int_0: "string_of_int 0 = ''0''"
  by code_simp

lemma make_chunk_impl_serialize:
  "make_chunk_impl cid created mid content include_role reason =
     sse_frame (serialize dbl (chunk_json cid created mid content include_role reason))"
  by (cases content; cases reason)
    (simp_all add: make_chunk_impl_def sse_frame_def chunk_json_def append_json_escaped_eq
      json_string_def dquote_def Let_def json_escape_char_def backslash_def string_of_int_0)

lemma printable_chunk_json:
  "printable (serialize dbl (chunk_json cid created mid content include_role reason))"
  by (cases content; cases reason)
    (simp_all add: chunk_json_def printable_json_string printable_string_of_int)

section \<open>Event streams\<close>

lemma sse_events_frame:
  "newline \<notin> set p \<Longrightarrow>
     sse_events acc (p @ newline # newline # s) = drop 6 (acc @ p) # sse_events [] s"
proof (induction p arbitrary: acc)
  case Nil
  then show ?case by simp
next
  case (Cons c p)
  obtain d t where dt: "p @ newline # newline # s = d # t" by (cases p) auto
  from Cons.prems have "sse_events acc ((c # p) @ newline # newline # s)
      = sse_events (acc @ [c]) (p @ newline # newline # s)"
    by (auto simp: dt)
  also have "\<dots> = drop 6 (acc @ c # p) # sse_events [] s"
    using Cons by (simp del: drop_append)
  finally show ?case .
qed

lemma sse_events_frames:
  "(\<And>p. p \<in> set ps \<Longrightarrow> newline \<notin> set p) \<Longrightarrow>
     sse_events [] (concat (map sse_frame ps) @ s) = ps @ sse_events [] s"
proof (induction ps)
  case Nil
  then show ?case by simp
next
  case (Cons p ps)
  have "newline \<notin> set (''data: '' @ p)" using Cons.prems by (simp add: newline_def)
  then have "sse_events [] ((''data: '' @ p) @ newline # newline # concat (map sse_frame ps) @ s)
      = p # sse_events [] (concat (map sse_frame ps) @ s)"
    by (subst sse_events_frame) simp_all
  then have "sse_events [] (concat (map sse_frame (p # ps)) @ s)
      = p # sse_events [] (concat (map sse_frame ps) @ s)"
    by (simp only: sse_frame_def list.map concat.simps append_assoc append_Cons append_Nil)
  with Cons show ?case by simp
qed

section \<open>Properties\<close>

text \<open>
  C31. The escaping loop loses nothing: decoding the escaped text as the body of a JSON string
  literal gives back exactly the bytes that were appended, for every byte string.
\<close>

theorem append_json_escaped_roundtrip:
  "\<exists>body. append_json_escaped out sv = out @ body \<and> json_unescape body = Some sv"
  by (simp add: append_json_escaped_eq json_unescape_escape)

text \<open>
  The hand-written chunk builder produces the frame of the generic serialisation of the
  chunk object, for every identifier, time stamp, model name, content and finish reason.
\<close>

theorem chunk_is_serialized_object:
  "make_first_streaming_chunk cid created mid content reason =
     sse_frame (serialize dbl (chunk_json cid created mid content True reason)) \<and>
   make_streaming_chunk cid created mid content reason =
     sse_frame (serialize dbl (chunk_json cid created mid content False reason))"
  unfolding make_first_streaming_chunk_def make_streaming_chunk_def
  by (rule conjI) (rule make_chunk_impl_serialize)+

text \<open>
  A stream of chunks terminated by the done marker is read back event by event, in order
  and nothing else, whatever bytes the tokens contain: no content can end an event early or
  start a new one.
\<close>

theorem chunk_stream_reads_back:
  "sse_events [] (concat (map (\<lambda>(content, first, reason).
       make_chunk_impl cid created mid content first reason) chunks) @ make_sse_done) =
   map (\<lambda>(content, first, reason).
       serialize dbl (chunk_json cid created mid content first reason)) chunks @ [''[DONE]'']"
proof -
  let ?p = "\<lambda>(content, first, reason). serialize dbl (chunk_json cid created mid content first reason)"
  have chunks: "concat (map (\<lambda>(content, first, reason).
      make_chunk_impl cid created mid content first reason) chunks) = concat (map sse_frame (map ?p chunks))"
    by (auto simp: make_chunk_impl_serialize [of cid created mid _ _ _ dbl]
        intro!: arg_cong [where f = concat])
  have "newline \<notin> set p" if "p \<in> set (map ?p chunks)" for p
    using that by (auto intro!: printable_no_newline simp: printable_chunk_json)
  moreover have "make_sse_done = concat (map sse_frame [''[DONE]'']) @ []"
    by (simp add: make_sse_done_def sse_frame_def)
  moreover have "sse_events [] (concat (map sse_frame [''[DONE]'']) @ []) = [''[DONE]'']"
    by (subst sse_events_frames) (simp_all add: newline_def)
  ultimately show ?thesis
    unfolding chunks by (subst sse_events_frames) simp_all
qed

end
