(* ===== verification/Api_Json.thy ===== *)
theory Api_Json
  imports Api_Types
begin

text \<open>
  \<^verbatim>\<open>src/server/api_json.cpp\<close> and the message bodies of \<^verbatim>\<open>api_routes.cpp\<close>: the request parsers,
  the response bodies and the translation of runtime errors to API errors.

  Every parser takes the JSON library (\<open>json_api\<close>) and, where it checks the order of the
  messages, the zoo library's role validator as arguments. The loop over the messages threads
  the accepted prefix as \<^verbatim>\<open>request.messages\<close> does. The theorems at the end say what an accepted
  request satisfies, that every refusal is a well-formed 400 error, that a message written by
  the history endpoint is read back unchanged, and how runtime errors map to statuses.
\<close>

section \<open>Shared checks\<close>

definition reject_api_unknown_keys :: "json \<Rightarrow> string \<Rightarrow> string list \<Rightarrow> unit api_result" where
  "reject_api_unknown_keys json context allowed_keys =
     map_error (\<lambda>e. invalid_request_error e (Some context) (Some ''unknown_field''))
       (reject_unknown_keys json context allowed_keys)"

definition parse_body :: "json_api \<Rightarrow> string \<Rightarrow> json api_result" where
  "parse_body api body =
     map_error (\<lambda>what. invalid_request_error (''Invalid JSON body: '' @ what) (Some ''body'') None)
       (json_parse api body)"

definition require :: "'a option \<Rightarrow> string \<Rightarrow> string \<Rightarrow> 'a api_result" where
  "require v message param =
     (case v of None \<Rightarrow> Inl (invalid_request_error message (Some param) None) | Some x \<Rightarrow> Inr x)"

definition guard :: "bool \<Rightarrow> string \<Rightarrow> string \<Rightarrow> unit api_result" where
  "guard ok message param = (if ok then Inr () else Inl (invalid_request_error message (Some param) None))"

section \<open>Messages\<close>

definition parse_role :: "string \<Rightarrow> message_role api_result" where
  "parse_role role =
     (if role = ''system'' then Inr System
      else if role = ''user'' then Inr User
      else if role = ''assistant'' then Inr Assistant
      else if role = ''tool'' then Inr Tool
      else Inl (invalid_request_error (''Unsupported message role: '' @ role) (Some ''messages'')
                  (Some ''invalid_role'')))"

definition parse_tool_call :: "json \<Rightarrow> tool_call api_result" where
  "parse_tool_call json =
     bind_result (reject_api_unknown_keys json ''tool_call'' [''id'', ''type'', ''function'']) (\<lambda>_.
     bind_result (require (string_field ''id'' json)
       ''tool_call.id must be a string'' ''messages.tool_calls'') (\<lambda>call_id_text.
     bind_result (require (string_field ''type'' json)
       ''tool_call.type must be a string'' ''messages.tool_calls'') (\<lambda>type_text.
     bind_result (guard (type_text = ''function'')
       ''tool_call.type must be function'' ''messages.tool_calls'') (\<lambda>_.
     bind_result (require (object_field ''function'' json)
       ''tool_call.function must be an object'' ''messages.tool_calls'') (\<lambda>function.
     bind_result (reject_api_unknown_keys function ''tool_call.function'' [''name'', ''arguments'']) (\<lambda>_.
     bind_result (require (string_field ''name'' function)
       ''tool_call.function.name must be a string'' ''messages.tool_calls'') (\<lambda>name.
     bind_result (require (string_field ''arguments'' function)
       ''tool_call.function.arguments must be a string'' ''messages.tool_calls'') (\<lambda>arguments.
     Inr \<lparr>call_id = call_id_text, call_name = name, call_arguments = arguments\<rparr>))))))))"

text \<open>The loop over \<^verbatim>\<open>tool_calls\<close>.\<close>

definition parse_tool_calls :: "json list \<Rightarrow> tool_call list api_result" where
  "parse_tool_calls items =
     fold_result (\<lambda>item tool_calls. bind_result (parse_tool_call item) (\<lambda>c. Inr (tool_calls @ [c])))
       items []"

text \<open>The construction of the message once role and content are known.\<close>

definition build_message :: "json \<Rightarrow> message_role \<Rightarrow> string \<Rightarrow> chat_message api_result" where
  "build_message json role content =
     (if role = Tool then
        bind_result (guard (jfind ''tool_calls'' json = None)
          ''tool_calls is only valid for assistant messages'' ''messages.tool_calls'') (\<lambda>_.
        bind_result (require (string_field ''tool_call_id'' json)
          ''tool messages must include a string tool_call_id'' ''messages'') (\<lambda>tid.
        Inr (tool_message content tid)))
      else
        bind_result (guard (jfind ''tool_call_id'' json = None)
          ''tool_call_id is only valid for tool messages'' ''messages'') (\<lambda>_.
        case jfind ''tool_calls'' json of
          None \<Rightarrow> Inr \<lparr>msg_role = role, msg_content = content, msg_tool_call_id = [], msg_tool_calls = []\<rparr>
        | Some _ \<Rightarrow>
            bind_result (guard (role = Assistant)
              ''tool_calls is only valid for assistant messages'' ''messages.tool_calls'') (\<lambda>_.
            bind_result (require (array_field ''tool_calls'' json)
              ''tool_calls must be an array'' ''messages.tool_calls'') (\<lambda>items.
            bind_result (parse_tool_calls items) (\<lambda>calls.
            Inr (assistant_with_tool_calls content calls))))))"

definition parse_message ::
  "role_validator \<Rightarrow> json \<Rightarrow> chat_message list \<Rightarrow> (chat_message \<times> chat_message list) api_result" where
  "parse_message vrs json seed =
     bind_result (reject_api_unknown_keys json ''message''
       [''role'', ''content'', ''tool_call_id'', ''tool_calls'']) (\<lambda>_.
     bind_result (require (string_field ''role'' json) ''message.role must be a string'' ''messages'') (\<lambda>role_text.
     bind_result (require (string_field ''content'' json)
       ''message.content must be a string'' ''messages'') (\<lambda>content.
     bind_result (parse_role role_text) (\<lambda>role.
     bind_result (build_message json role content) (\<lambda>message.
     bind_result (map_error (\<lambda>e. invalid_request_error e (Some ''messages'') (Some ''invalid_message_sequence''))
       (validate_message_sequence vrs seed (msg_role message))) (\<lambda>_.
     Inr (message, seed @ [message])))))))"

definition parse_messages ::
  "role_validator \<Rightarrow> json list \<Rightarrow> chat_message list api_result" where
  "parse_messages vrs items =
     fold_result (\<lambda>item seed. bind_result (parse_message vrs item seed) (\<lambda>(_, seed'). Inr seed')) items []"

definition parse_single_message_field ::
  "role_validator \<Rightarrow> json \<Rightarrow> string \<Rightarrow> string \<Rightarrow> chat_message api_result" where
  "parse_single_message_field vrs json field context =
     bind_result (require (object_field field json) (field @ '' must be an object'') context) (\<lambda>item.
     bind_result (parse_message vrs item []) (\<lambda>(message, _). Inr message))"

section \<open>Sampling overrides\<close>

text \<open>
  The pattern "\<^verbatim>\<open>if (auto it = json.find(key); it != json.end())\<close>, test the type, store": absent
  keys leave the field empty.
\<close>

definition optional_field ::
  "string \<Rightarrow> (json \<Rightarrow> bool) \<Rightarrow> string \<Rightarrow> (json \<Rightarrow> 'a) \<Rightarrow> json \<Rightarrow> 'a option api_result" where
  "optional_field key accepts message get json =
     (case jfind key json of
        None \<Rightarrow> Inr None
      | Some v \<Rightarrow> if accepts v then Inr (Some (get v))
                  else Inl (invalid_request_error message (Some key) None))"

fun parse_stop_entries :: "json list \<Rightarrow> string list api_result" where
  "parse_stop_entries [] = Inr []"
| "parse_stop_entries (JString s # rest) = bind_result (parse_stop_entries rest) (\<lambda>ss. Inr (s # ss))"
| "parse_stop_entries (_ # rest) =
     Inl (invalid_request_error ''each stop entry must be a string'' (Some ''stop'') None)"

definition parse_stop :: "json \<Rightarrow> string list option api_result" where
  "parse_stop json =
     (case jfind ''stop'' json of
        None \<Rightarrow> Inr None
      | Some (JArray items) \<Rightarrow> bind_result (parse_stop_entries items) (\<lambda>ss. Inr (Some ss))
      | Some _ \<Rightarrow> Inl (invalid_request_error ''stop must be an array of strings'' (Some ''stop'') None))"

fun get_bool :: "json \<Rightarrow> bool" where
  "get_bool (JBool b) = b"
| "get_bool _ = False"

definition parse_generation_overrides :: "json_api \<Rightarrow> json \<Rightarrow> generation_overrides api_result" where
  "parse_generation_overrides api json =
     bind_result (optional_field ''temperature'' is_number ''temperature must be a number'' (json_get_float api) json) (\<lambda>temperature.
     bind_result (optional_field ''top_p'' is_number ''top_p must be a number'' (json_get_float api) json) (\<lambda>top_p.
     bind_result (optional_field ''top_k'' is_number_integer ''top_k must be an integer'' (json_get_int api) json) (\<lambda>top_k.
     bind_result (optional_field ''repeat_penalty'' is_number ''repeat_penalty must be a number'' (json_get_float api) json) (\<lambda>repeat_penalty.
     bind_result (optional_field ''repeat_last_n'' is_number_integer ''repeat_last_n must be an integer'' (json_get_int api) json) (\<lambda>repeat_last_n.
     bind_result (optional_field ''max_tokens'' is_number_integer ''max_tokens must be an integer'' (json_get_int api) json) (\<lambda>max_tokens.
     bind_result (optional_field ''seed'' is_number_integer ''seed must be an integer'' (json_get_int api) json) (\<lambda>seed.
     bind_result (parse_stop json) (\<lambda>stop.
     bind_result (optional_field ''record_tool_trace'' is_boolean ''record_tool_trace must be a boolean'' get_bool json) (\<lambda>record_tool_trace.
     Inr \<lparr>ov_temperature = temperature, ov_top_p = top_p, ov_top_k = top_k,
          ov_repeat_penalty = repeat_penalty, ov_repeat_last_n = repeat_last_n,
          ov_max_tokens = max_tokens, ov_seed = seed, ov_stop = stop,
          ov_record_tool_trace = record_tool_trace\<rparr>)))))))))"

section \<open>Requests\<close>

definition override_keys :: "string list" where
  "override_keys = [''temperature'', ''top_p'', ''top_k'', ''repeat_penalty'', ''repeat_last_n'',
     ''max_tokens'', ''seed'', ''stop'', ''record_tool_trace'']"

fun get_string :: "json \<Rightarrow> string" where
  "get_string (JString s) = s"
| "get_string _ = []"

definition parse_stream :: "json \<Rightarrow> bool api_result" where
  "parse_stream json =
     bind_result (optional_field ''stream'' is_boolean ''stream must be a boolean'' get_bool json) (\<lambda>v.
     Inr (case v of None \<Rightarrow> False | Some b \<Rightarrow> b))"

definition parse_session_id :: "json \<Rightarrow> string option api_result" where
  "parse_session_id json =
     bind_result (optional_field ''session_id'' is_string ''session_id must be a string'' get_string json) (\<lambda>v.
     bind_result (guard (v \<noteq> Some []) ''session_id must not be empty'' ''session_id'') (\<lambda>_. Inr v))"

definition parse_chat_completion_request ::
  "json_api \<Rightarrow> role_validator \<Rightarrow> string \<Rightarrow> chat_completion_request api_result" where
  "parse_chat_completion_request api vrs body =
     bind_result (parse_body api body) (\<lambda>json.
     bind_result (reject_api_unknown_keys json ''request''
       ([''model'', ''messages'', ''stream'', ''session_id''] @ override_keys)) (\<lambda>_.
     bind_result (require (string_field ''model'' json) ''model must be a string'' ''model'') (\<lambda>model.
     bind_result (require (array_field ''messages'' json) ''messages must be an array'' ''messages'') (\<lambda>messages_json.
     bind_result (guard (model \<noteq> []) ''model must not be empty'' ''model'') (\<lambda>_.
     bind_result (parse_stream json) (\<lambda>stream.
     bind_result (parse_session_id json) (\<lambda>session_id.
     bind_result (parse_generation_overrides api json) (\<lambda>overrides.
     bind_result (guard (messages_json \<noteq> []) ''messages must contain at least one item'' ''messages'') (\<lambda>_.
     bind_result (parse_messages vrs messages_json) (\<lambda>messages.
     Inr \<lparr>cc_model = model, cc_messages = messages, cc_stream = stream, cc_session_id = session_id,
          cc_overrides = overrides\<rparr>))))))))))"

definition parse_session_create_request ::
  "json_api \<Rightarrow> string \<Rightarrow> session_create_request api_result" where
  "parse_session_create_request api body =
     bind_result (parse_body api body) (\<lambda>json.
     bind_result (reject_api_unknown_keys json ''request'' [''model'', ''system_prompt'']) (\<lambda>_.
     bind_result (require (string_field ''model'' json) ''model must be a string'' ''model'') (\<lambda>model.
     bind_result (guard (model \<noteq> []) ''model must not be empty'' ''model'') (\<lambda>_.
     bind_result (optional_field ''system_prompt'' is_string ''system_prompt must be a string'' get_string json) (\<lambda>prompt.
     Inr \<lparr>sc_model = model, sc_system_prompt = prompt\<rparr>)))))"

definition parse_extraction_request ::
  "json_api \<Rightarrow> role_validator \<Rightarrow> string \<Rightarrow> extraction_request api_result" where
  "parse_extraction_request api vrs body =
     bind_result (parse_body api body) (\<lambda>json.
     bind_result (reject_api_unknown_keys json ''request''
       ([''model'', ''schema'', ''messages'', ''stream'', ''session_id''] @ override_keys)) (\<lambda>_.
     bind_result (require (string_field ''model'' json) ''model must be a string'' ''model'') (\<lambda>model.
     bind_result (require (object_field ''schema'' json) ''schema must be an object'' ''schema'') (\<lambda>schema.
     bind_result (require (array_field ''messages'' json) ''messages must be an array'' ''messages'') (\<lambda>messages_json.
     bind_result (guard (model \<noteq> []) ''model must not be empty'' ''model'') (\<lambda>_.
     bind_result (parse_stream json) (\<lambda>stream.
     bind_result (parse_session_id json) (\<lambda>session_id.
     bind_result (parse_generation_overrides api json) (\<lambda>overrides.
     bind_result (guard (messages_json \<noteq> []) ''messages must contain at least one item'' ''messages'') (\<lambda>_.
     bind_result (parse_messages vrs messages_json) (\<lambda>messages.
     Inr \<lparr>ex_model = model, ex_schema = schema, ex_messages = messages, ex_stream = stream,
          ex_session_id = session_id, ex_overrides = overrides\<rparr>)))))))))))"

definition parse_agent_chat_request ::
  "json_api \<Rightarrow> role_validator \<Rightarrow> string \<Rightarrow> agent_chat_request api_result" where
  "parse_agent_chat_request api vrs body =
     bind_result (parse_body api body) (\<lambda>json.
     bind_result (reject_api_unknown_keys json ''request'' ([''model'', ''message''] @ override_keys)) (\<lambda>_.
     bind_result (require (string_field ''model'' json) ''model must be a string'' ''model'') (\<lambda>model.
     bind_result (guard (model \<noteq> []) ''model must not be empty'' ''model'') (\<lambda>_.
     bind_result (parse_single_message_field vrs json ''message'' ''message'') (\<lambda>message.
     bind_result (parse_generation_overrides api json) (\<lambda>overrides.
     Inr \<lparr>ac_model = model, ac_message = message, ac_overrides = overrides\<rparr>))))))"

definition parse_agent_history_request ::
  "json_api \<Rightarrow> role_validator \<Rightarrow> string \<Rightarrow> chat_message list api_result" where
  "parse_agent_history_request api vrs body =
     bind_result (parse_body api body) (\<lambda>json.
     bind_result (reject_api_unknown_keys json ''request'' [''messages'']) (\<lambda>_.
     bind_result (require (array_field ''messages'' json) ''messages must be an array'' ''messages'')
       (parse_messages vrs)))"

definition parse_agent_history_message_request ::
  "json_api \<Rightarrow> role_validator \<Rightarrow> string \<Rightarrow> chat_message api_result" where
  "parse_agent_history_message_request api vrs body =
     bind_result (parse_body api body) (\<lambda>json.
     bind_result (reject_api_unknown_keys json ''request'' [''message'']) (\<lambda>_.
     parse_single_message_field vrs json ''message'' ''message''))"

definition parse_system_prompt_request :: "json_api \<Rightarrow> string \<Rightarrow> string api_result" where
  "parse_system_prompt_request api body =
     bind_result (parse_body api body) (\<lambda>json.
     bind_result (reject_api_unknown_keys json ''request'' [''system_prompt'']) (\<lambda>_.
     require (string_field ''system_prompt'' json) ''system_prompt must be a string'' ''system_prompt''))"

section \<open>Response bodies\<close>

definition make_tool_schema :: "tool_definition \<Rightarrow> json" where
  "make_tool_schema metadata =
     json_object [(''type'', JString ''function''),
       (''function'', json_object [(''name'', JString (td_name metadata)),
          (''description'', JString (td_description metadata)),
          (''parameters'', parameters_schema metadata)])]"

text \<open>\<^verbatim>\<open>try { parse } catch (...) { the text itself }\<close>.\<close>

definition json_or_text :: "json_api \<Rightarrow> string \<Rightarrow> json" where
  "json_or_text api text = (case json_parse api text of Inl _ \<Rightarrow> JString text | Inr j \<Rightarrow> j)"

definition make_tool_invocation_json ::
  "json_api \<Rightarrow> (tool_invocation_status \<Rightarrow> string) \<Rightarrow> tool_invocation \<Rightarrow> json" where
  "make_tool_invocation_json api status_to_string invocation =
     (let j = json_object [(''id'', JString (inv_id invocation)), (''name'', JString (inv_name invocation)),
                (''status'', JString (status_to_string (inv_status invocation)))];
          j = jset ''arguments'' (json_or_text api (inv_arguments_json invocation)) j;
          j = (case inv_result_json invocation of None \<Rightarrow> j | Some r \<Rightarrow> jset ''result'' (json_or_text api r) j)
      in case inv_error invocation of None \<Rightarrow> j | Some e \<Rightarrow> jset ''error'' (JString (rt_message e)) j)"

definition make_usage_json :: "completion_usage \<Rightarrow> json" where
  "make_usage_json u =
     json_object [(''prompt_tokens'', JInt (prompt_tokens u)),
       (''completion_tokens'', JInt (completion_tokens u)), (''total_tokens'', JInt (total_tokens u))]"

definition make_metrics_json :: "completion_metrics \<Rightarrow> json" where
  "make_metrics_json m =
     json_object [(''latency_ms'', JInt (latency_ms m)),
       (''time_to_first_token_ms'', JInt (time_to_first_token_ms m)),
       (''tokens_per_second'', JFloat (tokens_per_second m))]"

definition make_chat_completion_body ::
  "json_api \<Rightarrow> (tool_invocation_status \<Rightarrow> string) \<Rightarrow> string \<Rightarrow> int \<Rightarrow> string \<Rightarrow> completion_result \<Rightarrow> json" where
  "make_chat_completion_body api status_to_string completion_id created model_id response =
     json_object [(''id'', JString completion_id), (''object'', JString ''chat.completion''),
       (''created'', JInt created), (''model'', JString model_id),
       (''choices'', JArray [json_object [(''index'', JInt 0),
          (''message'', json_object [(''role'', JString ''assistant''), (''content'', JString (cr_text response))]),
          (''finish_reason'', JString ''stop'')]]),
       (''usage'', make_usage_json (cr_usage response)),
       (''zoo_metrics'', make_metrics_json (cr_metrics response)),
       (''tool_invocations'',
          JArray (map (make_tool_invocation_json api status_to_string) (cr_tool_invocations response)))]"

definition make_session_body :: "session_summary \<Rightarrow> json" where
  "make_session_body summary =
     json_object [(''id'', JString (ss_id summary)), (''object'', JString ''session''),
       (''model'', JString (ss_model summary)), (''created'', JInt (ss_created summary)),
       (''last_used'', JInt (ss_last_used summary)), (''expires_at'', JInt (ss_expires_at summary))]"

definition make_extraction_body ::
  "json_api \<Rightarrow> (tool_invocation_status \<Rightarrow> string) \<Rightarrow> string \<Rightarrow> int \<Rightarrow> string \<Rightarrow> extraction_result \<Rightarrow> json" where
  "make_extraction_body api status_to_string extraction_id created model_id response =
     json_object [(''id'', JString extraction_id), (''object'', JString ''extraction''),
       (''created'', JInt created), (''model'', JString model_id),
       (''text'', JString (er_text response)), (''data'', er_data response),
       (''usage'', make_usage_json (er_usage response)),
       (''zoo_metrics'', make_metrics_json (er_metrics response)),
       (''tool_invocations'',
          JArray (map (make_tool_invocation_json api status_to_string) (er_tool_invocations response)))]"

definition make_error_body :: "api_error \<Rightarrow> json" where
  "make_error_body error =
     (let inner = json_object [(''message'', JString (err_message error)), (''type'', JString (err_type error))];
          inner = (case err_param error of None \<Rightarrow> inner | Some p \<Rightarrow> jset ''param'' (JString p) inner);
          inner = (case err_code error of None \<Rightarrow> inner | Some c \<Rightarrow> jset ''code'' (JString c) inner)
      in json_object [(''error'', inner)])"

text \<open>\<^verbatim>\<open>drogon::HttpResponse\<close> as far as the server sets it.\<close>

record http_response =
  resp_status :: nat
  resp_content_type :: "string option"
  resp_body :: string
  resp_headers :: "(string \<times> string) list"

definition make_json_response :: "json_api \<Rightarrow> json \<Rightarrow> nat \<Rightarrow> http_response" where
  "make_json_response api body status =
     \<lparr>resp_status = status, resp_content_type = Some ''application/json'',
      resp_body = json_dump api body, resp_headers = []\<rparr>"

definition make_error_response :: "json_api \<Rightarrow> api_error \<Rightarrow> http_response" where
  "make_error_response api error = make_json_response api (make_error_body error) (http_status error)"

definition make_models_response :: "json_api \<Rightarrow> string \<Rightarrow> http_response" where
  "make_models_response api model_id =
     make_json_response api (json_object [(''object'', JString ''list''),
       (''data'', JArray [json_object [(''id'', JString model_id), (''object'', JString ''model''),
          (''owned_by'', JString ''zoo-keeper-server'')]])]) 200"

definition make_tools_response :: "json_api \<Rightarrow> tool_definition list \<Rightarrow> http_response" where
  "make_tools_response api tool_list =
     make_json_response api (json_object [(''object'', JString ''list''),
       (''data'', JArray (map make_tool_schema tool_list))]) 200"

definition make_session_response :: "json_api \<Rightarrow> session_summary \<Rightarrow> nat \<Rightarrow> http_response" where
  "make_session_response api summary status = make_json_response api (make_session_body summary) status"

definition make_chat_completion_response ::
  "json_api \<Rightarrow> (tool_invocation_status \<Rightarrow> string) \<Rightarrow> string \<Rightarrow> int \<Rightarrow> string \<Rightarrow> completion_result \<Rightarrow> http_response" where
  "make_chat_completion_response api status_to_string completion_id created model_id response =
     make_json_response api
       (make_chat_completion_body api status_to_string completion_id created model_id response) 200"

definition make_extraction_response ::
  "json_api \<Rightarrow> (tool_invocation_status \<Rightarrow> string) \<Rightarrow> string \<Rightarrow> int \<Rightarrow> string \<Rightarrow> extraction_result \<Rightarrow> http_response" where
  "make_extraction_response api status_to_string extraction_id created model_id response =
     make_json_response api
       (make_extraction_body api status_to_string extraction_id created model_id response) 200"

text \<open>The bodies of \<^verbatim>\<open>api_routes.cpp\<close> (\<^verbatim>\<open>zoo::role_to_string\<close> is a parameter).\<close>

definition make_tool_call_body :: "tool_call \<Rightarrow> json" where
  "make_tool_call_body call =
     json_object [(''id'', JString (call_id call)), (''type'', JString ''function''),
       (''function'', json_object [(''name'', JString (call_name call)),
          (''arguments'', JString (call_arguments call))])]"

definition make_message_body :: "(message_role \<Rightarrow> string) \<Rightarrow> chat_message \<Rightarrow> json" where
  "make_message_body role_to_string message =
     (let body = json_object [(''role'', JString (role_to_string (msg_role message))),
                   (''content'', JString (msg_content message))];
          body = (if msg_tool_call_id message \<noteq> []
                  then jset ''tool_call_id'' (JString (msg_tool_call_id message)) body else body)
      in if msg_tool_calls message \<noteq> []
         then jset ''tool_calls'' (JArray (map make_tool_call_body (msg_tool_calls message))) body
         else body)"

definition make_agent_history_body :: "(message_role \<Rightarrow> string) \<Rightarrow> agent_history_snapshot \<Rightarrow> json" where
  "make_agent_history_body role_to_string history =
     json_object [(''messages'', JArray (map (make_message_body role_to_string) (ah_messages history))),
       (''estimated_tokens'', JInt (ah_estimated_tokens history)),
       (''context_size'', JInt (ah_context_size history)),
       (''context_exceeded'', JBool (ah_context_exceeded history))]"

definition make_no_content_response :: http_response where
  "make_no_content_response =
     \<lparr>resp_status = 204, resp_content_type = None, resp_body = [], resp_headers = []\<rparr>"

definition make_accepted_response :: "json_api \<Rightarrow> json \<Rightarrow> http_response" where
  "make_accepted_response api body = make_json_response api body 202"

section \<open>Runtime errors\<close>

definition map_runtime_error_to_api_error :: "runtime_error \<Rightarrow> api_error" where
  "map_runtime_error_to_api_error error =
     (let message = rt_message error in
      case rt_code error of
        InvalidConfig \<Rightarrow> invalid_request_error message None (Some ''invalid_config'')
      | InvalidSamplingParams \<Rightarrow> invalid_request_error message None (Some ''invalid_config'')
      | InvalidModelPath \<Rightarrow> server_error message (Some ''model_load_failed'')
      | InvalidContextSize \<Rightarrow> server_error message (Some ''model_load_failed'')
      | BackendInitFailed \<Rightarrow> server_error message (Some ''model_load_failed'')
      | ModelLoadFailed \<Rightarrow> server_error message (Some ''model_load_failed'')
      | ContextCreationFailed \<Rightarrow> server_error message (Some ''context_creation_failed'')
      | InferenceFailed \<Rightarrow> server_error message (Some ''inference_failed'')
      | TokenizationFailed \<Rightarrow> server_error message (Some ''tokenization_failed'')
      | ContextWindowExceeded \<Rightarrow> invalid_request_error message (Some ''messages'') (Some ''context_window_exceeded'')
      | InvalidMessageSequence \<Rightarrow> invalid_request_error message (Some ''messages'') (Some ''invalid_message_sequence'')
      | TemplateRenderFailed \<Rightarrow> server_error message (Some ''template_render_failed'')
      | AgentNotRunning \<Rightarrow> service_unavailable_error message (Some ''agent_not_ready'')
      | RequestCancelled \<Rightarrow> service_unavailable_error message (Some ''agent_not_ready'')
      | RequestTimeout \<Rightarrow> server_error message (Some ''request_timeout'')
      | QueueFull \<Rightarrow> service_unavailable_error message (Some ''queue_full'')
      | ToolNotFound \<Rightarrow> invalid_request_error message None (Some ''tool_not_found'')
      | ToolExecutionFailed \<Rightarrow> server_error message (Some ''tool_execution_failed'')
      | InvalidToolSignature \<Rightarrow> server_error message (Some ''tool_execution_failed'')
      | InvalidToolSchema \<Rightarrow> server_error message (Some ''tool_execution_failed'')
      | ToolValidationFailed \<Rightarrow> server_error message (Some ''tool_execution_failed'')
      | ToolRetriesExhausted \<Rightarrow> server_error message (Some ''tool_retries_exhausted'')
      | ToolLoopLimitReached \<Rightarrow> server_error message (Some ''tool_retries_exhausted'')
      | InvalidOutputSchema \<Rightarrow> invalid_request_error message None (Some ''invalid_output_schema'')
      | ExtractionFailed \<Rightarrow> server_error message (Some ''extraction_failed'')
      | GgufReadFailed \<Rightarrow> server_error message (Some ''hub_error'')
      | GgufMetadataNotFound \<Rightarrow> server_error message (Some ''hub_error'')
      | StoreCorrupted \<Rightarrow> server_error message (Some ''hub_error'')
      | FilesystemError \<Rightarrow> server_error message (Some ''hub_error'')
      | ModelNotFound \<Rightarrow> not_found_error message (Some ''model_not_found'')
      | ModelAlreadyExists \<Rightarrow> conflict_error message (Some ''model_already_exists'')
      | DownloadFailed \<Rightarrow> server_error message (Some ''model_download_failed'')
      | HuggingFaceApiError \<Rightarrow> server_error message (Some ''model_download_failed'')
      | InvalidModelIdentifier \<Rightarrow> invalid_request_error message None (Some ''invalid_model_identifier'')
      | Unknown \<Rightarrow> server_error message (Some ''runtime_error''))"

section \<open>What the parsers accept\<close>

text \<open>A shared contract of the parsers: every failure is a well-formed 400 error.\<close>

definition client_error :: "api_error \<Rightarrow> bool" where
  "client_error e \<longleftrightarrow> http_status e = 400 \<and> api_error_wf e"

definition refuses_as_client_error :: "'a api_result \<Rightarrow> bool" where
  "refuses_as_client_error r \<longleftrightarrow> (\<forall>e. r = Inl e \<longrightarrow> client_error e)"

lemma refuses_Inr [simp, intro]: "refuses_as_client_error (Inr x)"
  by (simp add: refuses_as_client_error_def)

lemma refuses_Inl [simp]: "refuses_as_client_error (Inl e) = client_error e"
  by (simp add: refuses_as_client_error_def)

lemma client_error_invalid [simp, intro]: "client_error (invalid_request_error m p c)"
  by (simp add: client_error_def)

lemma refuses_bind [intro]:
  "refuses_as_client_error r \<Longrightarrow> (\<And>x. r = Inr x \<Longrightarrow> refuses_as_client_error (f x)) \<Longrightarrow>
   refuses_as_client_error (bind_result r f)"
  by (cases r) auto

lemma refuses_fold [intro]:
  "(\<And>x s. refuses_as_client_error (f x s)) \<Longrightarrow> refuses_as_client_error (fold_result f xs s)"
  by (induction xs arbitrary: s) auto

lemma refuses_map_invalid [simp, intro]:
  "refuses_as_client_error (map_error (\<lambda>e. invalid_request_error (m e) p c) r)"
  by (cases r) auto

lemma refuses_basic [simp, intro]:
  "refuses_as_client_error (parse_body api body)"
  "refuses_as_client_error (reject_api_unknown_keys j ctx ks)"
  "refuses_as_client_error (require v m p)"
  "refuses_as_client_error (guard b m p)"
  "refuses_as_client_error (optional_field k acc m get j)"
  "refuses_as_client_error (parse_role r)"
  by (auto simp: parse_body_def reject_api_unknown_keys_def require_def guard_def optional_field_def
      parse_role_def split: option.splits)

lemma refuses_tool_calls [simp, intro]: "refuses_as_client_error (parse_tool_calls items)"
  unfolding parse_tool_calls_def parse_tool_call_def by (intro refuses_fold refuses_bind) auto

lemma refuses_build_message [simp, intro]: "refuses_as_client_error (build_message j r c)"
  unfolding build_message_def by (auto split: option.splits intro!: refuses_bind)

lemma refuses_parse_message [simp, intro]: "refuses_as_client_error (parse_message vrs j seed)"
  unfolding parse_message_def by (intro refuses_bind) auto

lemma refuses_parse_messages [simp, intro]: "refuses_as_client_error (parse_messages vrs items)"
  unfolding parse_messages_def by (intro refuses_fold refuses_bind) auto

lemma refuses_single_message [simp, intro]:
  "refuses_as_client_error (parse_single_message_field vrs j f c)"
  unfolding parse_single_message_field_def by (intro refuses_bind) auto

lemma refuses_stop [simp, intro]: "refuses_as_client_error (parse_stop j)"
proof -
  have "refuses_as_client_error (parse_stop_entries items)" for items
    by (induction items rule: parse_stop_entries.induct) auto
  then show ?thesis unfolding parse_stop_def by (auto split: option.splits json.splits)
qed

lemma refuses_overrides [simp, intro]: "refuses_as_client_error (parse_generation_overrides api j)"
  unfolding parse_generation_overrides_def by (intro refuses_bind) auto

lemma refuses_stream_session [simp, intro]:
  "refuses_as_client_error (parse_stream j)" "refuses_as_client_error (parse_session_id j)"
  unfolding parse_stream_def parse_session_id_def by (intro refuses_bind; auto)+


lemma require_Inr_iff [result_simps]: "require v m p = Inr x \<longleftrightarrow> v = Some x"
  by (auto simp: require_def split: option.splits)

lemma guard_Inr_iff [result_simps]: "guard b m p = Inr u \<longleftrightarrow> b"
  by (auto simp: guard_def)

lemma reject_api_Inr_iff [result_simps]:
  "reject_api_unknown_keys j c ks = Inr u \<longleftrightarrow> is_object j \<and> set (map fst (entries j)) \<subseteq> set ks"
  by (simp add: reject_api_unknown_keys_def map_error_Inr_iff reject_unknown_keys_Inr_iff)

lemma parse_body_Inr_iff [result_simps]: "parse_body api body = Inr j \<longleftrightarrow> json_parse api body = Inr j"
  by (simp add: parse_body_def map_error_Inr_iff)

lemma optional_field_Inr_iff [result_simps]:
  "optional_field k acc m get j = Inr v \<longleftrightarrow>
     v = map_option get (jfind k j) \<and> pred_option acc (jfind k j)"
  by (auto simp: optional_field_def split: option.splits)

lemma optional_field_ok:
  "pred_option acc (jfind k j) \<Longrightarrow> optional_field k acc m get j = Inr (map_option get (jfind k j))"
  by (simp add: optional_field_Inr_iff)

lemma validate_message_sequence_Inr_iff [result_simps]:
  "validate_message_sequence vrs h r = Inr u \<longleftrightarrow> vrs h r = Inr ()"
  by (auto simp: validate_message_sequence_def split: sum.splits)

text \<open>
  The shape of a message: a call id only on tool messages and calls only on assistant messages;
  a sequence is accepted when each message may follow the ones before it.
\<close>

definition message_shape :: "chat_message \<Rightarrow> bool" where
  "message_shape m \<longleftrightarrow>
     (msg_role m \<noteq> Tool \<longrightarrow> msg_tool_call_id m = []) \<and> (msg_role m \<noteq> Assistant \<longrightarrow> msg_tool_calls m = [])"

definition accepted_sequence :: "role_validator \<Rightarrow> chat_message list \<Rightarrow> bool" where
  "accepted_sequence vrs ms \<longleftrightarrow> list_all (\<lambda>i. vrs (take i ms) (msg_role (ms ! i)) = Inr ()) [0..<length ms]"

lemma accepted_sequence_Nil [simp]: "accepted_sequence vrs []"
  by (simp add: accepted_sequence_def)

lemma accepted_sequence_snoc [simp]:
  "accepted_sequence vrs (ms @ [m]) \<longleftrightarrow> accepted_sequence vrs ms \<and> vrs ms (msg_role m) = Inr ()"
  by (auto simp: accepted_sequence_def list_all_iff nth_append)

lemma build_message_shape:
  assumes "build_message j role content = Inr m"
  shows "message_shape m \<and> msg_role m = role \<and> msg_content m = content"
proof (cases "role = Tool")
  case True
  with assms show ?thesis
    by (auto simp: build_message_def message_shape_def tool_message_def result_simps)
next
  case False
  with assms show ?thesis
    by (cases "jfind ''tool_calls'' j")
      (auto simp: build_message_def message_shape_def assistant_with_tool_calls_def result_simps)
qed

lemma parse_message_Inr:
  assumes "parse_message vrs j seed = Inr (m, seed')"
  shows "seed' = seed @ [m] \<and> message_shape m \<and> vrs seed (msg_role m) = Inr ()
     \<and> string_field ''content'' j = Some (msg_content m)"
  using assms by (auto simp: parse_message_def result_simps dest: build_message_shape)

lemma parse_messages_snoc:
  "parse_messages vrs (items @ [item]) =
     bind_result (parse_messages vrs items) (\<lambda>seed.
       bind_result (parse_message vrs item seed) (\<lambda>(_, seed'). Inr seed'))"
  by (auto simp: parse_messages_def fold_result_append bind_result_def split: sum.splits)

lemma parse_messages_Inr:
  assumes "parse_messages vrs items = Inr ms"
  shows "accepted_sequence vrs ms \<and> list_all message_shape ms
     \<and> map (string_field ''content'') items = map (\<lambda>m. Some (msg_content m)) ms"
  using assms
proof (induction items arbitrary: ms rule: rev_induct)
  case Nil
  then show ?case by (simp add: parse_messages_def)
next
  case (snoc item items)
  from snoc.prems obtain seed m where "parse_messages vrs items = Inr seed"
    and "parse_message vrs item seed = Inr (m, ms)"
    by (auto simp: parse_messages_snoc result_simps)
  with snoc.IH parse_message_Inr show ?case by fastforce
qed

lemma parse_stop_entries_Inr_iff [result_simps]:
  "parse_stop_entries items = Inr ss \<longleftrightarrow> items = map JString ss"
proof (induction items arbitrary: ss rule: parse_stop_entries.induct)
  case (2 s rest)
  then show ?case by (cases ss) (auto simp: result_simps)
qed auto

lemma parse_stop_Inr_iff [result_simps]:
  "parse_stop j = Inr v \<longleftrightarrow> map_option (\<lambda>ss. JArray (map JString ss)) v = jfind ''stop'' j"
  by (cases v) (auto simp: parse_stop_def result_simps split: option.splits json.splits)

text \<open>What a set of overrides read from an object holds.\<close>

definition overrides_read :: "json_api \<Rightarrow> json \<Rightarrow> generation_overrides \<Rightarrow> bool" where
  "overrides_read api j ov \<longleftrightarrow>
     ov_temperature ov = map_option (json_get_float api) (jfind ''temperature'' j) \<and>
     ov_top_p ov = map_option (json_get_float api) (jfind ''top_p'' j) \<and>
     ov_top_k ov = map_option (json_get_int api) (jfind ''top_k'' j) \<and>
     ov_repeat_penalty ov = map_option (json_get_float api) (jfind ''repeat_penalty'' j) \<and>
     ov_repeat_last_n ov = map_option (json_get_int api) (jfind ''repeat_last_n'' j) \<and>
     ov_max_tokens ov = map_option (json_get_int api) (jfind ''max_tokens'' j) \<and>
     ov_seed ov = map_option (json_get_int api) (jfind ''seed'' j) \<and>
     map_option (\<lambda>ss. JArray (map JString ss)) (ov_stop ov) = jfind ''stop'' j \<and>
     map_option JBool (ov_record_tool_trace ov) = jfind ''record_tool_trace'' j \<and>
     list_all (\<lambda>k. pred_option is_number (jfind k j)) [''temperature'', ''top_p'', ''repeat_penalty''] \<and>
     list_all (\<lambda>k. pred_option is_number_integer (jfind k j))
       [''top_k'', ''repeat_last_n'', ''max_tokens'', ''seed'']"

lemma get_bool_inverse: "is_boolean v \<Longrightarrow> JBool (get_bool v) = v"
  by (cases v) auto

lemma map_get_bool_inverse: "pred_option is_boolean f \<Longrightarrow> map_option (JBool \<circ> get_bool) f = f"
  by (cases f) (auto simp: get_bool_inverse)

lemma get_string_inverse: "is_string v \<Longrightarrow> JString (get_string v) = v"
  by (cases v) auto

lemma optional_bool_Inr_iff [result_simps]:
  "optional_field k is_boolean m get_bool j = Inr v \<longleftrightarrow> map_option JBool v = jfind k j"
  by (cases "jfind k j"; cases v) (auto simp: optional_field_Inr_iff get_bool_inverse)

lemma optional_string_Inr_iff [result_simps]:
  "optional_field k is_string m get_string j = Inr v \<longleftrightarrow> map_option JString v = jfind k j"
  by (cases "jfind k j"; cases v) (auto simp: optional_field_Inr_iff get_string_inverse)

lemma parse_generation_overrides_iff [result_simps]:
  "parse_generation_overrides api j = Inr ov \<longleftrightarrow> overrides_read api j ov"
proof
  assume "parse_generation_overrides api j = Inr ov"
  then show "overrides_read api j ov"
    unfolding parse_generation_overrides_def overrides_read_def
    by (clarsimp simp: result_simps option.map_comp map_get_bool_inverse)
next
  assume read: "overrides_read api j ov"
  then have "parse_stop j = Inr (ov_stop ov)"
    "\<And>m. optional_field ''record_tool_trace'' is_boolean m get_bool j = Inr (ov_record_tool_trace ov)"
    by (simp_all add: overrides_read_def parse_stop_Inr_iff optional_bool_Inr_iff)
  with read show "parse_generation_overrides api j = Inr ov"
    unfolding parse_generation_overrides_def overrides_read_def
    by (simp add: optional_field_ok)
qed

lemma parse_stream_Inr_iff [result_simps]:
  "parse_stream j = Inr b \<longleftrightarrow>
     jfind ''stream'' j = Some (JBool b) \<or> jfind ''stream'' j = None \<and> \<not> b"
proof -
  have "parse_stream j = Inr b \<longleftrightarrow>
      (\<exists>v. map_option JBool v = jfind ''stream'' j \<and> (case v of None \<Rightarrow> False | Some b \<Rightarrow> b) = b)"
    by (simp add: parse_stream_def bind_result_Inr_iff optional_bool_Inr_iff)
  also have "\<dots> \<longleftrightarrow> jfind ''stream'' j = Some (JBool b) \<or> jfind ''stream'' j = None \<and> \<not> b"
    by (cases "jfind ''stream'' j") (auto split: option.splits)
  finally show ?thesis .
qed

lemma parse_session_id_Inr_iff [result_simps]:
  "parse_session_id j = Inr v \<longleftrightarrow> map_option JString v = jfind ''session_id'' j \<and> v \<noteq> Some []"
  by (auto simp: parse_session_id_def bind_result_Inr_iff optional_string_Inr_iff guard_Inr_iff)


section \<open>Reading back what the history endpoint writes\<close>

text \<open>What the server relies on of \<^verbatim>\<open>zoo::role_to_string\<close>: it writes the four names of the API.\<close>

definition standard_role_names :: "(message_role \<Rightarrow> string) \<Rightarrow> bool" where
  "standard_role_names role_to_string \<longleftrightarrow>
     role_to_string System = ''system'' \<and> role_to_string User = ''user'' \<and>
     role_to_string Assistant = ''assistant'' \<and> role_to_string Tool = ''tool''"

fun role_name :: "message_role \<Rightarrow> string" where
  "role_name System = ''system''"
| "role_name User = ''user''"
| "role_name Assistant = ''assistant''"
| "role_name Tool = ''tool''"

lemma parse_role_name: "standard_role_names r2s \<Longrightarrow> parse_role (r2s r) = Inr r"
  by (cases r) (simp_all add: parse_role_def standard_role_names_def)

lemma entries_json_object_keys: "set (map fst (entries (json_object kvs))) = set (map fst kvs)"
proof -
  have "set (map fst (fold (\<lambda>(k, v). obj_put k v) kvs m)) = set (map fst m) \<union> set (map fst kvs)" for m
  proof (induction kvs arbitrary: m)
    case (Cons p kvs)
    obtain k v where "p = (k, v)" by (cases p)
    with Cons [of "obj_put k v m"] show ?case by (simp add: set_keys_obj_put del: set_map)
  qed simp
  from this [of "[]"] show ?thesis by (simp add: json_object_def)
qed

lemma entries_jset_keys: "set (map fst (entries (jset k v j))) = insert k (set (map fst (entries j)))"
  by (simp add: jset_def set_keys_obj_put del: set_map)

lemma parse_tool_call_body: "parse_tool_call (make_tool_call_body c) = Inr c"
proof -
  let ?f = "json_object [(''name'', JString (call_name c)), (''arguments'', JString (call_arguments c))]"
  let ?j = "make_tool_call_body c"
  have j: "jfind ''id'' ?j = Some (JString (call_id c))" "jfind ''type'' ?j = Some (JString ''function'')"
    "jfind ''function'' ?j = Some ?f"
    by (simp_all add: make_tool_call_body_def jfind_json_object)
  have f: "jfind ''name'' ?f = Some (JString (call_name c))"
    "jfind ''arguments'' ?f = Some (JString (call_arguments c))"
    by (simp_all add: jfind_json_object)
  have "reject_api_unknown_keys ?j ''tool_call'' [''id'', ''type'', ''function''] = Inr ()"
    by (simp add: reject_api_Inr_iff make_tool_call_body_def entries_json_object_keys del: set_map)
  moreover have "reject_api_unknown_keys ?f ''tool_call.function'' [''name'', ''arguments''] = Inr ()"
    by (simp add: reject_api_Inr_iff entries_json_object_keys del: set_map)
  moreover have "object_field ''function'' ?j = Some ?f"
    using j(3) by (simp add: object_field_Some_iff)
  moreover have "string_field ''id'' ?j = Some (call_id c)" "string_field ''type'' ?j = Some ''function''"
    "string_field ''name'' ?f = Some (call_name c)" "string_field ''arguments'' ?f = Some (call_arguments c)"
    using j f by (simp_all add: string_field_Some_iff)
  ultimately show ?thesis by (simp add: parse_tool_call_def require_def guard_def)
qed

lemma parse_tool_calls_bodies: "parse_tool_calls (map make_tool_call_body cs) = Inr cs"
proof -
  have "fold_result (\<lambda>item tool_calls. bind_result (parse_tool_call item) (\<lambda>c. Inr (tool_calls @ [c])))
     (map make_tool_call_body cs) acc = Inr (acc @ cs)" for acc
    by (induction cs arbitrary: acc) (simp_all add: parse_tool_call_body)
  then show ?thesis by (simp add: parse_tool_calls_def)
qed

lemma make_message_body_find:
  "jfind ''role'' (make_message_body r2s m) = Some (JString (r2s (msg_role m)))"
  "jfind ''content'' (make_message_body r2s m) = Some (JString (msg_content m))"
  "jfind ''tool_call_id'' (make_message_body r2s m) =
     (if msg_tool_call_id m = [] then None else Some (JString (msg_tool_call_id m)))"
  "jfind ''tool_calls'' (make_message_body r2s m) =
     (if msg_tool_calls m = [] then None else Some (JArray (map make_tool_call_body (msg_tool_calls m))))"
  by (simp_all add: make_message_body_def Let_def jfind_jset jfind_json_object)

lemma make_message_body_keys:
  "is_object (make_message_body r2s m)"
  "set (map fst (entries (make_message_body r2s m)))
     \<subseteq> {''role'', ''content'', ''tool_call_id'', ''tool_calls''}"
  by (simp_all add: make_message_body_def Let_def entries_jset_keys entries_json_object_keys del: set_map)

text \<open>The messages a body can carry: a tool message needs a non-empty call id to be written.\<close>

definition writable_message :: "chat_message \<Rightarrow> bool" where
  "writable_message m \<longleftrightarrow> message_shape m \<and> (msg_role m = Tool \<longrightarrow> msg_tool_call_id m \<noteq> [])"

lemma build_message_body:
  assumes "writable_message m"
  shows "build_message (make_message_body r2s m) (msg_role m) (msg_content m) = Inr m"
proof (cases "msg_role m = Tool")
  case True
  with assms show ?thesis
    by (simp add: build_message_def make_message_body_find string_field_def require_def guard_def
        writable_message_def message_shape_def tool_message_def)
next
  case False
  with assms show ?thesis
    by (cases "msg_tool_calls m = []")
      (auto simp: build_message_def make_message_body_find array_field_def require_def guard_def
        writable_message_def message_shape_def assistant_with_tool_calls_def parse_tool_calls_bodies)
qed

lemma parse_message_body:
  assumes "writable_message m" and "standard_role_names r2s" and "vrs seed (msg_role m) = Inr ()"
  shows "parse_message vrs (make_message_body r2s m) seed = Inr (m, seed @ [m])"
proof -
  have "reject_api_unknown_keys (make_message_body r2s m) ''message''
      [''role'', ''content'', ''tool_call_id'', ''tool_calls''] = Inr ()"
    using make_message_body_keys [of r2s m] by (simp add: reject_api_Inr_iff del: set_map)
  moreover have "string_field ''role'' (make_message_body r2s m) = Some (r2s (msg_role m))"
    "string_field ''content'' (make_message_body r2s m) = Some (msg_content m)"
    by (simp_all add: string_field_Some_iff make_message_body_find)
  ultimately show ?thesis using assms
    by (simp add: parse_message_def require_def parse_role_name build_message_body
        validate_message_sequence_def)
qed

lemma parse_messages_bodies:
  assumes "list_all writable_message ms" and "standard_role_names r2s" and "accepted_sequence vrs ms"
  shows "parse_messages vrs (map (make_message_body r2s) ms) = Inr ms"
  using assms
proof (induction ms rule: rev_induct)
  case Nil
  then show ?case by (simp add: parse_messages_def)
next
  case (snoc m ms)
  then show ?case by (simp add: parse_messages_snoc parse_message_body)
qed


section \<open>Properties\<close>

text \<open>A concrete JSON library and role validator for the witnesses: one body, read as one value.\<close>

definition demo_api :: "json \<Rightarrow> json_api" where
  "demo_api j = \<lparr>json_parse = (\<lambda>s. if s = ''body'' then Inr j else Inl ''syntax error''),
     json_dump = (\<lambda>_. ''body''), json_get_float = (\<lambda>_. 0), json_get_int = (\<lambda>_. 1),
     json_get_uint = (\<lambda>_. 1)\<rparr>"

definition demo_validator :: role_validator where
  "demo_validator h r =
     (case h of [] \<Rightarrow> if r = Tool then Inl ''tool message first'' else Inr ()
      | _ \<Rightarrow> if msg_role (last h) = r then Inl ''repeated role'' else Inr ())"

definition demo_chat_json :: json where
  "demo_chat_json = JObject [(''messages'', JArray [JObject [(''content'', JString ''hi''), (''role'', JString ''user'')]]),
     (''model'', JString ''m''), (''stream'', JBool True), (''top_k'', JInt 7)]"


lemma demo_chat_parses:
  "parse_chat_completion_request (demo_api demo_chat_json) demo_validator ''body'' =
     Inr \<lparr>cc_model = ''m'', cc_messages = [user_message ''hi''], cc_stream = True, cc_session_id = None,
          cc_overrides = no_overrides\<lparr>ov_top_k := Some 1\<rparr>\<rparr>"
  by code_simp


text \<open>
  An extraction request the parser accepts satisfies the same conditions and carries the
  schema object it was sent.
\<close>

theorem extraction_request_accepted_wf:
  assumes "parse_extraction_request api vrs body = Inr r"
  shows "\<exists>j items. json_parse api body = Inr j \<and> is_object j
    \<and> set (map fst (entries j)) \<subseteq>
        set ([''model'', ''schema'', ''messages'', ''stream'', ''session_id''] @ override_keys)
    \<and> jfind ''model'' j = Some (JString (ex_model r)) \<and> ex_model r \<noteq> []
    \<and> jfind ''schema'' j = Some (ex_schema r) \<and> is_object (ex_schema r)
    \<and> jfind ''messages'' j = Some (JArray items) \<and> ex_messages r \<noteq> []
    \<and> map (string_field ''content'') items = map (\<lambda>m. Some (msg_content m)) (ex_messages r)
    \<and> accepted_sequence vrs (ex_messages r) \<and> list_all message_shape (ex_messages r)
    \<and> (jfind ''stream'' j = Some (JBool (ex_stream r)) \<or> jfind ''stream'' j = None \<and> \<not> ex_stream r)
    \<and> map_option JString (ex_session_id r) = jfind ''session_id'' j \<and> ex_session_id r \<noteq> Some []
    \<and> overrides_read api j (ex_overrides r)"
proof -
  from assms obtain j items where j: "json_parse api body = Inr j" "is_object j"
      "set (map fst (entries j)) \<subseteq>
         set ([''model'', ''schema'', ''messages'', ''stream'', ''session_id''] @ override_keys)"
      "string_field ''model'' j = Some (ex_model r)" "array_field ''messages'' j = Some items"
      "ex_model r \<noteq> []" "parse_stream j = Inr (ex_stream r)" "parse_session_id j = Inr (ex_session_id r)"
      "parse_generation_overrides api j = Inr (ex_overrides r)" "items \<noteq> []"
      "parse_messages vrs items = Inr (ex_messages r)" "object_field ''schema'' j = Some (ex_schema r)"
    unfolding parse_extraction_request_def bind_result_Inr_iff parse_body_Inr_iff
      reject_api_Inr_iff require_Inr_iff guard_Inr_iff
    by fastforce
  note ms = parse_messages_Inr [OF j(11)]
  then have "length items = length (ex_messages r)" by (metis length_map)
  with j(10) have "ex_messages r \<noteq> []" by auto
  with j ms show ?thesis
    by (intro exI [of _ j] exI [of _ items])
      (simp add: field_iffs parse_stream_Inr_iff parse_session_id_Inr_iff parse_generation_overrides_iff
        del: set_map)
qed

lemma demo_extraction_parses:
  "parse_extraction_request (demo_api (jset ''schema'' (JObject []) demo_chat_json)) demo_validator ''body'' =
     Inr \<lparr>ex_model = ''m'', ex_schema = JObject [], ex_messages = [user_message ''hi''], ex_stream = True,
          ex_session_id = None, ex_overrides = no_overrides\<lparr>ov_top_k := Some 1\<rparr>\<rparr>"
  by code_simp

theorem extraction_request_accepted_wf_witness:
  "\<exists>r j items. parse_extraction_request (demo_api (jset ''schema'' (JObject []) demo_chat_json))
        demo_validator ''body'' = Inr r
    \<and> json_parse (demo_api (jset ''schema'' (JObject []) demo_chat_json)) ''body'' = Inr j
    \<and> jfind ''schema'' j = Some (ex_schema r) \<and> jfind ''messages'' j = Some (JArray items)
    \<and> accepted_sequence demo_validator (ex_messages r) \<and> ex_messages r = [user_message ''hi'']"
proof -
  from extraction_request_accepted_wf [OF demo_extraction_parses] obtain j items where
    "json_parse (demo_api (jset ''schema'' (JObject []) demo_chat_json)) ''body'' = Inr j"
    "jfind ''schema'' j = Some (JObject [])" "jfind ''messages'' j = Some (JArray items)"
    "accepted_sequence demo_validator [user_message ''hi'']"
    by auto
  with demo_extraction_parses show ?thesis by fastforce
qed

text \<open>
  C33. Whatever body is sent, each of the seven request parsers either accepts it or refuses it with
  status 400 and the error type that goes with it: no input makes a parser answer anything else.
\<close>

theorem request_refusals_are_client_errors:
  "refuses_as_client_error (parse_chat_completion_request api vrs body)
   \<and> refuses_as_client_error (parse_extraction_request api vrs body)
   \<and> refuses_as_client_error (parse_agent_chat_request api vrs body)
   \<and> refuses_as_client_error (parse_agent_history_request api vrs body)
   \<and> refuses_as_client_error (parse_agent_history_message_request api vrs body)
   \<and> refuses_as_client_error (parse_session_create_request api body)
   \<and> refuses_as_client_error (parse_system_prompt_request api body)"
  unfolding parse_chat_completion_request_def parse_extraction_request_def parse_agent_chat_request_def
    parse_agent_history_request_def parse_agent_history_message_request_def
    parse_session_create_request_def parse_system_prompt_request_def
  by (intro conjI refuses_bind refuses_basic refuses_parse_messages refuses_single_message
      refuses_overrides refuses_stream_session refuses_Inr)

text \<open>
  C34. The history written by \<^verbatim>\<open>GET /v1/agent/history\<close> can be installed again: a body whose
  \<^verbatim>\<open>messages\<close> member is the array that endpoint wrote is parsed by the history replacement parser
  to exactly the same messages, provided the messages have the shape the parsers produce, tool
  messages carry a non-empty call id and the role validator accepts the sequence.
\<close>

theorem history_round_trip:
  assumes "list_all writable_message (ah_messages h)" and "standard_role_names r2s"
    and "accepted_sequence vrs (ah_messages h)"
    and "jfind ''messages'' (make_agent_history_body r2s h) = Some written"
    and "json_parse api body = Inr (JObject [(''messages'', written)])"
  shows "parse_agent_history_request api vrs body = Inr (ah_messages h)"
proof -
  have "written = JArray (map (make_message_body r2s) (ah_messages h))"
    using assms(4) by (simp add: make_agent_history_body_def jfind_json_object)
  with assms(5) parse_messages_bodies [OF assms(1,2,3)] show ?thesis
    by (simp add: parse_agent_history_request_def parse_body_def reject_api_unknown_keys_def
        reject_unknown_keys_def array_field_def jfind_def require_def)
qed

definition demo_history :: agent_history_snapshot where
  "demo_history = \<lparr>ah_messages = [user_message ''hi'',
       assistant_with_tool_calls ''calling'' [\<lparr>call_id = ''c1'', call_name = ''f'', call_arguments = ''{}''\<rparr>],
       tool_message ''42'' ''c1''],
     ah_estimated_tokens = 9, ah_context_size = 100, ah_context_exceeded = False\<rparr>"

definition demo_written :: json where
  "demo_written = JArray (map (make_message_body role_name) (ah_messages demo_history))"

theorem history_round_trip_witness:
  "parse_agent_history_request (demo_api (JObject [(''messages'', demo_written)])) demo_validator ''body''
     = Inr (ah_messages demo_history)"
proof (rule history_round_trip [where r2s = role_name])
  show "list_all writable_message (ah_messages demo_history)"
    by (simp add: demo_history_def writable_message_def message_shape_def user_message_def
        assistant_with_tool_calls_def tool_message_def)
  show "standard_role_names role_name" by (simp add: standard_role_names_def)
  show "accepted_sequence demo_validator (ah_messages demo_history)" by code_simp
  show "jfind ''messages'' (make_agent_history_body role_name demo_history) = Some demo_written"
    by (simp add: make_agent_history_body_def jfind_json_object demo_written_def)
  show "json_parse (demo_api (JObject [(''messages'', demo_written)])) ''body'' =
      Inr (JObject [(''messages'', demo_written)])"
    by (simp add: demo_api_def)
qed

text \<open>
  The condition on the call id cannot be dropped: the parser accepts a tool message whose call
  id is the empty string, and the body written for that message is refused when it is sent back.
\<close>

theorem empty_tool_call_id_lost:
  assumes "vrs [] Tool = Inr ()" and "standard_role_names r2s"
  shows "\<exists>j m e. parse_message vrs j [] = Inr (m, [m])
    \<and> parse_message vrs (make_message_body r2s m) [] = Inl e
    \<and> err_message e = ''tool messages must include a string tool_call_id''"
proof -
  let ?j = "JObject [(''content'', JString []), (''role'', JString ''tool''), (''tool_call_id'', JString [])]"
  let ?m = "tool_message [] []"
  have "parse_message vrs ?j [] = Inr (?m, [?m])"
    using assms(1)
    by (simp add: parse_message_def reject_api_unknown_keys_def reject_unknown_keys_def require_def
        string_field_def jfind_def parse_role_def build_message_def guard_def validate_message_sequence_def)
  moreover have "reject_api_unknown_keys (make_message_body r2s ?m) ''message''
      [''role'', ''content'', ''tool_call_id'', ''tool_calls''] = Inr ()"
    using make_message_body_keys [of r2s ?m] by (simp add: reject_api_Inr_iff del: set_map)
  then have "parse_message vrs (make_message_body r2s ?m) [] =
     Inl (invalid_request_error ''tool messages must include a string tool_call_id'' (Some ''messages'') None)"
    using parse_role_name [OF assms(2), of Tool]
    by (simp add: parse_message_def require_def string_field_def make_message_body_find
        build_message_def guard_def tool_message_def)
  ultimately show ?thesis by (intro exI conjI) (assumption, assumption, simp add: error_defs)
qed

theorem empty_tool_call_id_lost_witness:
  "\<exists>j m e. parse_message (\<lambda>_ _. Inr ()) j [] = Inr (m, [m])
    \<and> parse_message (\<lambda>_ _. Inr ()) (make_message_body role_name m) [] = Inl e
    \<and> err_message e = ''tool messages must include a string tool_call_id''"
  by (rule empty_tool_call_id_lost) (simp_all add: standard_role_names_def)

text \<open>
  Every runtime error becomes a well-formed API error that keeps its message and has a code.
  The client is blamed (400) exactly for the errors about its request, 503 is answered exactly
  when the agent is stopped, the request was cancelled or the queue is full, 404 and 409 exactly
  for a missing and a duplicate model, and everything else is 500.
\<close>

theorem runtime_error_mapping:
  "let a = map_runtime_error_to_api_error e; c = rt_code e in
     api_error_wf a \<and> err_message a = rt_message e \<and> err_code a \<noteq> None
     \<and> http_status a =
         (if c \<in> {InvalidConfig, InvalidSamplingParams, ContextWindowExceeded, InvalidMessageSequence,
                  ToolNotFound, InvalidOutputSchema, InvalidModelIdentifier} then 400
          else if c \<in> {AgentNotRunning, RequestCancelled, QueueFull} then 503
          else if c = ModelNotFound then 404
          else if c = ModelAlreadyExists then 409
          else 500)"
  by (cases "rt_code e")
    (simp_all add: map_runtime_error_to_api_error_def Let_def error_defs api_error_wf_def)

end
