(* ===== verification/Metrics.thy ===== *)
theory Metrics
  imports Api_Json
begin

text \<open>
  \<^verbatim>\<open>src/server/metrics.hpp\<close>, \<^verbatim>\<open>metrics.cpp\<close>, \<^verbatim>\<open>route_utils.hpp\<close> and \<^verbatim>\<open>route_utils.cpp\<close>: the
  request counters.

  A counter is a \<^verbatim>\<open>std::atomic<uint64_t>\<close>, here a 64-bit word, so the increments wrap as the
  code's do. An increment is one atomic step; a handler's sequence of increments is a list of
  \<open>metric_event\<close>s, and since each event adds constants to separate counters the order in which
  concurrent handlers interleave does not matter. The last theorem gives every counter as the
  exact count of the events it is meant to count.
\<close>

record server_metrics =
  m_requests_total :: u64
  m_requests_errors :: u64
  m_requests_cancelled_total :: u64
  m_requests_queue_rejected_total :: u64
  m_stream_disconnects_total :: u64
  m_tool_invocations_total :: u64
  m_tool_failures_total :: u64
  m_tool_timeouts_total :: u64
  m_start_time :: int

record metrics_snapshot =
  snap_requests_total :: u64
  snap_requests_errors :: u64
  snap_requests_cancelled_total :: u64
  snap_requests_queue_rejected_total :: u64
  snap_stream_disconnects_total :: u64
  snap_tool_invocations_total :: u64
  snap_tool_failures_total :: u64
  snap_tool_timeouts_total :: u64
  snap_active_sessions :: nat
  snap_model_id :: string
  snap_uptime_seconds :: int

definition make_metrics :: "int \<Rightarrow> server_metrics" where
  "make_metrics now = \<lparr>m_requests_total = 0, m_requests_errors = 0, m_requests_cancelled_total = 0,
     m_requests_queue_rejected_total = 0, m_stream_disconnects_total = 0,
     m_tool_invocations_total = 0, m_tool_failures_total = 0, m_tool_timeouts_total = 0,
     m_start_time = now\<rparr>"

definition increment_requests :: "server_metrics \<Rightarrow> server_metrics" where
  "increment_requests m = m\<lparr>m_requests_total := m_requests_total m + 1\<rparr>"

definition increment_errors :: "server_metrics \<Rightarrow> server_metrics" where
  "increment_errors m = m\<lparr>m_requests_errors := m_requests_errors m + 1\<rparr>"

definition increment_cancelled :: "server_metrics \<Rightarrow> server_metrics" where
  "increment_cancelled m = m\<lparr>m_requests_cancelled_total := m_requests_cancelled_total m + 1\<rparr>"

definition increment_queue_rejected :: "server_metrics \<Rightarrow> server_metrics" where
  "increment_queue_rejected m =
     m\<lparr>m_requests_queue_rejected_total := m_requests_queue_rejected_total m + 1\<rparr>"

definition increment_stream_disconnects :: "server_metrics \<Rightarrow> server_metrics" where
  "increment_stream_disconnects m = m\<lparr>m_stream_disconnects_total := m_stream_disconnects_total m + 1\<rparr>"

definition increment_tool_invocations :: "server_metrics \<Rightarrow> server_metrics" where
  "increment_tool_invocations m = m\<lparr>m_tool_invocations_total := m_tool_invocations_total m + 1\<rparr>"

definition increment_tool_failures :: "server_metrics \<Rightarrow> server_metrics" where
  "increment_tool_failures m = m\<lparr>m_tool_failures_total := m_tool_failures_total m + 1\<rparr>"

definition increment_tool_timeouts :: "server_metrics \<Rightarrow> server_metrics" where
  "increment_tool_timeouts m = m\<lparr>m_tool_timeouts_total := m_tool_timeouts_total m + 1\<rparr>"

lemmas increment_defs = increment_requests_def increment_errors_def increment_cancelled_def
  increment_queue_rejected_def increment_stream_disconnects_def increment_tool_invocations_def
  increment_tool_failures_def increment_tool_timeouts_def

text \<open>\<^verbatim>\<open>uptime_seconds\<close>: whole seconds between two readings of the steady clock in nanoseconds.\<close>

definition uptime_seconds :: "int \<Rightarrow> server_metrics \<Rightarrow> int" where
  "uptime_seconds now m = (now - m_start_time m) div 1000000000"

definition populate_snapshot :: "server_metrics \<Rightarrow> metrics_snapshot \<Rightarrow> metrics_snapshot" where
  "populate_snapshot m snapshot = snapshot\<lparr>
     snap_requests_total := m_requests_total m,
     snap_requests_errors := m_requests_errors m,
     snap_requests_cancelled_total := m_requests_cancelled_total m,
     snap_requests_queue_rejected_total := m_requests_queue_rejected_total m,
     snap_stream_disconnects_total := m_stream_disconnects_total m,
     snap_tool_invocations_total := m_tool_invocations_total m,
     snap_tool_failures_total := m_tool_failures_total m,
     snap_tool_timeouts_total := m_tool_timeouts_total m\<rparr>"

definition metrics_to_json :: "metrics_snapshot \<Rightarrow> json" where
  "metrics_to_json s = json_object
     [(''requests_total'', JUInt (unat (snap_requests_total s))),
      (''requests_errors'', JUInt (unat (snap_requests_errors s))),
      (''requests_cancelled_total'', JUInt (unat (snap_requests_cancelled_total s))),
      (''requests_queue_rejected_total'', JUInt (unat (snap_requests_queue_rejected_total s))),
      (''stream_disconnects_total'', JUInt (unat (snap_stream_disconnects_total s))),
      (''tool_invocations_total'', JUInt (unat (snap_tool_invocations_total s))),
      (''tool_failures_total'', JUInt (unat (snap_tool_failures_total s))),
      (''tool_timeouts_total'', JUInt (unat (snap_tool_timeouts_total s))),
      (''active_sessions'', JUInt (snap_active_sessions s)),
      (''model_id'', JString (snap_model_id s)),
      (''uptime_seconds'', JInt (snap_uptime_seconds s))]"

section \<open>Route helpers\<close>

text \<open>The effect of the callback \<^verbatim>\<open>with_metrics\<close> returns, before it passes the response on.\<close>

definition with_metrics :: "http_response \<Rightarrow> server_metrics \<Rightarrow> server_metrics" where
  "with_metrics resp m =
     (let m' = increment_requests m in if 400 \<le> resp_status resp then increment_errors m' else m')"

definition increment_runtime_error_metrics :: "runtime_error \<Rightarrow> server_metrics \<Rightarrow> server_metrics" where
  "increment_runtime_error_metrics error m =
     (if rt_code error = RequestCancelled then increment_cancelled m
      else if rt_code error = QueueFull then increment_queue_rejected m else m)"

definition tool_timed_out :: "tool_invocation \<Rightarrow> bool" where
  "tool_timed_out invocation =
     (case inv_error invocation of None \<Rightarrow> False | Some e \<Rightarrow> rt_context e = Some ''timeout'')"

fun increment_tool_metrics :: "tool_invocation list \<Rightarrow> server_metrics \<Rightarrow> server_metrics" where
  "increment_tool_metrics [] m = m"
| "increment_tool_metrics (invocation # rest) m =
     (let m1 = increment_tool_invocations m in
      if inv_status invocation = Succeeded then increment_tool_metrics rest m1
      else let m2 = increment_tool_failures m1;
               m3 = (if tool_timed_out invocation then increment_tool_timeouts m2 else m2)
           in increment_tool_metrics rest m3)"

section \<open>Accounting\<close>

datatype metric_event =
    Responded http_response
  | Runtime_failed runtime_error
  | Tools_ran "tool_invocation list"
  | Stream_disconnected

fun metric_step :: "metric_event \<Rightarrow> server_metrics \<Rightarrow> server_metrics" where
  "metric_step (Responded resp) = with_metrics resp"
| "metric_step (Runtime_failed e) = increment_runtime_error_metrics e"
| "metric_step (Tools_ran invs) = increment_tool_metrics invs"
| "metric_step Stream_disconnected = increment_stream_disconnects"

text \<open>What the events are, as counts: answers, error answers, and the tool invocations.\<close>

definition answers :: "metric_event list \<Rightarrow> http_response list" where
  "answers es = concat (map (\<lambda>e. case e of Responded r \<Rightarrow> [r] | _ \<Rightarrow> []) es)"

definition failures :: "metric_event list \<Rightarrow> runtime_error list" where
  "failures es = concat (map (\<lambda>e. case e of Runtime_failed r \<Rightarrow> [r] | _ \<Rightarrow> []) es)"

definition invocations :: "metric_event list \<Rightarrow> tool_invocation list" where
  "invocations es = concat (map (\<lambda>e. case e of Tools_ran is \<Rightarrow> is | _ \<Rightarrow> []) es)"

definition count :: "('a \<Rightarrow> bool) \<Rightarrow> 'a list \<Rightarrow> nat" where
  "count P xs = length (filter P xs)"

lemma count_simps [simp]:
  "count P [] = 0" "count P (x # xs) = (if P x then Suc (count P xs) else count P xs)"
  "count P (xs @ ys) = count P xs + count P ys"
  by (simp_all add: count_def)

lemma tool_metrics_count:
  "m_tool_invocations_total (increment_tool_metrics invs m) =
     m_tool_invocations_total m + of_nat (length invs)"
  "m_tool_failures_total (increment_tool_metrics invs m) =
     m_tool_failures_total m + of_nat (count (\<lambda>i. inv_status i \<noteq> Succeeded) invs)"
  "m_tool_timeouts_total (increment_tool_metrics invs m) =
     m_tool_timeouts_total m + of_nat (count (\<lambda>i. inv_status i \<noteq> Succeeded \<and> tool_timed_out i) invs)"
  by (induction invs arbitrary: m) (simp_all add: Let_def increment_defs)

lemma tool_metrics_frame [simp]:
  "m_requests_total (increment_tool_metrics invs m) = m_requests_total m"
  "m_requests_errors (increment_tool_metrics invs m) = m_requests_errors m"
  "m_requests_cancelled_total (increment_tool_metrics invs m) = m_requests_cancelled_total m"
  "m_requests_queue_rejected_total (increment_tool_metrics invs m) = m_requests_queue_rejected_total m"
  "m_stream_disconnects_total (increment_tool_metrics invs m) = m_stream_disconnects_total m"
  by (induction invs arbitrary: m) (simp_all add: Let_def increment_defs)

lemma event_lists_simps [simp]:
  "answers [] = []" "failures [] = []" "invocations [] = []"
  "answers (e # es) = (case e of Responded r \<Rightarrow> [r] | _ \<Rightarrow> []) @ answers es"
  "failures (e # es) = (case e of Runtime_failed r \<Rightarrow> [r] | _ \<Rightarrow> []) @ failures es"
  "invocations (e # es) = (case e of Tools_ran is \<Rightarrow> is | _ \<Rightarrow> []) @ invocations es"
  by (simp_all add: answers_def failures_def invocations_def)

lemma fold_metric_step_request_counters:
  "m_requests_total (fold metric_step es m) = m_requests_total m + of_nat (length (answers es))"
  "m_requests_errors (fold metric_step es m) =
     m_requests_errors m + of_nat (count (\<lambda>r. 400 \<le> resp_status r) (answers es))"
  "m_requests_cancelled_total (fold metric_step es m) =
     m_requests_cancelled_total m + of_nat (count (\<lambda>e. rt_code e = RequestCancelled) (failures es))"
  "m_requests_queue_rejected_total (fold metric_step es m) =
     m_requests_queue_rejected_total m + of_nat (count (\<lambda>e. rt_code e = QueueFull) (failures es))"
  by (induction es arbitrary: m; simp split: metric_event.splits;
      simp add: with_metrics_def increment_runtime_error_metrics_def increment_defs Let_def)+

lemma fold_metric_step_disconnects:
  "m_stream_disconnects_total (fold metric_step es m) =
     m_stream_disconnects_total m + of_nat (count ((=) Stream_disconnected) es)"
proof (induction es arbitrary: m)
  case (Cons e es)
  then show ?case
    by (cases e)
      (simp_all add: with_metrics_def increment_runtime_error_metrics_def increment_defs Let_def)
qed simp

lemma fold_metric_step_tool_counters:
  "m_tool_invocations_total (fold metric_step es m) =
     m_tool_invocations_total m + of_nat (length (invocations es))"
  "m_tool_failures_total (fold metric_step es m) =
     m_tool_failures_total m + of_nat (count (\<lambda>i. inv_status i \<noteq> Succeeded) (invocations es))"
  "m_tool_timeouts_total (fold metric_step es m) =
     m_tool_timeouts_total m +
       of_nat (count (\<lambda>i. inv_status i \<noteq> Succeeded \<and> tool_timed_out i) (invocations es))"
  by (induction es arbitrary: m; simp split: metric_event.splits;
      simp add: tool_metrics_count with_metrics_def increment_runtime_error_metrics_def increment_defs Let_def)+

section \<open>Properties\<close>

text \<open>
  After any sequence of answers, runtime failures, tool runs and stream disconnects a server
  started at zero reports, in its snapshot and modulo the 64-bit wrap-around, exactly: the answers
  sent, those with a status of 400 or more, the requests cancelled and the requests refused by a
  full queue, the stream disconnects, the tool invocations, the ones that did not succeed and the
  ones among these that timed out.
\<close>

theorem metrics_account_exactly:
  "let snap = populate_snapshot (fold metric_step es (make_metrics now)) s in
     snap_requests_total snap = of_nat (length (answers es))
     \<and> snap_requests_errors snap = of_nat (count (\<lambda>r. 400 \<le> resp_status r) (answers es))
     \<and> snap_requests_cancelled_total snap = of_nat (count (\<lambda>e. rt_code e = RequestCancelled) (failures es))
     \<and> snap_requests_queue_rejected_total snap = of_nat (count (\<lambda>e. rt_code e = QueueFull) (failures es))
     \<and> snap_stream_disconnects_total snap = of_nat (count ((=) Stream_disconnected) es)
     \<and> snap_tool_invocations_total snap = of_nat (length (invocations es))
     \<and> snap_tool_failures_total snap = of_nat (count (\<lambda>i. inv_status i \<noteq> Succeeded) (invocations es))
     \<and> snap_tool_timeouts_total snap =
         of_nat (count (\<lambda>i. inv_status i \<noteq> Succeeded \<and> tool_timed_out i) (invocations es))"
  by (simp add: Let_def populate_snapshot_def make_metrics_def fold_metric_step_request_counters
      fold_metric_step_tool_counters fold_metric_step_disconnects)

end
