(* ===== verification/Zoo_Adapter.thy ===== *)
theory Zoo_Adapter
  imports Api_Json
begin

text \<open>
  \<^verbatim>\<open>src/server/zoo_adapter.cpp\<close>: the conversions between the zoo library's structures and the
  server's, and the merge of a request's sampling overrides onto the server's defaults.

  The zoo structures carry the members the adapter names; \<open>generation_options\<close> is used through
  its record scheme, so that what is proved holds whatever further members the library has.
  \<open>response_conversion\<close> states what both response conversions promise.
\<close>

section \<open>The library's structures\<close>

record tool_metadata =
  tm_name :: string
  tm_description :: string
  tm_parameters_schema :: json

record token_usage =
  zu_prompt_tokens :: int
  zu_completion_tokens :: int
  zu_total_tokens :: int

record zoo_metrics =
  zm_latency_ms :: int
  zm_time_to_first_token_ms :: int
  zm_tokens_per_second :: "64 word"

record text_response =
  tr_text :: string
  tr_usage :: token_usage
  tr_metrics :: zoo_metrics
  tr_tool_trace :: "tool_invocation list option"

record extraction_response =
  xr_text :: string
  xr_data :: json
  xr_usage :: token_usage
  xr_metrics :: zoo_metrics
  xr_tool_trace :: "tool_invocation list option"

record sampling_params =
  sp_temperature :: "32 word"
  sp_top_p :: "32 word"
  sp_top_k :: int
  sp_repeat_penalty :: "32 word"
  sp_repeat_last_n :: int
  sp_seed :: int

record generation_options =
  go_sampling :: sampling_params
  go_max_tokens :: int
  go_stop_sequences :: "string list"
  go_record_tool_trace :: bool

section \<open>Conversions\<close>

definition from_zoo_tool_metadata :: "tool_metadata \<Rightarrow> tool_definition" where
  "from_zoo_tool_metadata metadata =
     \<lparr>td_name = tm_name metadata, td_description = tm_description metadata,
      parameters_schema = tm_parameters_schema metadata\<rparr>"

fun from_zoo_tool_metadata_list :: "tool_metadata list \<Rightarrow> tool_definition list" where
  "from_zoo_tool_metadata_list [] = []"
| "from_zoo_tool_metadata_list (entry # rest) =
     from_zoo_tool_metadata entry # from_zoo_tool_metadata_list rest"

definition default_usage :: completion_usage where
  "default_usage = \<lparr>prompt_tokens = 0, completion_tokens = 0, total_tokens = 0\<rparr>"

definition default_metrics :: completion_metrics where
  "default_metrics = \<lparr>latency_ms = 0, time_to_first_token_ms = 0, tokens_per_second = 0\<rparr>"

definition default_completion_result :: completion_result where
  "default_completion_result =
     \<lparr>cr_text = [], cr_usage = default_usage, cr_metrics = default_metrics, cr_tool_invocations = []\<rparr>"

definition default_extraction_result :: extraction_result where
  "default_extraction_result = \<lparr>er_text = [], er_data = JNull, er_usage = default_usage,
     er_metrics = default_metrics, er_tool_invocations = []\<rparr>"

definition convert_usage :: "token_usage \<Rightarrow> completion_usage" where
  "convert_usage u = \<lparr>prompt_tokens = zu_prompt_tokens u, completion_tokens = zu_completion_tokens u,
     total_tokens = zu_total_tokens u\<rparr>"

definition convert_metrics :: "zoo_metrics \<Rightarrow> completion_metrics" where
  "convert_metrics m = \<lparr>latency_ms = zm_latency_ms m,
     time_to_first_token_ms = zm_time_to_first_token_ms m, tokens_per_second = zm_tokens_per_second m\<rparr>"

definition from_zoo_response :: "text_response \<Rightarrow> completion_result" where
  "from_zoo_response response =
     (let converted = default_completion_result\<lparr>cr_text := tr_text response,
            cr_usage := convert_usage (tr_usage response),
            cr_metrics := convert_metrics (tr_metrics response)\<rparr>
      in case tr_tool_trace response of
           None \<Rightarrow> converted
         | Some calls \<Rightarrow> converted\<lparr>cr_tool_invocations := calls\<rparr>)"

definition from_zoo_extraction_response :: "extraction_response \<Rightarrow> extraction_result" where
  "from_zoo_extraction_response response =
     (let converted = default_extraction_result\<lparr>er_text := xr_text response, er_data := xr_data response,
            er_usage := convert_usage (xr_usage response),
            er_metrics := convert_metrics (xr_metrics response)\<rparr>
      in case xr_tool_trace response of
           None \<Rightarrow> converted
         | Some calls \<Rightarrow> converted\<lparr>er_tool_invocations := calls\<rparr>)"

section \<open>Overrides\<close>

text \<open>\<^verbatim>\<open>if (request.f) opts.f = *request.f\<close>.\<close>

definition override_with :: "'v option \<Rightarrow> ('v \<Rightarrow> 'o \<Rightarrow> 'o) \<Rightarrow> 'o \<Rightarrow> 'o" where
  "override_with v upd opts = (case v of None \<Rightarrow> opts | Some x \<Rightarrow> upd x opts)"

definition set_sampling ::
  "(sampling_params \<Rightarrow> sampling_params) \<Rightarrow> 'r generation_options_scheme \<Rightarrow> 'r generation_options_scheme" where
  "set_sampling f opts = opts\<lparr>go_sampling := f (go_sampling opts)\<rparr>"

definition merge_request_overrides_impl ::
  "'r generation_options_scheme \<Rightarrow> generation_overrides \<Rightarrow> 'r generation_options_scheme" where
  "merge_request_overrides_impl defaults request =
     (let opts = defaults;
          opts = override_with (ov_temperature request) (\<lambda>v. set_sampling (\<lambda>s. s\<lparr>sp_temperature := v\<rparr>)) opts;
          opts = override_with (ov_top_p request) (\<lambda>v. set_sampling (\<lambda>s. s\<lparr>sp_top_p := v\<rparr>)) opts;
          opts = override_with (ov_top_k request) (\<lambda>v. set_sampling (\<lambda>s. s\<lparr>sp_top_k := v\<rparr>)) opts;
          opts = override_with (ov_repeat_penalty request) (\<lambda>v. set_sampling (\<lambda>s. s\<lparr>sp_repeat_penalty := v\<rparr>)) opts;
          opts = override_with (ov_repeat_last_n request) (\<lambda>v. set_sampling (\<lambda>s. s\<lparr>sp_repeat_last_n := v\<rparr>)) opts;
          opts = override_with (ov_max_tokens request) (\<lambda>v opts. opts\<lparr>go_max_tokens := v\<rparr>) opts;
          opts = override_with (ov_seed request) (\<lambda>v. set_sampling (\<lambda>s. s\<lparr>sp_seed := v\<rparr>)) opts;
          opts = override_with (ov_stop request) (\<lambda>v opts. opts\<lparr>go_stop_sequences := v\<rparr>) opts
      in override_with (ov_record_tool_trace request) (\<lambda>v opts. opts\<lparr>go_record_tool_trace := v\<rparr>) opts)"

definition merge_chat_overrides ::
  "'r generation_options_scheme \<Rightarrow> chat_completion_request \<Rightarrow> 'r generation_options_scheme" where
  "merge_chat_overrides defaults request = merge_request_overrides_impl defaults (cc_overrides request)"

definition merge_extraction_overrides ::
  "'r generation_options_scheme \<Rightarrow> extraction_request \<Rightarrow> 'r generation_options_scheme" where
  "merge_extraction_overrides defaults request = merge_request_overrides_impl defaults (ex_overrides request)"

definition merge_agent_overrides ::
  "'r generation_options_scheme \<Rightarrow> agent_chat_request \<Rightarrow> 'r generation_options_scheme" where
  "merge_agent_overrides defaults request = merge_request_overrides_impl defaults (ac_overrides request)"

section \<open>The contract of the conversions\<close>

locale response_conversion =
  fixes convert :: "'z \<Rightarrow> 'r"
    and ztext :: "'z \<Rightarrow> string" and zusage :: "'z \<Rightarrow> token_usage"
    and ztrace :: "'z \<Rightarrow> tool_invocation list option"
    and rtext :: "'r \<Rightarrow> string" and rusage :: "'r \<Rightarrow> completion_usage"
    and rcalls :: "'r \<Rightarrow> tool_invocation list"
  assumes text_kept: "rtext (convert z) = ztext z"
    and usage_kept: "rusage (convert z) = convert_usage (zusage z)"
    and calls_kept: "rcalls (convert z) = (case ztrace z of None \<Rightarrow> [] | Some cs \<Rightarrow> cs)"
begin

lemma total_kept: "total_tokens (rusage (convert z)) = zu_total_tokens (zusage z)"
  by (simp add: usage_kept convert_usage_def)

lemma no_trace_no_calls: "ztrace z = None \<Longrightarrow> rcalls (convert z) = []"
  by (simp add: calls_kept)

end

interpretation text_conversion: response_conversion from_zoo_response tr_text tr_usage tr_tool_trace
    cr_text cr_usage cr_tool_invocations
  by unfold_locales (simp_all add: from_zoo_response_def default_completion_result_def Let_def split: option.splits)

interpretation extraction_conversion: response_conversion from_zoo_extraction_response xr_text xr_usage
    xr_tool_trace er_text er_usage er_tool_invocations
  by unfold_locales
    (simp_all add: from_zoo_extraction_response_def default_extraction_result_def Let_def split: option.splits)

lemma from_zoo_tool_metadata_list_map:
  "from_zoo_tool_metadata_list ms = map from_zoo_tool_metadata ms"
  by (induction ms) auto

section \<open>Properties\<close>

definition given_or :: "'v option \<Rightarrow> 'v \<Rightarrow> 'v" where
  "given_or v d = (case v of None \<Rightarrow> d | Some x \<Rightarrow> x)"

text \<open>An override as an unconditional update: the member becomes the given value or keeps its own.\<close>

lemma override_with_updates:
  "override_with v1 (\<lambda>v. set_sampling (\<lambda>s. s\<lparr>sp_temperature := v\<rparr>)) opts =
     set_sampling (\<lambda>s. s\<lparr>sp_temperature := given_or v1 (sp_temperature s)\<rparr>) opts"
  "override_with v1 (\<lambda>v. set_sampling (\<lambda>s. s\<lparr>sp_top_p := v\<rparr>)) opts =
     set_sampling (\<lambda>s. s\<lparr>sp_top_p := given_or v1 (sp_top_p s)\<rparr>) opts"
  "override_with v2 (\<lambda>v. set_sampling (\<lambda>s. s\<lparr>sp_top_k := v\<rparr>)) opts =
     set_sampling (\<lambda>s. s\<lparr>sp_top_k := given_or v2 (sp_top_k s)\<rparr>) opts"
  "override_with v1 (\<lambda>v. set_sampling (\<lambda>s. s\<lparr>sp_repeat_penalty := v\<rparr>)) opts =
     set_sampling (\<lambda>s. s\<lparr>sp_repeat_penalty := given_or v1 (sp_repeat_penalty s)\<rparr>) opts"
  "override_with v2 (\<lambda>v. set_sampling (\<lambda>s. s\<lparr>sp_repeat_last_n := v\<rparr>)) opts =
     set_sampling (\<lambda>s. s\<lparr>sp_repeat_last_n := given_or v2 (sp_repeat_last_n s)\<rparr>) opts"
  "override_with v2 (\<lambda>v. set_sampling (\<lambda>s. s\<lparr>sp_seed := v\<rparr>)) opts =
     set_sampling (\<lambda>s. s\<lparr>sp_seed := given_or v2 (sp_seed s)\<rparr>) opts"
  "override_with v2 (\<lambda>v opts. opts\<lparr>go_max_tokens := v\<rparr>) opts =
     opts\<lparr>go_max_tokens := given_or v2 (go_max_tokens opts)\<rparr>"
  "override_with v3 (\<lambda>v opts. opts\<lparr>go_stop_sequences := v\<rparr>) opts =
     opts\<lparr>go_stop_sequences := given_or v3 (go_stop_sequences opts)\<rparr>"
  "override_with v4 (\<lambda>v opts. opts\<lparr>go_record_tool_trace := v\<rparr>) opts =
     opts\<lparr>go_record_tool_trace := given_or v4 (go_record_tool_trace opts)\<rparr>"
  by (cases v1; cases v2; cases v3; cases v4; simp add: override_with_def set_sampling_def given_or_def)+

lemma merge_request_overrides_fields:
  fixes defaults :: "'r generation_options_scheme"
  shows "go_sampling (merge_request_overrides_impl defaults ov) =
      \<lparr>sp_temperature = given_or (ov_temperature ov) (sp_temperature (go_sampling defaults)),
       sp_top_p = given_or (ov_top_p ov) (sp_top_p (go_sampling defaults)),
       sp_top_k = given_or (ov_top_k ov) (sp_top_k (go_sampling defaults)),
       sp_repeat_penalty = given_or (ov_repeat_penalty ov) (sp_repeat_penalty (go_sampling defaults)),
       sp_repeat_last_n = given_or (ov_repeat_last_n ov) (sp_repeat_last_n (go_sampling defaults)),
       sp_seed = given_or (ov_seed ov) (sp_seed (go_sampling defaults))\<rparr>"
    "go_max_tokens (merge_request_overrides_impl defaults ov) =
       given_or (ov_max_tokens ov) (go_max_tokens defaults)"
    "go_stop_sequences (merge_request_overrides_impl defaults ov) =
       given_or (ov_stop ov) (go_stop_sequences defaults)"
    "go_record_tool_trace (merge_request_overrides_impl defaults ov) =
       given_or (ov_record_tool_trace ov) (go_record_tool_trace defaults)"
    "generation_options.more (merge_request_overrides_impl defaults ov) = generation_options.more defaults"
  by (simp_all add: merge_request_overrides_impl_def Let_def override_with_updates set_sampling_def)

lemma given_or_map: "g (given_or v d) = given_or (map_option g v) (g d)"
  by (cases v) (simp_all add: given_or_def)

text \<open>
  For an accepted chat request the generation options are the defaults with exactly the
  members present in the JSON body replaced by their values: each of the nine settings is the
  value sent if its key is present and the server's default otherwise, and every further member
  of the options is the default's.
\<close>

theorem overrides_reach_generation_options:
  fixes defaults :: "'r generation_options_scheme"
  assumes "parse_chat_completion_request api vrs body = Inr r" and "json_parse api body = Inr j"
  shows "let opts = merge_chat_overrides defaults r; s = go_sampling opts; d = go_sampling defaults in
    sp_temperature s = given_or (map_option (json_get_float api) (jfind ''temperature'' j)) (sp_temperature d)
    \<and> sp_top_p s = given_or (map_option (json_get_float api) (jfind ''top_p'' j)) (sp_top_p d)
    \<and> sp_top_k s = given_or (map_option (json_get_int api) (jfind ''top_k'' j)) (sp_top_k d)
    \<and> sp_repeat_penalty s =
        given_or (map_option (json_get_float api) (jfind ''repeat_penalty'' j)) (sp_repeat_penalty d)
    \<and> sp_repeat_last_n s =
        given_or (map_option (json_get_int api) (jfind ''repeat_last_n'' j)) (sp_repeat_last_n d)
    \<and> sp_seed s = given_or (map_option (json_get_int api) (jfind ''seed'' j)) (sp_seed d)
    \<and> go_max_tokens opts = given_or (map_option (json_get_int api) (jfind ''max_tokens'' j)) (go_max_tokens defaults)
    \<and> JArray (map JString (go_stop_sequences opts)) =
        given_or (jfind ''stop'' j) (JArray (map JString (go_stop_sequences defaults)))
    \<and> JBool (go_record_tool_trace opts) =
        given_or (jfind ''record_tool_trace'' j) (JBool (go_record_tool_trace defaults))
    \<and> generation_options.more opts = generation_options.more defaults"
proof -
  from assms have "overrides_read api j (cc_overrides r)"
    by (auto simp: parse_chat_completion_request_def result_simps)
  then show ?thesis
    by (simp add: overrides_read_def merge_chat_overrides_def merge_request_overrides_fields Let_def
        given_or_map [of "\<lambda>ss. JArray (map JString ss)"] given_or_map [of JBool])
qed

theorem overrides_reach_generation_options_witness:
  "go_max_tokens (merge_chat_overrides
       \<lparr>go_sampling = \<lparr>sp_temperature = 0, sp_top_p = 0, sp_top_k = 40, sp_repeat_penalty = 0,
          sp_repeat_last_n = 64, sp_seed = 0\<rparr>, go_max_tokens = 512, go_stop_sequences = [],
        go_record_tool_trace = True\<rparr>
       \<lparr>cc_model = ''m'', cc_messages = [user_message ''hi''], cc_stream = True, cc_session_id = None,
          cc_overrides = no_overrides\<lparr>ov_top_k := Some 1\<rparr>\<rparr>) = 512"
proof -
  have j: "json_parse (demo_api demo_chat_json) ''body'' = Inr demo_chat_json"
    by (simp add: demo_api_def)
  have absent: "jfind ''max_tokens'' demo_chat_json = None"
    by (simp add: demo_chat_json_def jfind_def)
  show ?thesis
    using overrides_reach_generation_options [OF demo_chat_parses j,
        of "\<lparr>go_sampling = \<lparr>sp_temperature = 0, sp_top_p = 0, sp_top_k = 40, sp_repeat_penalty = 0,
          sp_repeat_last_n = 64, sp_seed = 0\<rparr>, go_max_tokens = 512, go_stop_sequences = [],
          go_record_tool_trace = True\<rparr>"]
    unfolding Let_def absent by (simp add: given_or_def)
qed

end
