(* ===== verification/Stream_Session.thy ===== *)
theory Stream_Session
  imports Streaming Api_Json
begin

text \<open>
  The two event-stream sessions: \<^verbatim>\<open>StreamingSession\<close> of \<^verbatim>\<open>src/server/completion_controller.cpp\<close> and
  \<^verbatim>\<open>ExtractionStreamingSession\<close> of \<^verbatim>\<open>src/server/api_routes.cpp\<close>.

  The members both classes have are the record \<open>stream_session\<close>; the chat session extends it with
  its two flags. The operations the classes have in common with the same body
  (\<^verbatim>\<open>push_frame_locked\<close>, \<^verbatim>\<open>execute_deferred\<close>, \<^verbatim>\<open>set_cancel_callback\<close>, \<^verbatim>\<open>attach_stream\<close>, \<^verbatim>\<open>close\<close>)
  are defined once on the record scheme. Each function body between lock and unlock is one
  definition with the suffix \<open>_locked\<close>, so that interleavings can be stated.

  The connection is drogon's: \<open>accepts sent frame\<close> says whether \<^verbatim>\<open>ResponseStream::send\<close> takes the
  frame after the frames \<open>sent\<close>; the frames taken, whether the stream was closed and how often the
  cancel callback ran are recorded in the last three members.

  The locale \<open>token_stream\<close> is the contract both sessions meet: they refine a three-field abstract
  stream, from which it follows that every token reaches the client once and in order, however
  metadata, attachment and tokens interleave.
\<close>

record stream_session =
  fs_id :: string
  fs_created :: int
  fs_model_id :: string
  fs_metadata_ready :: bool
  fs_stream :: bool
  fs_buffered_frames :: "string list"
  fs_pending_tokens :: "string list"
  fs_cancel_callback :: bool
  fs_closing :: bool
  wire_sent :: "string list"
  wire_closed :: bool
  cancels_run :: nat

record chat_stream = stream_session +
  fs_sent_role :: bool
  fs_sent_content :: bool

type_synonym wire = "string list \<Rightarrow> string \<Rightarrow> bool"

record deferred_actions =
  should_close :: bool
  cancel_cb :: bool

definition no_actions :: deferred_actions where
  "no_actions = \<lparr>should_close = False, cancel_cb = False\<rparr>"

section \<open>The operations both sessions share\<close>

definition push_frame_locked ::
  "wire \<Rightarrow> string \<Rightarrow> 'r stream_session_scheme \<Rightarrow> deferred_actions \<times> 'r stream_session_scheme" where
  "push_frame_locked accepts frame s =
     (if fs_closing s then (no_actions, s)
      else if \<not> fs_stream s then (no_actions, s\<lparr>fs_buffered_frames := fs_buffered_frames s @ [frame]\<rparr>)
      else if accepts (wire_sent s) frame then (no_actions, s\<lparr>wire_sent := wire_sent s @ [frame]\<rparr>)
      else (\<lparr>should_close = True, cancel_cb = fs_cancel_callback s\<rparr>, s\<lparr>fs_closing := True\<rparr>))"

definition execute_deferred ::
  "deferred_actions \<Rightarrow> 'r stream_session_scheme \<Rightarrow> 'r stream_session_scheme" where
  "execute_deferred actions s = (if cancel_cb actions then s\<lparr>cancels_run := cancels_run s + 1\<rparr> else s)"

definition set_cancel_callback :: "'r stream_session_scheme \<Rightarrow> 'r stream_session_scheme" where
  "set_cancel_callback s = s\<lparr>fs_cancel_callback := True\<rparr>"

definition close_stream :: "'r stream_session_scheme \<Rightarrow> 'r stream_session_scheme" where
  "close_stream s =
     (if fs_closing s \<and> \<not> fs_stream s then s
      else if fs_stream s then
        s\<lparr>fs_closing := True, fs_stream := False, fs_buffered_frames := [], wire_closed := True\<rparr>
      else s\<lparr>fs_closing := True\<rparr>)"

text \<open>The loop over the buffered frames: it stops at the first frame the connection refuses.\<close>

fun send_buffered :: "wire \<Rightarrow> string list \<Rightarrow> string list \<Rightarrow> string list \<times> bool" where
  "send_buffered accepts [] sent = (sent, True)"
| "send_buffered accepts (frame # frames) sent =
     (if accepts sent frame then send_buffered accepts frames (sent @ [frame]) else (sent, False))"

definition attach_stream :: "wire \<Rightarrow> 'r stream_session_scheme \<Rightarrow> 'r stream_session_scheme" where
  "attach_stream accepts s =
     (let (sent, ok) = send_buffered accepts (fs_buffered_frames s) (wire_sent s);
          closing' = (fs_closing s \<or> \<not> ok);
          s1 = s\<lparr>fs_stream := True, wire_sent := sent, fs_closing := closing', fs_buffered_frames := []\<rparr>;
          s2 = (if \<not> ok \<and> fs_cancel_callback s then s1\<lparr>cancels_run := cancels_run s1 + 1\<rparr> else s1)
      in if closing' then s2\<lparr>wire_closed := True\<rparr> else s2)"

section \<open>Chat streams\<close>

definition new_stream :: stream_session where
  "new_stream = \<lparr>fs_id = [], fs_created = 0, fs_model_id = [], fs_metadata_ready = False,
     fs_stream = False, fs_buffered_frames = [], fs_pending_tokens = [], fs_cancel_callback = False,
     fs_closing = False, wire_sent = [], wire_closed = False, cancels_run = 0\<rparr>"

definition new_chat_stream :: chat_stream where
  "new_chat_stream = \<lparr>fs_id = [], fs_created = 0, fs_model_id = [], fs_metadata_ready = False,
     fs_stream = False, fs_buffered_frames = [], fs_pending_tokens = [], fs_cancel_callback = False,
     fs_closing = False, wire_sent = [], wire_closed = False, cancels_run = 0,
     fs_sent_role = False, fs_sent_content = False\<rparr>"

definition push_token_locked :: "wire \<Rightarrow> string \<Rightarrow> chat_stream \<Rightarrow> deferred_actions \<times> chat_stream" where
  "push_token_locked accepts token s =
     (if \<not> fs_metadata_ready s then (no_actions, s\<lparr>fs_pending_tokens := fs_pending_tokens s @ [token]\<rparr>)
      else
        let frame = (if \<not> fs_sent_role s
                     then make_first_streaming_chunk (fs_id s) (fs_created s) (fs_model_id s) (Some token) None
                     else make_streaming_chunk (fs_id s) (fs_created s) (fs_model_id s) (Some token) None)
        in push_frame_locked accepts frame (s\<lparr>fs_sent_role := True, fs_sent_content := True\<rparr>))"

definition push_token :: "wire \<Rightarrow> string \<Rightarrow> chat_stream \<Rightarrow> chat_stream" where
  "push_token accepts token s =
     (if token = [] then s
      else
        let (deferred, s1) = push_token_locked accepts token s;
            s2 = execute_deferred deferred s1
        in if should_close deferred then close_stream s2 else s2)"

definition set_metadata_locked ::
  "string \<Rightarrow> int \<Rightarrow> string \<Rightarrow> 'r stream_session_scheme \<Rightarrow> string list \<times> 'r stream_session_scheme" where
  "set_metadata_locked id' created model_id s =
     (fs_pending_tokens s,
      s\<lparr>fs_id := id', fs_created := created, fs_model_id := model_id, fs_metadata_ready := True,
        fs_pending_tokens := []\<rparr>)"

definition set_metadata :: "wire \<Rightarrow> string \<Rightarrow> int \<Rightarrow> string \<Rightarrow> chat_stream \<Rightarrow> chat_stream" where
  "set_metadata accepts completion_id created model_id s =
     (let (pending_tokens, s1) = set_metadata_locked completion_id created model_id s
      in fold (push_token accepts) pending_tokens s1)"

text \<open>The frames of \<^verbatim>\<open>finish_success\<close>, pushed under one lock; the deferred actions run afterwards.\<close>

fun push_frames_locked ::
  "wire \<Rightarrow> string list \<Rightarrow> 'r stream_session_scheme \<Rightarrow> deferred_actions list \<times> 'r stream_session_scheme" where
  "push_frames_locked accepts [] s = ([], s)"
| "push_frames_locked accepts (frame # frames) s =
     (let (d, s1) = push_frame_locked accepts frame s; (ds, s2) = push_frames_locked accepts frames s1
      in (d # ds, s2))"

definition finish_success :: "wire \<Rightarrow> completion_result \<Rightarrow> chat_stream \<Rightarrow> chat_stream" where
  "finish_success accepts response s =
     (let text = cr_text response;
          first = make_first_streaming_chunk (fs_id s) (fs_created s) (fs_model_id s);
          later = make_streaming_chunk (fs_id s) (fs_created s) (fs_model_id s);
          lead = (if \<not> fs_sent_role s then [first (if text = [] then None else Some text) None]
                  else if \<not> fs_sent_content s \<and> text \<noteq> [] then [later (Some text) None] else []);
          (all_deferred, s1) =
            push_frames_locked accepts (lead @ [later None (Some ''stop''), make_sse_done]) s;
          s2 = s1\<lparr>fs_sent_role := True, fs_sent_content := fs_sent_content s \<or> text \<noteq> []\<rparr>
      in close_stream (fold execute_deferred all_deferred s2))"

definition finish_error :: "wire \<Rightarrow> json_api \<Rightarrow> api_error \<Rightarrow> chat_stream \<Rightarrow> chat_stream" where
  "finish_error accepts api error s =
     (let (deferred, s1) =
        (if \<not> fs_sent_content s \<and> \<not> fs_sent_role s
         then push_frame_locked accepts (make_sse_data api (make_error_body error)) s
         else (no_actions, s))
      in close_stream (execute_deferred deferred s1))"

section \<open>Extraction streams\<close>

definition extraction_push_token_locked ::
  "json_api \<Rightarrow> wire \<Rightarrow> string \<Rightarrow> stream_session \<Rightarrow> deferred_actions \<times> stream_session" where
  "extraction_push_token_locked api accepts token s =
     (if \<not> fs_metadata_ready s then (no_actions, s\<lparr>fs_pending_tokens := fs_pending_tokens s @ [token]\<rparr>)
      else push_frame_locked accepts (make_sse_data api (json_object [(''delta'', JString token)])) s)"

definition extraction_push_token :: "json_api \<Rightarrow> wire \<Rightarrow> string \<Rightarrow> stream_session \<Rightarrow> stream_session" where
  "extraction_push_token api accepts token s =
     (if token = [] then s
      else
        let (deferred, s1) = extraction_push_token_locked api accepts token s;
            s2 = execute_deferred deferred s1
        in if should_close deferred then close_stream s2 else s2)"

definition extraction_set_metadata ::
  "json_api \<Rightarrow> wire \<Rightarrow> string \<Rightarrow> int \<Rightarrow> string \<Rightarrow> stream_session \<Rightarrow> stream_session" where
  "extraction_set_metadata api accepts extraction_id created model_id s =
     (let (pending_tokens, s1) = set_metadata_locked extraction_id created model_id s
      in fold (extraction_push_token api accepts) pending_tokens s1)"

definition extraction_finish_success ::
  "json_api \<Rightarrow> (tool_invocation_status \<Rightarrow> string) \<Rightarrow> wire \<Rightarrow> extraction_result \<Rightarrow> stream_session \<Rightarrow> stream_session" where
  "extraction_finish_success api status_to_string accepts response s =
     (let (deferred_actions, s1) =
        push_frames_locked accepts
          [make_sse_data api (make_extraction_body api status_to_string (fs_id s) (fs_created s) (fs_model_id s) response),
           make_sse_done] s
      in close_stream (fold execute_deferred deferred_actions s1))"

definition extraction_finish_error :: "json_api \<Rightarrow> wire \<Rightarrow> api_error \<Rightarrow> stream_session \<Rightarrow> stream_session" where
  "extraction_finish_error api accepts error s =
     (let (deferred, s1) = push_frame_locked accepts (make_sse_data api (make_error_body error)) s
      in close_stream (execute_deferred deferred s1))"

text \<open>\<^verbatim>\<open>make_stream_response\<close>: the stream itself is attached later by the framework.\<close>

definition make_stream_response :: http_response where
  "make_stream_response = \<lparr>resp_status = 200, resp_content_type = Some ''text/event-stream'', resp_body = [],
     resp_headers = [(''Cache-Control'', ''no-cache''), (''Connection'', ''keep-alive''),
       (''X-Accel-Buffering'', ''no'')]\<rparr>"

section \<open>The contract of a token stream\<close>

text \<open>
  The abstract stream: whether the metadata is known, whether the client is attached, and the
  tokens produced so far. The environment produces tokens, announces the metadata once and attaches
  the client once, in any order.
\<close>

record abstract_stream =
  a_ready :: bool
  a_attached :: bool
  a_tokens :: "string list"

datatype stream_op = Token string | Metadata | Attach

fun abs_step :: "stream_op \<Rightarrow> abstract_stream \<Rightarrow> abstract_stream" where
  "abs_step (Token t) a = (if t = [] then a else a\<lparr>a_tokens := a_tokens a @ [t]\<rparr>)"
| "abs_step Metadata a = a\<lparr>a_ready := True\<rparr>"
| "abs_step Attach a = a\<lparr>a_attached := True\<rparr>"

fun enabled :: "stream_op \<Rightarrow> abstract_stream \<Rightarrow> bool" where
  "enabled (Token t) a = True"
| "enabled Metadata a = (\<not> a_ready a)"
| "enabled Attach a = (\<not> a_attached a)"

fun enabled_run :: "stream_op list \<Rightarrow> abstract_stream \<Rightarrow> bool" where
  "enabled_run [] a = True"
| "enabled_run (op # ops) a = (enabled op a \<and> enabled_run ops (abs_step op a))"

definition abs_init :: abstract_stream where
  "abs_init = \<lparr>a_ready = False, a_attached = False, a_tokens = []\<rparr>"

fun produced :: "stream_op list \<Rightarrow> string list" where
  "produced [] = []"
| "produced (Token t # ops) = (if t = [] then [] else [t]) @ produced ops"
| "produced (_ # ops) = produced ops"

lemma abs_run_tokens: "a_tokens (fold abs_step ops a) = a_tokens a @ produced ops"
  by (induction ops arbitrary: a rule: produced.induct) auto

lemma abs_run_flags:
  "a_ready (fold abs_step ops a) = (a_ready a \<or> Metadata \<in> set ops)"
  "a_attached (fold abs_step ops a) = (a_attached a \<or> Attach \<in> set ops)"
  by (induction ops arbitrary: a rule: produced.induct) auto

text \<open>
  A session refines the abstract stream when each operation preserves the representation
  relation, and finishing hands exactly the frames of the tokens and of the result to the client:
  at once when it is attached, at its attachment otherwise.
\<close>

locale token_stream =
  fixes init :: "'s stream_session_scheme"
    and step :: "stream_op \<Rightarrow> 's stream_session_scheme \<Rightarrow> 's stream_session_scheme"
    and finish :: "'res \<Rightarrow> 's stream_session_scheme \<Rightarrow> 's stream_session_scheme"
    and all_frames :: "'res \<Rightarrow> string list \<Rightarrow> string list"
    and rep :: "'s stream_session_scheme \<Rightarrow> abstract_stream \<Rightarrow> bool"
  assumes rep_init: "rep init abs_init"
    and rep_step: "rep s a \<Longrightarrow> enabled op a \<Longrightarrow> rep (step op s) (abs_step op a)"
    and finish_attached: "rep s a \<Longrightarrow> a_ready a \<Longrightarrow> a_attached a \<Longrightarrow>
      wire_sent (finish r s) = all_frames r (a_tokens a) \<and> wire_closed (finish r s)"
    and finish_detached: "rep s a \<Longrightarrow> a_ready a \<Longrightarrow> \<not> a_attached a \<Longrightarrow>
      wire_sent (step Attach (finish r s)) = all_frames r (a_tokens a) \<and> wire_closed (step Attach (finish r s))"
begin

lemma rep_run: "rep s a \<Longrightarrow> enabled_run ops a \<Longrightarrow> rep (fold step ops s) (fold abs_step ops a)"
proof (induction ops arbitrary: s a)
  case (Cons op ops)
  then have "rep (step op s) (abs_step op a)" and "enabled_run ops (abs_step op a)"
    using rep_step by auto
  with Cons.IH show ?case by simp
qed simp

lemma delivers:
  assumes "enabled_run ops abs_init" and "Metadata \<in> set ops"
  shows "let s = finish r (fold step ops init);
             s' = (if Attach \<in> set ops then s else step Attach s)
         in wire_sent s' = all_frames r (produced ops) \<and> wire_closed s'"
proof -
  let ?a = "fold abs_step ops abs_init"
  have rep: "rep (fold step ops init) ?a" by (rule rep_run [OF rep_init assms(1)])
  have tokens: "a_tokens ?a = produced ops" and ready: "a_ready ?a"
    and att: "a_attached ?a = (Attach \<in> set ops)"
    using assms(2) by (simp_all add: abs_run_tokens abs_run_flags abs_init_def)
  show ?thesis
    using finish_attached [OF rep ready] finish_detached [OF rep ready] tokens att
    by (simp add: Let_def)
qed

end

section \<open>Both sessions meet it on a connection that accepts every frame\<close>

definition accepts_all :: wire where
  "accepts_all sent frame = True"

lemma send_buffered_all [simp]: "send_buffered accepts_all frames sent = (sent @ frames, True)"
  by (induction frames arbitrary: sent) (simp_all add: accepts_all_def)

text \<open>What a session holds: tokens not yet framed, or the frames sent followed by those buffered.\<close>

definition holds :: "'r stream_session_scheme \<Rightarrow> abstract_stream \<Rightarrow> string list \<Rightarrow> bool" where
  "holds s a frames \<longleftrightarrow>
     \<not> fs_closing s \<and> fs_metadata_ready s = a_ready a \<and> fs_stream s = a_attached a \<and>
     (if a_ready a then fs_pending_tokens s = [] \<and> wire_sent s @ fs_buffered_frames s = frames
      else fs_pending_tokens s = a_tokens a \<and> wire_sent s = [] \<and> fs_buffered_frames s = []) \<and>
     (if a_attached a then fs_buffered_frames s = [] else wire_sent s = [])"

lemma push_frame_holds:
  assumes "holds s a frames" and "a_ready a"
  shows "\<exists>s'. push_frame_locked accepts_all f s = (no_actions, s')
     \<and> holds s' a (frames @ [f])
     \<and> s' = s\<lparr>fs_buffered_frames := fs_buffered_frames s', wire_sent := wire_sent s'\<rparr>"
  using assms by (auto simp: push_frame_locked_def holds_def accepts_all_def)

lemma push_frames_holds:
  assumes "holds s a frames" and "a_ready a"
  shows "\<exists>s'. push_frames_locked accepts_all fs s = (replicate (length fs) no_actions, s')
     \<and> holds s' a (frames @ fs)
     \<and> s' = s\<lparr>fs_buffered_frames := fs_buffered_frames s', wire_sent := wire_sent s'\<rparr>"
  using assms
proof (induction fs arbitrary: s frames)
  case Nil
  then show ?case by simp
next
  case (Cons f fs)
  from push_frame_holds [OF Cons.prems, of f] obtain s1 where
    1: "push_frame_locked accepts_all f s = (no_actions, s1)" "holds s1 a (frames @ [f])"
    "s1 = s\<lparr>fs_buffered_frames := fs_buffered_frames s1, wire_sent := wire_sent s1\<rparr>" by blast
  from Cons.IH [OF 1(2) Cons.prems(2)] obtain s2 where
    2: "push_frames_locked accepts_all fs s1 = (replicate (length fs) no_actions, s2)"
    "holds s2 a ((frames @ [f]) @ fs)"
    "s2 = s1\<lparr>fs_buffered_frames := fs_buffered_frames s2, wire_sent := wire_sent s2\<rparr>" by blast
  from 1(3) 2(3) have "s2 = s\<lparr>fs_buffered_frames := fs_buffered_frames s2, wire_sent := wire_sent s2\<rparr>"
    by (metis (no_types, lifting) stream_session.surjective stream_session.update_convs(6) stream_session.update_convs(10))
  with 1(1) 2 show ?case by simp
qed

lemma execute_no_actions [simp]: "execute_deferred no_actions s = s"
  by (simp add: execute_deferred_def no_actions_def)

lemma fold_execute_no_actions [simp]: "fold execute_deferred (replicate n no_actions) s = s"
  by (induction n) simp_all

lemma should_close_no_actions [simp]: "\<not> should_close no_actions"
  by (simp add: no_actions_def)

lemma close_after_frames:
  assumes "holds s a frames" and "a_ready a"
  shows "a_attached a \<Longrightarrow> wire_sent (close_stream s) = frames \<and> wire_closed (close_stream s)"
    and "\<not> a_attached a \<Longrightarrow>
      wire_sent (attach_stream accepts_all (close_stream s)) = frames
      \<and> wire_closed (attach_stream accepts_all (close_stream s))"
  using assms by (auto simp: holds_def close_stream_def attach_stream_def)

lemma attach_holds:
  assumes "holds s a frames" and "\<not> a_attached a"
  shows "holds (attach_stream accepts_all s) (a\<lparr>a_attached := True\<rparr>) frames"
  using assms by (auto simp: holds_def attach_stream_def Let_def)

lemma metadata_holds:
  assumes "holds s a frames" and "\<not> a_ready a" and "set_metadata_locked i c m s = (pend, s')"
  shows "pend = a_tokens a \<and> holds s' (a\<lparr>a_ready := True, a_tokens := []\<rparr>) []"
  using assms by (auto simp: holds_def set_metadata_locked_def)

lemma holds_tokens: "a_ready a \<Longrightarrow> holds s (a\<lparr>a_tokens := ts\<rparr>) frames = holds s a frames"
  by (simp add: holds_def)


text \<open>The chat session.\<close>

definition chat_frames :: "string \<Rightarrow> int \<Rightarrow> string \<Rightarrow> string list \<Rightarrow> string list" where
  "chat_frames i c m tokens =
     (case tokens of [] \<Rightarrow> []
      | t # ts \<Rightarrow> make_first_streaming_chunk i c m (Some t) None
                  # map (\<lambda>t. make_streaming_chunk i c m (Some t) None) ts)"

definition chat_all_frames :: "string \<Rightarrow> int \<Rightarrow> string \<Rightarrow> completion_result \<Rightarrow> string list \<Rightarrow> string list" where
  "chat_all_frames i c m r tokens =
     (if tokens = []
      then [make_first_streaming_chunk i c m (if cr_text r = [] then None else Some (cr_text r)) None]
      else chat_frames i c m tokens)
     @ [make_streaming_chunk i c m None (Some ''stop''), make_sse_done]"

fun chat_step :: "string \<Rightarrow> int \<Rightarrow> string \<Rightarrow> stream_op \<Rightarrow> chat_stream \<Rightarrow> chat_stream" where
  "chat_step i c m (Token t) = push_token accepts_all t"
| "chat_step i c m Metadata = set_metadata accepts_all i c m"
| "chat_step i c m Attach = attach_stream accepts_all"

definition chat_rep :: "string \<Rightarrow> int \<Rightarrow> string \<Rightarrow> chat_stream \<Rightarrow> abstract_stream \<Rightarrow> bool" where
  "chat_rep i c m s a \<longleftrightarrow>
     holds s a (chat_frames i c m (a_tokens a)) \<and>
     (a_ready a \<longrightarrow> fs_id s = i \<and> fs_created s = c \<and> fs_model_id s = m) \<and>
     fs_sent_role s = (a_ready a \<and> a_tokens a \<noteq> []) \<and> fs_sent_content s = fs_sent_role s"

lemma chat_frames_simps [simp]:
  "chat_frames i c m [] = []"
  "chat_frames i c m (ts @ [t]) = chat_frames i c m ts @
     [if ts = [] then make_first_streaming_chunk i c m (Some t) None else make_streaming_chunk i c m (Some t) None]"
  by (auto simp: chat_frames_def split: list.splits)

lemma holds_chat_update [simp]:
  "holds (s\<lparr>fs_sent_role := x, fs_sent_content := y\<rparr>) a fs = holds s a fs" for s :: chat_stream
  by (simp add: holds_def)

lemma push_token_rep:
  assumes "chat_rep i c m s a" and "t \<noteq> []"
  shows "chat_rep i c m (push_token accepts_all t s) (a\<lparr>a_tokens := a_tokens a @ [t]\<rparr>)"
proof (cases "a_ready a")
  case False
  with assms show ?thesis
    by (auto simp: chat_rep_def push_token_def push_token_locked_def holds_def)
next
  case True
  let ?s = "s\<lparr>fs_sent_role := True, fs_sent_content := True\<rparr>"
  let ?f = "if a_tokens a = [] then make_first_streaming_chunk i c m (Some t) None
            else make_streaming_chunk i c m (Some t) None"
  have "holds ?s a (chat_frames i c m (a_tokens a))" using assms(1) by (simp add: chat_rep_def)
  from push_frame_holds [OF this True, of ?f] obtain s' where
    s': "push_frame_locked accepts_all ?f ?s = (no_actions, s')"
      "holds s' a (chat_frames i c m (a_tokens a) @ [?f])"
      "s' = ?s\<lparr>fs_buffered_frames := fs_buffered_frames s', wire_sent := wire_sent s'\<rparr>" by blast
  have "push_token accepts_all t s = s'"
    using assms True s'(1)
    by (cases "a_tokens a = []") (simp_all add: push_token_def push_token_locked_def chat_rep_def holds_def)
  moreover have "fs_id s' = i" "fs_created s' = c" "fs_model_id s' = m" "fs_sent_role s'" "fs_sent_content s'"
    using assms(1) True by (subst s'(3), simp add: chat_rep_def)+
  ultimately show ?thesis using s'(2) True by (simp add: chat_rep_def holds_tokens)
qed

lemma push_tokens_rep:
  assumes "chat_rep i c m s a" and "list_all (\<lambda>t. t \<noteq> []) ts"
  shows "chat_rep i c m (fold (push_token accepts_all) ts s) (a\<lparr>a_tokens := a_tokens a @ ts\<rparr>)"
  using assms
proof (induction ts arbitrary: s a)
  case (Cons t ts)
  then have "chat_rep i c m (push_token accepts_all t s) (a\<lparr>a_tokens := a_tokens a @ [t]\<rparr>)"
    by (simp add: push_token_rep)
  from Cons.IH [OF this] Cons.prems(2) show ?case by simp
qed simp

definition nonempty_tokens :: "abstract_stream \<Rightarrow> bool" where
  "nonempty_tokens a \<longleftrightarrow> list_all (\<lambda>t. t \<noteq> []) (a_tokens a)"

lemma set_metadata_rep:
  assumes "chat_rep i c m s a" and "\<not> a_ready a" and "nonempty_tokens a"
  shows "chat_rep i c m (set_metadata accepts_all i c m s) (a\<lparr>a_ready := True\<rparr>)"
proof -
  obtain pend s' where s': "set_metadata_locked i c m s = (pend, s')" by (cases "set_metadata_locked i c m s")
  have holds: "holds s a (chat_frames i c m (a_tokens a))" using assms(1) by (simp add: chat_rep_def)
  note m = metadata_holds [OF holds assms(2) s']
  have "fs_id s' = i" "fs_created s' = c" "fs_model_id s' = m" "\<not> fs_sent_role s'" "\<not> fs_sent_content s'"
    using s' assms(1,2) by (auto simp: set_metadata_locked_def chat_rep_def)
  with m have "chat_rep i c m s' (a\<lparr>a_ready := True, a_tokens := []\<rparr>)"
    by (simp add: chat_rep_def)
  from push_tokens_rep [OF this, of pend] m assms(3) s' show ?thesis
    by (simp add: set_metadata_def nonempty_tokens_def)
qed

lemma chat_finish:
  assumes "chat_rep i c m s a" and "a_ready a"
  shows "a_attached a \<Longrightarrow> wire_sent (finish_success accepts_all r s) = chat_all_frames i c m r (a_tokens a)
      \<and> wire_closed (finish_success accepts_all r s)"
    and "\<not> a_attached a \<Longrightarrow>
      wire_sent (attach_stream accepts_all (finish_success accepts_all r s)) = chat_all_frames i c m r (a_tokens a)
      \<and> wire_closed (attach_stream accepts_all (finish_success accepts_all r s))"
proof -
  let ?lead = "if a_tokens a = [] then [make_first_streaming_chunk i c m
      (if cr_text r = [] then None else Some (cr_text r)) None] else []"
  let ?fs = "?lead @ [make_streaming_chunk i c m None (Some ''stop''), make_sse_done]"
  have holds: "holds s a (chat_frames i c m (a_tokens a))" using assms(1) by (simp add: chat_rep_def)
  from push_frames_holds [OF holds assms(2), of ?fs] obtain s' where
    s': "push_frames_locked accepts_all ?fs s = (replicate (length ?fs) no_actions, s')"
      "holds s' a (chat_frames i c m (a_tokens a) @ ?fs)" by blast
  let ?s = "s'\<lparr>fs_sent_role := True, fs_sent_content := fs_sent_content s \<or> cr_text r \<noteq> []\<rparr>"
  have "finish_success accepts_all r s = close_stream ?s"
    using assms s'(1) unfolding finish_success_def Let_def
    by (cases "a_tokens a = []") (simp_all add: chat_rep_def)
  moreover have "holds ?s a (chat_all_frames i c m r (a_tokens a))"
    using s'(2) by (cases "a_tokens a = []") (simp_all add: chat_all_frames_def)
  ultimately show "a_attached a \<Longrightarrow>
      wire_sent (finish_success accepts_all r s) = chat_all_frames i c m r (a_tokens a)
      \<and> wire_closed (finish_success accepts_all r s)"
    "\<not> a_attached a \<Longrightarrow>
      wire_sent (attach_stream accepts_all (finish_success accepts_all r s)) = chat_all_frames i c m r (a_tokens a)
      \<and> wire_closed (attach_stream accepts_all (finish_success accepts_all r s))"
    using close_after_frames [of ?s a] assms(2) by simp_all
qed

definition chat_rep' :: "string \<Rightarrow> int \<Rightarrow> string \<Rightarrow> chat_stream \<Rightarrow> abstract_stream \<Rightarrow> bool" where
  "chat_rep' i c m s a \<longleftrightarrow> chat_rep i c m s a \<and> nonempty_tokens a"

lemma abs_step_nonempty: "nonempty_tokens a \<Longrightarrow> nonempty_tokens (abs_step op a)"
  by (cases op) (auto simp: nonempty_tokens_def)

lemma chat_rep_step:
  assumes "chat_rep' i c m s a" and "enabled op a"
  shows "chat_rep' i c m (chat_step i c m op s) (abs_step op a)"
proof (cases op)
  case (Token t)
  with assms show ?thesis
    using abs_step_nonempty [of a op]
    by (cases "t = []") (simp_all add: chat_rep'_def push_token_rep, simp add: push_token_def)
next
  case Metadata
  with assms show ?thesis
    using abs_step_nonempty [of a op] by (simp add: chat_rep'_def set_metadata_rep)
next
  case Attach
  have "fs_sent_role (attach_stream accepts_all s) = fs_sent_role s"
    "fs_sent_content (attach_stream accepts_all s) = fs_sent_content s"
    "fs_id (attach_stream accepts_all s) = fs_id s"
    "fs_created (attach_stream accepts_all s) = fs_created s"
    "fs_model_id (attach_stream accepts_all s) = fs_model_id s"
    by (simp_all add: attach_stream_def Let_def)
  with Attach assms show ?thesis
    using abs_step_nonempty [of a op] attach_holds [of s a]
    by (simp add: chat_rep'_def chat_rep_def)
qed

interpretation chat_tokens: token_stream new_chat_stream "chat_step i c m" "finish_success accepts_all"
    "chat_all_frames i c m" "chat_rep' i c m" for i c m
proof
  show "chat_rep' i c m new_chat_stream abs_init"
    by (simp add: chat_rep'_def chat_rep_def new_chat_stream_def abs_init_def holds_def nonempty_tokens_def)
next
  fix s a op
  show "chat_rep' i c m s a \<Longrightarrow> enabled op a \<Longrightarrow> chat_rep' i c m (chat_step i c m op s) (abs_step op a)"
    by (rule chat_rep_step)
next
  fix s a r
  assume "chat_rep' i c m s a" and "a_ready a"
  then have "chat_rep i c m s a" by (simp add: chat_rep'_def)
  note fin = chat_finish [OF this \<open>a_ready a\<close>]
  show "a_attached a \<Longrightarrow> wire_sent (finish_success accepts_all r s) = chat_all_frames i c m r (a_tokens a)
      \<and> wire_closed (finish_success accepts_all r s)" by (rule fin(1))
  show "\<not> a_attached a \<Longrightarrow> wire_sent (chat_step i c m Attach (finish_success accepts_all r s)) =
      chat_all_frames i c m r (a_tokens a) \<and> wire_closed (chat_step i c m Attach (finish_success accepts_all r s))"
    using fin(2) by simp
qed


text \<open>The extraction session.\<close>

definition delta_frame :: "json_api \<Rightarrow> string \<Rightarrow> string" where
  "delta_frame api t = make_sse_data api (json_object [(''delta'', JString t)])"

definition extraction_all_frames ::
  "json_api \<Rightarrow> (tool_invocation_status \<Rightarrow> string) \<Rightarrow> string \<Rightarrow> int \<Rightarrow> string \<Rightarrow> extraction_result \<Rightarrow> string list \<Rightarrow> string list" where
  "extraction_all_frames api sts i c m r tokens =
     map (delta_frame api) tokens
     @ [make_sse_data api (make_extraction_body api sts i c m r), make_sse_done]"

fun extraction_step ::
  "json_api \<Rightarrow> string \<Rightarrow> int \<Rightarrow> string \<Rightarrow> stream_op \<Rightarrow> stream_session \<Rightarrow> stream_session" where
  "extraction_step api i c m (Token t) = extraction_push_token api accepts_all t"
| "extraction_step api i c m Metadata = extraction_set_metadata api accepts_all i c m"
| "extraction_step api i c m Attach = attach_stream accepts_all"

definition extraction_rep ::
  "json_api \<Rightarrow> string \<Rightarrow> int \<Rightarrow> string \<Rightarrow> stream_session \<Rightarrow> abstract_stream \<Rightarrow> bool" where
  "extraction_rep api i c m s a \<longleftrightarrow>
     holds s a (map (delta_frame api) (a_tokens a)) \<and>
     (a_ready a \<longrightarrow> fs_id s = i \<and> fs_created s = c \<and> fs_model_id s = m) \<and> nonempty_tokens a"

lemma extraction_push_token_rep:
  assumes "extraction_rep api i c m s a" and "t \<noteq> []"
  shows "extraction_rep api i c m (extraction_push_token api accepts_all t s)
    (a\<lparr>a_tokens := a_tokens a @ [t]\<rparr>)"
proof (cases "a_ready a")
  case False
  with assms show ?thesis
    by (auto simp: extraction_rep_def extraction_push_token_def extraction_push_token_locked_def
        holds_def nonempty_tokens_def)
next
  case True
  have "holds s a (map (delta_frame api) (a_tokens a))" using assms(1) by (simp add: extraction_rep_def)
  from push_frame_holds [OF this True, of "delta_frame api t"] obtain s' where
    s': "push_frame_locked accepts_all (delta_frame api t) s = (no_actions, s')"
      "holds s' a (map (delta_frame api) (a_tokens a) @ [delta_frame api t])"
      "s' = s\<lparr>fs_buffered_frames := fs_buffered_frames s', wire_sent := wire_sent s'\<rparr>" by blast
  have "extraction_push_token api accepts_all t s = s'"
    using assms True s'(1)
    by (simp add: extraction_push_token_def extraction_push_token_locked_def extraction_rep_def
        holds_def delta_frame_def)
  moreover have "fs_id s' = i" "fs_created s' = c" "fs_model_id s' = m"
    using assms(1) True by (subst s'(3), simp add: extraction_rep_def)+
  ultimately show ?thesis using s'(2) True assms
    by (simp add: extraction_rep_def holds_tokens nonempty_tokens_def)
qed

lemma extraction_push_tokens_rep:
  assumes "extraction_rep api i c m s a" and "list_all (\<lambda>t. t \<noteq> []) ts"
  shows "extraction_rep api i c m (fold (extraction_push_token api accepts_all) ts s)
    (a\<lparr>a_tokens := a_tokens a @ ts\<rparr>)"
  using assms
proof (induction ts arbitrary: s a)
  case (Cons t ts)
  then have "extraction_rep api i c m (extraction_push_token api accepts_all t s)
      (a\<lparr>a_tokens := a_tokens a @ [t]\<rparr>)"
    by (simp add: extraction_push_token_rep)
  from Cons.IH [OF this] Cons.prems(2) show ?case by simp
qed simp

lemma extraction_set_metadata_rep:
  assumes "extraction_rep api i c m s a" and "\<not> a_ready a"
  shows "extraction_rep api i c m (extraction_set_metadata api accepts_all i c m s) (a\<lparr>a_ready := True\<rparr>)"
proof -
  obtain pend s' where s': "set_metadata_locked i c m s = (pend, s')" by (cases "set_metadata_locked i c m s")
  have holds: "holds s a (map (delta_frame api) (a_tokens a))" and ne: "nonempty_tokens a"
    using assms(1) by (simp_all add: extraction_rep_def)
  note m = metadata_holds [OF holds assms(2) s']
  have "fs_id s' = i" "fs_created s' = c" "fs_model_id s' = m"
    using s' by (auto simp: set_metadata_locked_def)
  with m have "extraction_rep api i c m s' (a\<lparr>a_ready := True, a_tokens := []\<rparr>)"
    by (simp add: extraction_rep_def nonempty_tokens_def)
  from extraction_push_tokens_rep [OF this, of pend] m ne s' show ?thesis
    by (simp add: extraction_set_metadata_def nonempty_tokens_def)
qed

lemma extraction_rep_step:
  assumes "extraction_rep api i c m s a" and "enabled op a"
  shows "extraction_rep api i c m (extraction_step api i c m op s) (abs_step op a)"
proof (cases op)
  case (Token t)
  with assms show ?thesis
    by (cases "t = []") (simp_all add: extraction_push_token_rep, simp add: extraction_push_token_def)
next
  case Metadata
  with assms show ?thesis by (simp add: extraction_set_metadata_rep)
next
  case Attach
  have "fs_id (attach_stream accepts_all s) = fs_id s"
    "fs_created (attach_stream accepts_all s) = fs_created s"
    "fs_model_id (attach_stream accepts_all s) = fs_model_id s"
    by (simp_all add: attach_stream_def Let_def)
  with Attach assms show ?thesis
    using attach_holds [of s a] by (simp add: extraction_rep_def nonempty_tokens_def)
qed

interpretation extraction_tokens: token_stream new_stream "extraction_step api i c m"
    "extraction_finish_success api sts accepts_all" "extraction_all_frames api sts i c m"
    "extraction_rep api i c m" for api sts i c m
proof
  show "extraction_rep api i c m new_stream abs_init"
    by (simp add: extraction_rep_def new_stream_def abs_init_def holds_def nonempty_tokens_def)
next
  fix s a op
  show "extraction_rep api i c m s a \<Longrightarrow> enabled op a \<Longrightarrow>
      extraction_rep api i c m (extraction_step api i c m op s) (abs_step op a)"
    by (rule extraction_rep_step)
next
  fix s :: stream_session and a r
  let ?fs = "[make_sse_data api (make_extraction_body api sts i c m r), make_sse_done]"
  assume rep: "extraction_rep api i c m s a" and ready: "a_ready a"
  then have holds: "holds s a (map (delta_frame api) (a_tokens a))" by (simp add: extraction_rep_def)
  from push_frames_holds [OF holds ready, of ?fs] obtain s' where
    s': "push_frames_locked accepts_all ?fs s = (replicate (length ?fs) no_actions, s')"
      "holds s' a (map (delta_frame api) (a_tokens a) @ ?fs)" by blast
  have fin: "extraction_finish_success api sts accepts_all r s = close_stream s'"
    using rep ready s'(1) fold_execute_no_actions [of "length ?fs" s']
    unfolding extraction_finish_success_def Let_def
    by (simp add: extraction_rep_def del: fold_execute_no_actions)
  have holds': "holds s' a (extraction_all_frames api sts i c m r (a_tokens a))"
    using s'(2) by (simp add: extraction_all_frames_def)
  show "a_attached a \<Longrightarrow>
      wire_sent (extraction_finish_success api sts accepts_all r s) = extraction_all_frames api sts i c m r (a_tokens a)
      \<and> wire_closed (extraction_finish_success api sts accepts_all r s)"
    using close_after_frames(1) [OF holds' ready] fin by simp
  show "\<not> a_attached a \<Longrightarrow>
      wire_sent (extraction_step api i c m Attach (extraction_finish_success api sts accepts_all r s)) =
        extraction_all_frames api sts i c m r (a_tokens a)
      \<and> wire_closed (extraction_step api i c m Attach (extraction_finish_success api sts accepts_all r s))"
    using close_after_frames(2) [OF holds' ready] fin by simp
qed

section \<open>A connection that refuses a frame\<close>

lemma push_frame_closing: "fs_closing s \<Longrightarrow> push_frame_locked accepts f s = (no_actions, s)"
  by (simp add: push_frame_locked_def)

lemma push_frames_closing:
  "fs_closing s \<Longrightarrow> push_frames_locked accepts fs s = (replicate (length fs) no_actions, s)"
  by (induction fs) (simp_all add: push_frame_closing)

text \<open>What a closed session never changes again.\<close>

definition frozen :: "chat_stream \<Rightarrow> chat_stream \<Rightarrow> bool" where
  "frozen s s' \<longleftrightarrow> fs_closing s' \<and> \<not> fs_stream s' \<and> fs_metadata_ready s' \<and>
     wire_sent s' = wire_sent s \<and> wire_closed s' = wire_closed s \<and> cancels_run s' = cancels_run s"

lemma frozen_push_token: "frozen s s' \<Longrightarrow> frozen s (push_token accepts t s')"
  by (auto simp: frozen_def push_token_def push_token_locked_def push_frame_closing)

lemma frozen_push_tokens: "frozen s s' \<Longrightarrow> frozen s (fold (push_token accepts) ts s')"
  by (induction ts arbitrary: s') (simp_all add: frozen_push_token)

lemma frozen_finish_success: "frozen s s' \<Longrightarrow> frozen s (finish_success accepts r s')"
  unfolding frozen_def finish_success_def Let_def
  by (simp add: push_frames_closing close_stream_def del: push_frames_locked.simps)

lemma frozen_finish_error: "frozen s s' \<Longrightarrow> frozen s (finish_error accepts api e s')"
  unfolding frozen_def finish_error_def Let_def
  by (simp add: push_frame_closing close_stream_def)

section \<open>Properties\<close>

text \<open>
  A chat stream delivers every token exactly once and in order. Take any sequence of tokens,
  in which the metadata arrives once and the client attaches at most once, at any position, then
  finish successfully: if the client was attached it has received, and if not it receives on
  attaching, exactly the chunk with the role and the first non-empty token, a chunk per further
  non-empty token in the order produced (or the text of the result when there was no token), the
  stop chunk and the end marker; and the stream is closed.
\<close>

theorem chat_stream_delivers_tokens:
  assumes "enabled_run ops abs_init" and "Metadata \<in> set ops"
  shows "let s = finish_success accepts_all r (fold (chat_step i c m) ops new_chat_stream);
             s' = (if Attach \<in> set ops then s else attach_stream accepts_all s)
         in wire_sent s' = chat_all_frames i c m r (produced ops) \<and> wire_closed s'"
  using chat_tokens.delivers [OF assms, of r i c m] by (simp add: Let_def split: if_splits)

definition demo_usage :: completion_usage where
  "demo_usage = \<lparr>prompt_tokens = 3, completion_tokens = 2, total_tokens = 5\<rparr>"

definition demo_timing :: completion_metrics where
  "demo_timing = \<lparr>latency_ms = 10, time_to_first_token_ms = 4, tokens_per_second = 0\<rparr>"

definition demo_completion :: completion_result where
  "demo_completion = \<lparr>cr_text = ''ab'', cr_usage = demo_usage, cr_metrics = demo_timing, cr_tool_invocations = []\<rparr>"

definition demo_extraction :: extraction_result where
  "demo_extraction = \<lparr>er_text = ''{}'', er_data = JObject [], er_usage = demo_usage, er_metrics = demo_timing,
     er_tool_invocations = []\<rparr>"

theorem chat_stream_delivers_tokens_witness:
  "wire_sent (finish_success accepts_all demo_completion
      (fold (chat_step ''id'' 5 ''m'') [Token ''a'', Attach, Metadata, Token [], Token ''b''] new_chat_stream))
   = chat_all_frames ''id'' 5 ''m'' demo_completion [''a'', ''b'']"
  using chat_stream_delivers_tokens
    [of "[Token ''a'', Attach, Metadata, Token [], Token ''b'']" demo_completion "''id''" 5 "''m''"]
  by (simp add: abs_init_def Let_def)

text \<open>
  An extraction stream likewise: one delta event per non-empty token in order, then the
  extraction object and the end marker.
\<close>

theorem extraction_stream_delivers_tokens:
  assumes "enabled_run ops abs_init" and "Metadata \<in> set ops"
  shows "let s = extraction_finish_success api sts accepts_all r (fold (extraction_step api i c m) ops new_stream);
             s' = (if Attach \<in> set ops then s else attach_stream accepts_all s)
         in wire_sent s' = extraction_all_frames api sts i c m r (produced ops) \<and> wire_closed s'"
  using extraction_tokens.delivers [OF assms, of api sts r i c m] by (simp add: Let_def split: if_splits)

theorem extraction_stream_delivers_tokens_witness:
  "wire_sent (attach_stream accepts_all (extraction_finish_success (demo_api JNull) (\<lambda>_. ''ok'') accepts_all
      demo_extraction (fold (extraction_step (demo_api JNull) ''id'' 5 ''m'') [Token ''a'', Metadata, Token ''b''] new_stream)))
   = extraction_all_frames (demo_api JNull) (\<lambda>_. ''ok'') ''id'' 5 ''m'' demo_extraction [''a'', ''b'']"
  using extraction_stream_delivers_tokens [of "[Token ''a'', Metadata, Token ''b'']" "demo_api JNull"
      "\<lambda>_. ''ok''" demo_extraction "''id''" 5 "''m''"]
  by (simp add: abs_init_def Let_def)

text \<open>
  C30. When the connection refuses a token's frame the session closes the stream, runs the cancel
  callback exactly once if one is set, and stays silent: whatever tokens and whatever outcome
  follow, and whatever the connection would accept, no further frame is sent and the callback
  does not run again.
\<close>

theorem refused_frame_stops_stream:
  assumes "fs_metadata_ready s" and "fs_sent_role s" and "fs_stream s" and "\<not> fs_closing s" and "token \<noteq> []"
    and "\<not> accepts (wire_sent s) (make_streaming_chunk (fs_id s) (fs_created s) (fs_model_id s) (Some token) None)"
  shows "let s' = push_token accepts token s in
    wire_closed s' \<and> wire_sent s' = wire_sent s
    \<and> cancels_run s' = cancels_run s + (if fs_cancel_callback s then 1 else 0)
    \<and> frozen s' (fold (push_token accepts') ts s')
    \<and> frozen s' (finish_success accepts' r (fold (push_token accepts') ts s'))
    \<and> frozen s' (finish_error accepts' api e (fold (push_token accepts') ts s'))"
proof -
  let ?s = "push_token accepts token s"
  have "frozen ?s ?s \<and> wire_closed ?s \<and> wire_sent ?s = wire_sent s
      \<and> cancels_run ?s = cancels_run s + (if fs_cancel_callback s then 1 else 0)"
    using assms
    by (simp add: frozen_def push_token_def push_token_locked_def push_frame_locked_def
        execute_deferred_def close_stream_def)
  then show ?thesis
    by (simp add: Let_def frozen_push_tokens frozen_finish_success frozen_finish_error)
qed

definition demo_refusing :: wire where
  "demo_refusing sent frame = (length sent < 1)"

definition demo_open_stream :: chat_stream where
  "demo_open_stream = push_token demo_refusing ''a'' (set_cancel_callback (set_metadata demo_refusing ''id'' 5 ''m''
     (attach_stream demo_refusing new_chat_stream)))"

theorem refused_frame_stops_stream_witness:
  "cancels_run (push_token demo_refusing ''b'' demo_open_stream) = 1
   \<and> frozen (push_token demo_refusing ''b'' demo_open_stream)
       (fold (push_token accepts_all) [''c'', ''d''] (push_token demo_refusing ''b'' demo_open_stream))"
proof -
  have "fs_metadata_ready demo_open_stream" "fs_sent_role demo_open_stream" "fs_stream demo_open_stream"
    "\<not> fs_closing demo_open_stream" "\<not> demo_refusing (wire_sent demo_open_stream) f" "cancels_run demo_open_stream = 0"
    "fs_cancel_callback demo_open_stream" for f
    by (simp_all add: demo_open_stream_def demo_refusing_def new_chat_stream_def attach_stream_def
        set_metadata_def set_metadata_locked_def set_cancel_callback_def push_token_def
        push_token_locked_def push_frame_locked_def Let_def)
  with refused_frame_stops_stream [of demo_open_stream "''b''" demo_refusing accepts_all "[''c'', ''d'']"
      demo_completion "demo_api JNull" "server_error [] None"]
  show ?thesis by (simp add: Let_def)
qed

text \<open>
  The flush of the tokens held back until the metadata is known is not atomic:
  \<^verbatim>\<open>set_metadata\<close> publishes the metadata and releases the lock before it pushes them. A token
  pushed in between by the producing thread overtakes them, so with one token held back and one
  arriving at that moment the client receives the two in the wrong order.
\<close>

theorem metadata_flush_can_reorder:
  "let s0 = push_token accepts_all ''a'' new_chat_stream;
       (held_back, s1) = set_metadata_locked i c m s0;
       s2 = push_token accepts_all ''b'' s1;
       s3 = fold (push_token accepts_all) held_back s2
   in fs_buffered_frames s3 = chat_frames i c m [''b'', ''a'']"
  by (simp add: Let_def new_chat_stream_def push_token_def push_token_locked_def set_metadata_locked_def
      push_frame_locked_def execute_deferred_def no_actions_def chat_frames_def)

end
