(* ===== verification/Chat_Service.thy ===== *)
theory Chat_Service
  imports Session_Store Zoo_Adapter
begin

text \<open>
  \<^verbatim>\<open>src/server/chat_service.cpp\<close>: \<^verbatim>\<open>ZooChatService\<close>, which starts completions and extractions,
  with and without a session, and keeps the retained agent history and the system prompt.

  The agent is the zoo library's: its operations are the record \<open>agent_ops\<close> over an abstract
  agent state, a parameter of every definition that calls it. The callbacks the service hands out
  are data: a canceller is the request id it cancels, \<open>observer\<close> is the \<^verbatim>\<open>on_result\<close> callback and
  \<open>release_action\<close> what the lease of a pending request does; \<open>observe\<close> and \<open>run_release\<close> execute
  them. The session store is the one of \<open>Session_Store\<close>. Each operation is one step of the service:
  the interleavings that matter are stated as sequences of these steps.
\<close>

section \<open>State\<close>

record 'ag agent_ops =
  ag_is_running :: "'ag \<Rightarrow> bool"
  ag_complete :: "chat_message list \<Rightarrow> generation_options \<Rightarrow> 'ag \<Rightarrow>
     u64 \<times> text_response runtime_result option \<times> 'ag"
  ag_extract :: "json \<Rightarrow> chat_message list \<Rightarrow> generation_options \<Rightarrow> 'ag \<Rightarrow>
     u64 \<times> extraction_response runtime_result option \<times> 'ag"
  ag_cancel :: "u64 \<Rightarrow> 'ag \<Rightarrow> 'ag"
  ag_set_system_prompt :: "string \<Rightarrow> 'ag \<Rightarrow> 'ag"
  ag_stop :: "'ag \<Rightarrow> 'ag"

record 'ag chat_service =
  sv_model_id :: string
  sv_context_size :: int
  sv_request_system_prompt :: string
  sv_tool_metadata :: "tool_definition list"
  sv_agent :: "'ag option"
  sv_default_generation :: generation_options
  sv_session_store :: session_store
  sv_next_completion_id :: u64
  sv_active_session_requests :: "(string \<times> u64) list"
  sv_public_request_cancellers :: "(string \<times> u64) list"
  sv_agent_history :: "chat_message list"

datatype observer =
    No_observer
  | Commit_session string u64 chat_message
  | Append_to_history chat_message

datatype release_action =
    Unregister string
  | Unregister_and_release string string u64

record 'r pending =
  pd_id :: string
  pd_created :: int
  pd_model :: string
  pd_handle :: "'r handle"
  pd_on_result :: observer
  pd_cancel :: u64
  pd_lease :: release_action

text \<open>The clock readings of one start: reaping, start and touch of a session request.\<close>

record clock_readings =
  ck_reap :: int
  ck_now :: int
  ck_touch :: int

definition make_chat_service ::
  "string \<Rightarrow> int \<Rightarrow> string \<Rightarrow> tool_definition list \<Rightarrow> 'ag option \<Rightarrow> session_store \<Rightarrow> generation_options \<Rightarrow>
     'ag chat_service" where
  "make_chat_service model_id context_size prompt tool_metadata agent store options =
     \<lparr>sv_model_id = model_id, sv_context_size = context_size, sv_request_system_prompt = prompt,
      sv_tool_metadata = tool_metadata, sv_agent = agent, sv_default_generation = options,
      sv_session_store = store, sv_next_completion_id = 1, sv_active_session_requests = [],
      sv_public_request_cancellers = [],
      sv_agent_history = (if prompt \<noteq> [] then [system_message prompt] else [])\<rparr>"

definition is_ready :: "'ag agent_ops \<Rightarrow> 'ag chat_service \<Rightarrow> bool" where
  "is_ready ops sv = (case sv_agent sv of None \<Rightarrow> False | Some a \<Rightarrow> ag_is_running ops a)"

definition service_session_health :: "'ag chat_service \<Rightarrow> session_health" where
  "service_session_health sv = store_health (sv_session_store sv)"

section \<open>Handles\<close>

text \<open>The task behind the future converts the library's response once it is there.\<close>

definition wrap_zoo_handle ::
  "u64 \<Rightarrow> text_response runtime_result option \<Rightarrow> completion_result handle" where
  "wrap_zoo_handle request_id result =
     make_completion_handle request_id (map_option (map_sum id from_zoo_response) result)"

definition wrap_zoo_extraction_handle ::
  "u64 \<Rightarrow> extraction_response runtime_result option \<Rightarrow> extraction_result handle" where
  "wrap_zoo_extraction_handle request_id result =
     make_extraction_handle request_id (map_option (map_sum id from_zoo_extraction_response) result)"

section \<open>Bookkeeping of requests\<close>

definition track_session_request :: "string \<Rightarrow> u64 \<Rightarrow> 'ag chat_service \<Rightarrow> 'ag chat_service" where
  "track_session_request session_id zoo_request_id sv =
     sv\<lparr>sv_active_session_requests := al_put session_id zoo_request_id (sv_active_session_requests sv)\<rparr>"

definition untrack_session_request :: "string \<Rightarrow> 'ag chat_service \<Rightarrow> 'ag chat_service" where
  "untrack_session_request session_id sv =
     sv\<lparr>sv_active_session_requests := al_erase session_id (sv_active_session_requests sv)\<rparr>"

definition register_public_request :: "string \<Rightarrow> u64 \<Rightarrow> 'ag chat_service \<Rightarrow> 'ag chat_service" where
  "register_public_request request_id cancel sv =
     sv\<lparr>sv_public_request_cancellers := al_put request_id cancel (sv_public_request_cancellers sv)\<rparr>"

definition unregister_public_request :: "string \<Rightarrow> 'ag chat_service \<Rightarrow> 'ag chat_service" where
  "unregister_public_request request_id sv =
     sv\<lparr>sv_public_request_cancellers := al_erase request_id (sv_public_request_cancellers sv)\<rparr>"

text \<open>The \<^verbatim>\<open>cancel\<close> closure: cancel the captured request id on the agent, if there is one.\<close>

definition run_cancel :: "'ag agent_ops \<Rightarrow> u64 \<Rightarrow> 'ag chat_service \<Rightarrow> 'ag chat_service" where
  "run_cancel ops request_id sv = sv\<lparr>sv_agent := map_option (ag_cancel ops request_id) (sv_agent sv)\<rparr>"

definition take_completion_id :: "'ag chat_service \<Rightarrow> u64 \<times> 'ag chat_service" where
  "take_completion_id sv =
     (sv_next_completion_id sv, sv\<lparr>sv_next_completion_id := sv_next_completion_id sv + 1\<rparr>)"

definition completion_name :: "u64 \<Rightarrow> string" where
  "completion_name n = ''chatcmpl-'' @ string_of_nat (unat n)"

definition extraction_name :: "u64 \<Rightarrow> string" where
  "extraction_name n = ''extract-'' @ string_of_nat (unat n)"

section \<open>Messages\<close>

definition prepare_messages :: "string \<Rightarrow> chat_completion_request \<Rightarrow> chat_message list" where
  "prepare_messages local_prompt request =
     (if local_prompt = [] then cc_messages request
      else if cc_messages request \<noteq> [] \<and> msg_role (hd (cc_messages request)) = System
      then system_message (combine_system_prompts local_prompt (msg_content (hd (cc_messages request))))
             # tl (cc_messages request)
      else system_message local_prompt # cc_messages request)"

definition prepare_extraction_messages :: "string \<Rightarrow> extraction_request \<Rightarrow> chat_message list" where
  "prepare_extraction_messages local_prompt request =
     (if local_prompt = [] then ex_messages request
      else if ex_messages request \<noteq> [] \<and> msg_role (hd (ex_messages request)) = System
      then system_message (combine_system_prompts local_prompt (msg_content (hd (ex_messages request))))
             # tl (ex_messages request)
      else system_message local_prompt # ex_messages request)"

section \<open>Starting requests\<close>

definition not_ready_error :: "string \<Rightarrow> api_error" where
  "not_ready_error code = service_unavailable_error ''Server runtime is not ready'' (Some code)"

text \<open>\<^verbatim>\<open>agent_->complete\<close> and \<^verbatim>\<open>agent_->extract\<close>; the callers have checked that the agent is there.\<close>

definition agent_complete ::
  "'ag agent_ops \<Rightarrow> chat_message list \<Rightarrow> generation_options \<Rightarrow> 'ag chat_service \<Rightarrow>
     completion_result handle \<times> 'ag chat_service" where
  "agent_complete ops messages options sv =
     (case ag_complete ops messages options (the (sv_agent sv)) of
        (request_id, result, a) \<Rightarrow> (wrap_zoo_handle request_id result, sv\<lparr>sv_agent := Some a\<rparr>))"

definition agent_extract ::
  "'ag agent_ops \<Rightarrow> json \<Rightarrow> chat_message list \<Rightarrow> generation_options \<Rightarrow> 'ag chat_service \<Rightarrow>
     extraction_result handle \<times> 'ag chat_service" where
  "agent_extract ops schema messages options sv =
     (case ag_extract ops schema messages options (the (sv_agent sv)) of
        (request_id, result, a) \<Rightarrow> (wrap_zoo_extraction_handle request_id result, sv\<lparr>sv_agent := Some a\<rparr>))"

definition start_session_completion ::
  "'ag agent_ops \<Rightarrow> clock_readings \<Rightarrow> chat_completion_request \<Rightarrow> string \<Rightarrow> 'ag chat_service \<Rightarrow>
     completion_result pending api_result \<times> 'ag chat_service" where
  "start_session_completion ops ck request session_id sv =
     (if \<not> is_ready ops sv then (Inl (not_ready_error ''not_ready''), sv)
      else
        let (tracking_id, sv) = take_completion_id sv;
            (begin, store) = begin_request request tracking_id (ck_reap ck) (ck_now ck) (ck_touch ck)
                               (sv_session_store sv);
            sv = sv\<lparr>sv_session_store := store\<rparr>
        in case begin of
             Inl e \<Rightarrow> (Inl e, sv)
           | Inr b \<Rightarrow>
               let gen_options = merge_chat_overrides (sv_default_generation sv) request;
                   (handle, sv) = agent_complete ops (br_messages b) gen_options sv;
                   zoo_request_id = handle_id handle;
                   completion_id = completion_name tracking_id;
                   sv = track_session_request session_id zoo_request_id sv;
                   sv = register_public_request completion_id zoo_request_id sv
               in (Inr \<lparr>pd_id = completion_id, pd_created = br_started_at b, pd_model = sv_model_id sv,
                        pd_handle = handle,
                        pd_on_result = Commit_session session_id tracking_id (br_user_message b),
                        pd_cancel = zoo_request_id,
                        pd_lease = Unregister_and_release completion_id session_id tracking_id\<rparr>, sv))"

definition start_completion ::
  "'ag agent_ops \<Rightarrow> clock_readings \<Rightarrow> chat_completion_request \<Rightarrow> 'ag chat_service \<Rightarrow>
     completion_result pending api_result \<times> 'ag chat_service" where
  "start_completion ops ck request sv =
     (case cc_session_id request of
        Some session_id \<Rightarrow> start_session_completion ops ck request session_id sv
      | None \<Rightarrow>
          if \<not> is_ready ops sv then (Inl (not_ready_error ''not_ready''), sv)
          else if cc_model request \<noteq> sv_model_id sv then (Inl (unknown_model_error (cc_model request)), sv)
          else
            let gen_options = merge_chat_overrides (sv_default_generation sv) request;
                messages = prepare_messages (sv_request_system_prompt sv) request;
                (handle, sv) = agent_complete ops messages gen_options sv;
                (n, sv) = take_completion_id sv;
                completion_id = completion_name n;
                sv = register_public_request completion_id (handle_id handle) sv
            in (Inr \<lparr>pd_id = completion_id, pd_created = ck_now ck, pd_model = sv_model_id sv,
                     pd_handle = handle, pd_on_result = No_observer, pd_cancel = handle_id handle,
                     pd_lease = Unregister completion_id\<rparr>, sv))"

definition start_agent_chat ::
  "'ag agent_ops \<Rightarrow> role_validator \<Rightarrow> clock_readings \<Rightarrow> agent_chat_request \<Rightarrow> 'ag chat_service \<Rightarrow>
     completion_result pending api_result \<times> 'ag chat_service" where
  "start_agent_chat ops vrs ck request sv =
     (if \<not> is_ready ops sv then (Inl (not_ready_error ''not_ready''), sv)
      else if ac_model request \<noteq> sv_model_id sv then (Inl (unknown_model_error (ac_model request)), sv)
      else
        let gen_options = merge_agent_overrides (sv_default_generation sv) request;
            messages = sv_agent_history sv
        in case validate_message_sequence vrs messages (msg_role (ac_message request)) of
             Inl e \<Rightarrow> (Inl (invalid_request_error e (Some ''message'') (Some ''invalid_message_sequence'')), sv)
           | Inr _ \<Rightarrow>
               let messages = messages @ [ac_message request];
                   (handle, sv) = agent_complete ops messages gen_options sv;
                   (n, sv) = take_completion_id sv;
                   completion_id = completion_name n;
                   sv = register_public_request completion_id (handle_id handle) sv
               in (Inr \<lparr>pd_id = completion_id, pd_created = ck_now ck, pd_model = sv_model_id sv,
                        pd_handle = handle, pd_on_result = Append_to_history (ac_message request),
                        pd_cancel = handle_id handle, pd_lease = Unregister completion_id\<rparr>, sv))"

definition start_session_extraction ::
  "'ag agent_ops \<Rightarrow> clock_readings \<Rightarrow> extraction_request \<Rightarrow> string \<Rightarrow> 'ag chat_service \<Rightarrow>
     extraction_result pending api_result \<times> 'ag chat_service" where
  "start_session_extraction ops ck request session_id sv =
     (if \<not> is_ready ops sv then (Inl (not_ready_error ''not_ready''), sv)
      else
        let begin_req = \<lparr>cc_model = ex_model request, cc_messages = ex_messages request, cc_stream = False,
                         cc_session_id = ex_session_id request, cc_overrides = no_overrides\<rparr>;
            (tracking_id, sv) = take_completion_id sv;
            (begin, store) = begin_request begin_req tracking_id (ck_reap ck) (ck_now ck) (ck_touch ck)
                               (sv_session_store sv);
            sv = sv\<lparr>sv_session_store := store\<rparr>
        in case begin of
             Inl e \<Rightarrow> (Inl e, sv)
           | Inr b \<Rightarrow>
               let gen_options = merge_extraction_overrides (sv_default_generation sv) request;
                   (handle, sv) = agent_extract ops (ex_schema request) (br_messages b) gen_options sv;
                   zoo_request_id = handle_id handle;
                   extraction_id = extraction_name tracking_id;
                   sv = track_session_request session_id zoo_request_id sv;
                   sv = register_public_request extraction_id zoo_request_id sv
               in (Inr \<lparr>pd_id = extraction_id, pd_created = br_started_at b, pd_model = sv_model_id sv,
                        pd_handle = handle,
                        pd_on_result = Commit_session session_id tracking_id (br_user_message b),
                        pd_cancel = zoo_request_id,
                        pd_lease = Unregister_and_release extraction_id session_id tracking_id\<rparr>, sv))"

definition start_extraction ::
  "'ag agent_ops \<Rightarrow> clock_readings \<Rightarrow> extraction_request \<Rightarrow> 'ag chat_service \<Rightarrow>
     extraction_result pending api_result \<times> 'ag chat_service" where
  "start_extraction ops ck request sv =
     (case ex_session_id request of
        Some session_id \<Rightarrow> start_session_extraction ops ck request session_id sv
      | None \<Rightarrow>
          if \<not> is_ready ops sv then (Inl (not_ready_error ''not_ready''), sv)
          else if ex_model request \<noteq> sv_model_id sv then (Inl (unknown_model_error (ex_model request)), sv)
          else
            let gen_options = merge_extraction_overrides (sv_default_generation sv) request;
                messages = prepare_extraction_messages (sv_request_system_prompt sv) request;
                (handle, sv) = agent_extract ops (ex_schema request) messages gen_options sv;
                (n, sv) = take_completion_id sv;
                extraction_id = extraction_name n;
                sv = register_public_request extraction_id (handle_id handle) sv
            in (Inr \<lparr>pd_id = extraction_id, pd_created = ck_now ck, pd_model = sv_model_id sv,
                     pd_handle = handle, pd_on_result = No_observer, pd_cancel = handle_id handle,
                     pd_lease = Unregister extraction_id\<rparr>, sv))"

section \<open>Callbacks of a pending request\<close>

definition observe ::
  "int \<Rightarrow> observer \<Rightarrow> completion_result runtime_result \<Rightarrow> 'ag chat_service \<Rightarrow> 'ag chat_service" where
  "observe now obs result sv =
     (case obs of
        No_observer \<Rightarrow> sv
      | Commit_session session_id tracking_id message \<Rightarrow>
          let sv = untrack_session_request session_id sv
          in sv\<lparr>sv_session_store := commit_result session_id tracking_id message result now (sv_session_store sv)\<rparr>
      | Append_to_history message \<Rightarrow>
          (case result of
             Inl _ \<Rightarrow> sv
           | Inr r \<Rightarrow> sv\<lparr>sv_agent_history := sv_agent_history sv @ [message] @ [assistant_message (cr_text r)]\<rparr>))"

definition observe_extraction ::
  "int \<Rightarrow> observer \<Rightarrow> extraction_result runtime_result \<Rightarrow> 'ag chat_service \<Rightarrow> 'ag chat_service" where
  "observe_extraction now obs result sv =
     (case obs of
        Commit_session session_id tracking_id message \<Rightarrow>
          let sv = untrack_session_request session_id sv;
              text = (case result of Inl e \<Rightarrow> Inl e | Inr r \<Rightarrow> Inr (er_text r))
          in sv\<lparr>sv_session_store := commit_response_text session_id tracking_id message text now (sv_session_store sv)\<rparr>
      | _ \<Rightarrow> sv)"

text \<open>
  What the lease of a pending request does on its first release; the outer lease releases the
  session lease it owns. That a lease acts once is \<open>lease_runs_once\<close> of \<open>Handles\<close>.
\<close>

definition run_release :: "int \<Rightarrow> release_action \<Rightarrow> 'ag chat_service \<Rightarrow> 'ag chat_service" where
  "run_release now act sv =
     (case act of
        Unregister request_id \<Rightarrow> unregister_public_request request_id sv
      | Unregister_and_release request_id session_id tracking_id \<Rightarrow>
          let sv = unregister_public_request request_id sv;
              sv = untrack_session_request session_id sv
          in sv\<lparr>sv_session_store := release_request session_id tracking_id now (sv_session_store sv)\<rparr>)"

section \<open>Cancelling and sessions\<close>

definition cancel_request ::
  "'ag agent_ops \<Rightarrow> string \<Rightarrow> 'ag chat_service \<Rightarrow> unit api_result \<times> 'ag chat_service" where
  "cancel_request ops request_id sv =
     (case map_of (sv_public_request_cancellers sv) request_id of
        None \<Rightarrow> (Inl (not_found_error (''Unknown request: '' @ request_id) (Some ''request_not_found'')), sv)
      | Some cancel \<Rightarrow> (Inr (), run_cancel ops cancel sv))"

definition service_create_session ::
  "'ag agent_ops \<Rightarrow> session_create_request \<Rightarrow> int \<Rightarrow> 'ag chat_service \<Rightarrow>
     session_summary api_result \<times> 'ag chat_service" where
  "service_create_session ops request now sv =
     (if \<not> is_ready ops sv then (Inl (not_ready_error ''agent_not_ready''), sv)
      else case create_session request now (sv_session_store sv) of
             (r, store) \<Rightarrow> (r, sv\<lparr>sv_session_store := store\<rparr>))"

definition service_get_session ::
  "string \<Rightarrow> int \<Rightarrow> 'ag chat_service \<Rightarrow> session_summary api_result \<times> 'ag chat_service" where
  "service_get_session session_id now sv =
     (case get_session session_id now (sv_session_store sv) of
        (r, store) \<Rightarrow> (r, sv\<lparr>sv_session_store := store\<rparr>))"

definition service_delete_session ::
  "'ag agent_ops \<Rightarrow> string \<Rightarrow> 'ag chat_service \<Rightarrow> unit api_result \<times> 'ag chat_service" where
  "service_delete_session ops session_id sv =
     (case delete_session session_id (sv_session_store sv) of
        (Inl e, store) \<Rightarrow> (Inl e, sv\<lparr>sv_session_store := store\<rparr>)
      | (Inr u, store) \<Rightarrow>
          let sv = sv\<lparr>sv_session_store := store\<rparr>
          in case map_of (sv_active_session_requests sv) session_id of
               None \<Rightarrow> (Inr u, sv)
             | Some zoo_request_id \<Rightarrow>
                 let sv = untrack_session_request session_id sv
                 in (Inr u, if zoo_request_id \<noteq> 0 then run_cancel ops zoo_request_id sv else sv))"

section \<open>Retained history and system prompt\<close>

text \<open>
  \<^verbatim>\<open>static_cast<int>(size() / 4)\<close> keeps the low 32 bits as a signed number; the sum is an \<^verbatim>\<open>int\<close>
  whose overflow the language leaves undefined, so the bound proved below is what excludes it.
\<close>

definition message_tokens :: "chat_message \<Rightarrow> int" where
  "message_tokens message = sint (of_nat (length (msg_content message) div 4) :: 32 word) + 8"

fun estimate_loop :: "chat_message list \<Rightarrow> int \<Rightarrow> int" where
  "estimate_loop [] subtotal = subtotal"
| "estimate_loop (message # rest) subtotal = estimate_loop rest (subtotal + message_tokens message)"

definition estimate_history_tokens :: "chat_message list \<Rightarrow> int" where
  "estimate_history_tokens history = estimate_loop history 0"

definition snapshot_of :: "'ag chat_service \<Rightarrow> chat_message list \<Rightarrow> agent_history_snapshot" where
  "snapshot_of sv history =
     (let estimated_tokens = estimate_history_tokens history
      in \<lparr>ah_messages = history, ah_estimated_tokens = estimated_tokens,
          ah_context_size = sv_context_size sv,
          ah_context_exceeded = (estimated_tokens > sv_context_size sv)\<rparr>)"

definition make_agent_history_snapshot :: "'ag chat_service \<Rightarrow> agent_history_snapshot" where
  "make_agent_history_snapshot sv = snapshot_of sv (sv_agent_history sv)"

definition update_system_prompt_state :: "string \<Rightarrow> 'ag chat_service \<Rightarrow> 'ag chat_service" where
  "update_system_prompt_state prompt sv =
     (let sv = sv\<lparr>sv_request_system_prompt := prompt\<rparr>;
          history = sv_agent_history sv
      in if history \<noteq> [] \<and> msg_role (hd history) = System
         then (if prompt = [] then sv\<lparr>sv_agent_history := tl history\<rparr>
               else sv\<lparr>sv_agent_history := (hd history)\<lparr>msg_content := prompt\<rparr> # tl history\<rparr>)
         else if prompt \<noteq> [] then sv\<lparr>sv_agent_history := system_message prompt # history\<rparr>
         else sv)"

definition reset_agent_history_to_system_prompt :: "'ag chat_service \<Rightarrow> 'ag chat_service" where
  "reset_agent_history_to_system_prompt sv =
     sv\<lparr>sv_agent_history :=
          (if sv_request_system_prompt sv \<noteq> [] then [system_message (sv_request_system_prompt sv)] else [])\<rparr>"

definition get_agent_history :: "'ag agent_ops \<Rightarrow> 'ag chat_service \<Rightarrow> agent_history_snapshot api_result" where
  "get_agent_history ops sv =
     (if \<not> is_ready ops sv then Inl (not_ready_error ''agent_not_ready'')
      else Inr (make_agent_history_snapshot sv))"

definition clear_agent_history ::
  "'ag agent_ops \<Rightarrow> 'ag chat_service \<Rightarrow> unit api_result \<times> 'ag chat_service" where
  "clear_agent_history ops sv =
     (if \<not> is_ready ops sv then (Inl (not_ready_error ''agent_not_ready''), sv)
      else (Inr (), reset_agent_history_to_system_prompt sv))"

definition replace_agent_history ::
  "'ag agent_ops \<Rightarrow> chat_message list \<Rightarrow> 'ag chat_service \<Rightarrow>
     agent_history_snapshot api_result \<times> 'ag chat_service" where
  "replace_agent_history ops messages sv =
     (if \<not> is_ready ops sv then (Inl (not_ready_error ''agent_not_ready''), sv)
      else let sv = sv\<lparr>sv_agent_history := messages\<rparr> in (Inr (make_agent_history_snapshot sv), sv))"

definition swap_agent_history ::
  "'ag agent_ops \<Rightarrow> chat_message list \<Rightarrow> 'ag chat_service \<Rightarrow>
     agent_history_snapshot api_result \<times> 'ag chat_service" where
  "swap_agent_history ops messages sv =
     (if \<not> is_ready ops sv then (Inl (not_ready_error ''agent_not_ready''), sv)
      else let previous = sv_agent_history sv
           in (Inr (snapshot_of sv previous), sv\<lparr>sv_agent_history := messages\<rparr>))"

definition append_agent_history_message ::
  "'ag agent_ops \<Rightarrow> role_validator \<Rightarrow> chat_message \<Rightarrow> 'ag chat_service \<Rightarrow>
     agent_history_snapshot api_result \<times> 'ag chat_service" where
  "append_agent_history_message ops vrs message sv =
     (if \<not> is_ready ops sv then (Inl (not_ready_error ''agent_not_ready''), sv)
      else case validate_message_sequence vrs (sv_agent_history sv) (msg_role message) of
             Inl e \<Rightarrow> (Inl (invalid_request_error e (Some ''message'') (Some ''invalid_message_sequence'')), sv)
           | Inr _ \<Rightarrow>
               let sv = sv\<lparr>sv_agent_history := sv_agent_history sv @ [message]\<rparr>
               in (Inr (make_agent_history_snapshot sv), sv))"

definition get_system_prompt :: "'ag chat_service \<Rightarrow> string api_result" where
  "get_system_prompt sv = Inr (sv_request_system_prompt sv)"

definition set_system_prompt ::
  "'ag agent_ops \<Rightarrow> string \<Rightarrow> 'ag chat_service \<Rightarrow> string api_result \<times> 'ag chat_service" where
  "set_system_prompt ops prompt sv =
     (let sv = update_system_prompt_state prompt sv;
          local_prompt = sv_request_system_prompt sv;
          sv = sv\<lparr>sv_agent := map_option (ag_set_system_prompt ops local_prompt) (sv_agent sv)\<rparr>;
          sv = sv\<lparr>sv_session_store := set_base_system_prompt local_prompt (sv_session_store sv)\<rparr>
      in (Inr local_prompt, sv))"

definition reap_sessions :: "int \<Rightarrow> 'ag chat_service \<Rightarrow> 'ag chat_service" where
  "reap_sessions now sv = sv\<lparr>sv_session_store := reap_expired_sessions now (sv_session_store sv)\<rparr>"

definition service_stop :: "'ag agent_ops \<Rightarrow> 'ag chat_service \<Rightarrow> 'ag chat_service" where
  "service_stop ops sv =
     (let sv = sv\<lparr>sv_session_store := store_stop (sv_session_store sv)\<rparr>
      in sv\<lparr>sv_agent := map_option (ag_stop ops) (sv_agent sv)\<rparr>)"

section \<open>What a started request is\<close>

lemma start_session_completion_Inr:
  assumes "start_session_completion ops ck request k sv = (Inr p, sv')"
  obtains b store h a where "is_ready ops sv"
    "begin_request request (sv_next_completion_id sv) (ck_reap ck) (ck_now ck) (ck_touch ck) (sv_session_store sv)
       = (Inr b, store)"
    "p = \<lparr>pd_id = completion_name (sv_next_completion_id sv), pd_created = br_started_at b,
          pd_model = sv_model_id sv, pd_handle = h,
          pd_on_result = Commit_session k (sv_next_completion_id sv) (br_user_message b),
          pd_cancel = handle_id h,
          pd_lease = Unregister_and_release (completion_name (sv_next_completion_id sv)) k (sv_next_completion_id sv)\<rparr>"
    "sv' = sv\<lparr>sv_next_completion_id := sv_next_completion_id sv + 1, sv_session_store := store,
            sv_agent := Some a,
            sv_active_session_requests := al_put k (handle_id h) (sv_active_session_requests sv),
            sv_public_request_cancellers :=
              al_put (completion_name (sv_next_completion_id sv)) (handle_id h) (sv_public_request_cancellers sv)\<rparr>"
proof (cases "is_ready ops sv")
  case False
  with assms show ?thesis by (simp add: start_session_completion_def)
next
  case True
  let ?n = "sv_next_completion_id sv"
  obtain r store where r: "begin_request request ?n (ck_reap ck) (ck_now ck) (ck_touch ck)
      (sv_session_store sv) = (r, store)" by fastforce
  from assms True r obtain b where b: "r = Inr b"
    by (cases r) (auto simp: start_session_completion_def take_completion_id_def Let_def)
  let ?o = "merge_chat_overrides (sv_default_generation sv) request"
  obtain i res a where ag: "ag_complete ops (br_messages b) ?o (the (sv_agent sv)) = (i, res, a)"
    by (metis prod_cases3)
  show ?thesis
    by (rule that [of b store "wrap_zoo_handle i res" a])
      (use assms True r b ag in \<open>auto simp: start_session_completion_def take_completion_id_def Let_def
        agent_complete_def track_session_request_def register_public_request_def\<close>)
qed

lemma begin_request_validated:
  assumes "begin_request request r t0 t1 t2 st = (Inr b, st')"
  obtains k m where "begin_validate request st = Inr (k, m)" "cc_session_id request = Some k"
    "cc_messages request = [m]" "msg_role m = User" "cc_model request = st_model_id st"
proof (cases "begin_validate request st")
  case (Inl e)
  with assms show ?thesis by (simp add: begin_request_def)
next
  case (Inr km)
  obtain k m where km: "km = (k, m)" by (cases km)
  with Inr have "cc_session_id request = Some k \<and> cc_messages request = [m] \<and> msg_role m = User
      \<and> cc_model request = st_model_id st"
    by (auto simp: begin_validate_def split: if_splits option.splits list.splits)
  with Inr km show ?thesis by (blast intro: that)
qed

section \<open>Properties\<close>



text \<open>A concrete agent for the witnesses: a request counter and the list of cancelled requests.\<close>

definition demo_ops :: "(u64 \<times> u64 list) agent_ops" where
  "demo_ops = \<lparr>ag_is_running = (\<lambda>_. True),
     ag_complete = (\<lambda>ms opts a. (fst a, None, (fst a + 1, snd a))),
     ag_extract = (\<lambda>schema ms opts a. (fst a, None, (fst a + 1, snd a))),
     ag_cancel = (\<lambda>i a. (fst a, snd a @ [i])), ag_set_system_prompt = (\<lambda>_ a. a), ag_stop = (\<lambda>a. a)\<rparr>"

definition demo_options :: generation_options where
  "demo_options = \<lparr>go_sampling = \<lparr>sp_temperature = 0, sp_top_p = 0, sp_top_k = 40, sp_repeat_penalty = 0,
     sp_repeat_last_n = 64, sp_seed = 0\<rparr>, go_max_tokens = 512, go_stop_sequences = [],
     go_record_tool_trace = False\<rparr>"

definition demo_service :: "(u64 \<times> u64 list) chat_service" where
  "demo_service = make_chat_service ''m'' 100 ''Be brief.'' [] (Some (50, [])) demo_store1 demo_options"

definition demo_clock :: clock_readings where
  "demo_clock = \<lparr>ck_reap = 101, ck_now = 101, ck_touch = 102\<rparr>"

definition demo_started :: "completion_result pending" where
  "demo_started = \<lparr>pd_id = ''chatcmpl-1'', pd_created = 101, pd_model = ''m'',
     pd_handle = make_completion_handle 50 None,
     pd_on_result = Commit_session ''sess-1'' 1 (user_message ''hi''), pd_cancel = 50,
     pd_lease = Unregister_and_release ''chatcmpl-1'' ''sess-1'' 1\<rparr>"

definition demo_service1 :: "(u64 \<times> u64 list) chat_service" where
  "demo_service1 = demo_service\<lparr>sv_next_completion_id := 2, sv_agent := Some (51, []),
     sv_session_store := demo_store1\<lparr>st_heap := [demo_session\<lparr>s_last_used := 102, s_expires_at := 1002,
       s_active_request := Some 1\<rparr>]\<rparr>,
     sv_active_session_requests := [(''sess-1'', 50)], sv_public_request_cancellers := [(''chatcmpl-1'', 50)]\<rparr>"

lemma completion_name_12: "completion_name 1 = ''chatcmpl-1''" "completion_name 2 = ''chatcmpl-2''"
  by (simp_all add: completion_name_def string_of_nat.simps digit_char_def) code_simp+

lemmas demo_service_defs = demo_service1_def demo_service_def make_chat_service_def demo_clock_def
  demo_started_def demo_ops_def demo_defs

lemma demo_start:
  "start_completion demo_ops demo_clock demo_request demo_service = (Inr demo_started, demo_service1)"
  by (simp add: demo_service_defs start_completion_def start_session_completion_def is_ready_def
      take_completion_id_def Let_def begin_request_def begin_validate_def begin_lookup_def
      begin_activate_def sessions_enabled_def reap_expired_sessions_locked_def should_expire_def
      agent_complete_def wrap_zoo_handle_def make_completion_handle_def track_session_request_def
      register_public_request_def al_put_def al_erase_def touch_session_def completion_name_12
      user_message_def)


text \<open>
  C38. Deleting a session stops its generation: when a request is tracked for the session, a
  successful delete cancels exactly that request on the agent, forgets it, and removes the session
  from the store's view; other sessions and public requests are untouched.
\<close>

theorem delete_session_cancels:
  assumes "store_wf (sv_session_store sv)" and "sv_agent sv = Some a" and "z \<noteq> 0"
    and "map_of (sv_active_session_requests sv) k = Some z"
    and "service_delete_session ops k sv = (Inr u, sv')"
  shows "sv_agent sv' = Some (ag_cancel ops z a)
    \<and> map_of (sv_active_session_requests sv') = (map_of (sv_active_session_requests sv))(k := None)
    \<and> session_view (sv_session_store sv') = (session_view (sv_session_store sv))(k := None)
    \<and> sv_public_request_cancellers sv' = sv_public_request_cancellers sv"
proof -
  obtain r store where d: "delete_session k (sv_session_store sv) = (r, store)" by fastforce
  with assms(5) have r: "r = Inr u" by (cases r) (auto simp: service_delete_session_def Let_def split: option.splits)
  have "sessions_enabled (st_config (sv_session_store sv))"
    using d r by (auto simp: delete_session_def split: if_splits)
  from view_delete [OF assms(1) this, of k] d r assms show ?thesis
    by (auto simp: service_delete_session_def Let_def run_cancel_def untrack_session_request_def
        store_simps fun_eq_iff)
qed

lemma demo_delete:
  "service_delete_session demo_ops ''sess-1'' demo_service1 =
     (Inr (), demo_service1\<lparr>sv_agent := Some (51, [50]), sv_active_session_requests := [],
        sv_session_store := snd (delete_session ''sess-1'' (sv_session_store demo_service1))\<rparr>)"
  by (simp add: service_delete_session_def delete_session_def erase_section_def close_section_def
      demo_service_defs sessions_enabled_def Let_def untrack_session_request_def al_erase_def run_cancel_def)

lemma demo_service1_wf: "store_wf (sv_session_store demo_service1)"
  by (simp add: demo_service_defs store_wf_def)

theorem delete_session_cancels_witness:
  "sv_agent (snd (service_delete_session demo_ops ''sess-1'' demo_service1)) = Some (ag_cancel demo_ops 50 (51, []))"
proof -
  have "sv_agent demo_service1 = Some (51, [])" "map_of (sv_active_session_requests demo_service1) ''sess-1'' = Some 50"
    by (simp_all add: demo_service1_def)
  from delete_session_cancels [OF demo_service1_wf this(1) _ this(2) demo_delete] demo_delete
  show ?thesis by simp
qed

text \<open>
  The tracking can be lost. The lease of a finished request untracks its session by
  identifier only. When it is released after a later request on the same session has started, that
  later request, though tracked when it started, is not tracked any more, and deleting the session
  succeeds without cancelling it: the agent is left as it was.
\<close>

theorem late_release_hides_running_request:
  assumes "start_completion ops ck request sv = (Inr p, sv1)" and "cc_session_id request = Some k"
    and "service_delete_session ops k (run_release t (Unregister_and_release old_id k old_tracking) sv1) = (Inr u, sv2)"
  shows "map_of (sv_active_session_requests sv1) k = Some (pd_cancel p) \<and> sv_agent sv2 = sv_agent sv1"
proof
  from assms(1,2) have "start_session_completion ops ck request k sv = (Inr p, sv1)"
    by (simp add: start_completion_def)
  then show "map_of (sv_active_session_requests sv1) k = Some (pd_cancel p)"
    by (rule start_session_completion_Inr) (simp add: store_simps)
  let ?sv = "run_release t (Unregister_and_release old_id k old_tracking) sv1"
  have "map_of (sv_active_session_requests ?sv) k = None"
    by (simp add: run_release_def Let_def untrack_session_request_def unregister_public_request_def store_simps)
  moreover have "sv_agent ?sv = sv_agent sv1"
    by (simp add: run_release_def Let_def untrack_session_request_def unregister_public_request_def)
  ultimately show "sv_agent sv2 = sv_agent sv1" using assms(3)
    by (auto simp: service_delete_session_def Let_def split: prod.splits sum.splits)
qed

theorem late_release_hides_running_request_witness:
  "map_of (sv_active_session_requests demo_service1) ''sess-1'' = Some (pd_cancel demo_started)
   \<and> sv_agent (snd (service_delete_session demo_ops ''sess-1''
        (run_release 103 (Unregister_and_release ''chatcmpl-0'' ''sess-1'' 0) demo_service1))) = sv_agent demo_service1"
proof -
  have k: "cc_session_id demo_request = Some ''sess-1''" by (simp add: demo_request_def)
  have "fst (service_delete_session demo_ops ''sess-1''
      (run_release 103 (Unregister_and_release ''chatcmpl-0'' ''sess-1'' 0) demo_service1)) = Inr ()"
    by (simp add: service_delete_session_def delete_session_def erase_section_def close_section_def
        demo_service_defs sessions_enabled_def Let_def untrack_session_request_def al_erase_def run_cancel_def
        run_release_def unregister_public_request_def release_request_def release_section_def)
  then obtain sv2 where "service_delete_session demo_ops ''sess-1''
      (run_release 103 (Unregister_and_release ''chatcmpl-0'' ''sess-1'' 0) demo_service1) = (Inr (), sv2)"
    by (metis prod.collapse)
  from late_release_hides_running_request [OF demo_start k this] this show ?thesis by simp
qed

text \<open>
  Changing the system prompt keeps its four copies together: the service's prompt, the
  agent's, the one new sessions are seeded with and the retained history. A non-empty prompt is
  the content of the history's leading system message, an empty one removes that message, and the
  conversation after the leading system message is unchanged.
\<close>

theorem system_prompt_stays_aligned:
  "let (r, sv') = set_system_prompt ops prompt sv;
       conversation = (\<lambda>h. drop (system_offset h) h)
   in r = Inr prompt \<and> sv_request_system_prompt sv' = prompt
      \<and> sv_agent sv' = map_option (ag_set_system_prompt ops prompt) (sv_agent sv)
      \<and> st_base_system_prompt (sv_session_store sv') = prompt
      \<and> session_view (sv_session_store sv') = session_view (sv_session_store sv)
      \<and> (if prompt = [] then sv_agent_history sv' = conversation (sv_agent_history sv)
         else \<exists>m. sv_agent_history sv' = m # conversation (sv_agent_history sv)
                \<and> msg_role m = System \<and> msg_content m = prompt)"
  by (cases "sv_agent_history sv")
    (auto simp: set_system_prompt_def update_system_prompt_state_def Let_def set_base_system_prompt_def
      system_offset_def session_view_def fun_eq_iff)

text \<open>
  The configured prompt cannot be dropped by a request: what is sent to the agent for a
  request without session starts with a system message whose text starts with the configured
  prompt and ends with the request's own system text, if it has one, and goes on with the
  request's other messages unchanged.
\<close>

theorem configured_prompt_comes_first:
  assumes "prompt \<noteq> []"
  shows "\<exists>text. prepare_messages prompt request =
       system_message text # drop (system_offset (cc_messages request)) (cc_messages request)
     \<and> take (length prompt) text = prompt
     \<and> (system_offset (cc_messages request) = 1 \<longrightarrow>
          (\<exists>pre. text = pre @ msg_content (hd (cc_messages request))))"
proof (cases "system_offset (cc_messages request) = 1")
  case True
  let ?own = "msg_content (hd (cc_messages request))"
  from True have "cc_messages request \<noteq> []" "msg_role (hd (cc_messages request)) = System"
    by (auto simp: system_offset_def split: if_splits)
  then have "prepare_messages prompt request =
      system_message (combine_system_prompts prompt ?own) # drop 1 (cc_messages request)"
    using assms by (simp add: prepare_messages_def drop_Suc)
  moreover have "take (length prompt) (combine_system_prompts prompt ?own) = prompt"
    using combine_system_prompts_prefix [of prompt ?own] by auto
  ultimately show ?thesis using True combine_system_prompts_suffix [of prompt ?own] by auto
next
  case False
  then have "system_offset (cc_messages request) = 0" by (auto simp: system_offset_def)
  moreover from this have "prepare_messages prompt request = system_message prompt # cc_messages request"
    using assms by (auto simp: prepare_messages_def system_offset_def split: if_splits)
  ultimately show ?thesis by auto
qed

theorem configured_prompt_comes_first_witness:
  "\<exists>text. prepare_messages ''Be brief.'' demo_request = system_message text # [user_message ''hi'']
     \<and> take 9 text = ''Be brief.''"
  using configured_prompt_comes_first [of "''Be brief.''" demo_request]
  by (auto simp: demo_request_def system_offset_def eval_nat_numeral)

section \<open>Starts that fail and identifiers\<close>

text \<open>What a service shows of the requests it has under way.\<close>

definition same_requests :: "'ag chat_service \<Rightarrow> 'ag chat_service \<Rightarrow> bool" where
  "same_requests sv sv' \<longleftrightarrow>
     sv_agent sv' = sv_agent sv \<and> sv_active_session_requests sv' = sv_active_session_requests sv \<and>
     sv_public_request_cancellers sv' = sv_public_request_cancellers sv \<and>
     sv_agent_history sv' = sv_agent_history sv \<and>
     sv_request_system_prompt sv' = sv_request_system_prompt sv"

lemma begin_validate_error_wf: "begin_validate request st = Inl e \<Longrightarrow> api_error_wf e"
  by (auto simp: begin_validate_def disabled_error_def unknown_model_error_def split: if_splits option.splits list.splits)

lemma begin_request_error_wf:
  assumes "begin_request request r t0 t1 t2 st = (Inl e, st')"
  shows "api_error_wf e"
proof (cases "begin_validate request st")
  case (Inl e')
  with assms begin_validate_error_wf show ?thesis by (auto simp: begin_request_def)
next
  case (Inr km)
  obtain k m where "km = (k, m)" by (cases km)
  with assms Inr show ?thesis
    by (auto simp: begin_request_def begin_lookup_def begin_activate_def unknown_session_error_def Let_def
        split: option.splits if_splits)
qed

lemma start_session_completion_Inl:
  assumes "start_session_completion ops ck request k sv = (Inl e, sv')"
  shows "same_requests sv sv' \<and> api_error_wf e"
proof (cases "is_ready ops sv")
  case False
  with assms show ?thesis by (auto simp: start_session_completion_def same_requests_def not_ready_error_def)
next
  case True
  let ?n = "sv_next_completion_id sv"
  obtain r store where r: "begin_request request ?n (ck_reap ck) (ck_now ck) (ck_touch ck)
      (sv_session_store sv) = (r, store)" by fastforce
  with assms True have "r = Inl e" "sv' = sv\<lparr>sv_next_completion_id := ?n + 1, sv_session_store := store\<rparr>"
    by (cases r; auto simp: start_session_completion_def take_completion_id_def Let_def split: prod.splits)+
  with r begin_request_error_wf show ?thesis by (auto simp: same_requests_def)
qed

lemma start_session_extraction_Inl:
  assumes "start_session_extraction ops ck request k sv = (Inl e, sv')"
  shows "same_requests sv sv' \<and> api_error_wf e"
proof (cases "is_ready ops sv")
  case False
  with assms show ?thesis by (auto simp: start_session_extraction_def same_requests_def not_ready_error_def)
next
  case True
  let ?n = "sv_next_completion_id sv"
  let ?q = "\<lparr>cc_model = ex_model request, cc_messages = ex_messages request, cc_stream = False,
     cc_session_id = ex_session_id request, cc_overrides = no_overrides\<rparr>"
  obtain r store where r: "begin_request ?q ?n (ck_reap ck) (ck_now ck) (ck_touch ck)
      (sv_session_store sv) = (r, store)" by fastforce
  with assms True have "r = Inl e" "sv' = sv\<lparr>sv_next_completion_id := ?n + 1, sv_session_store := store\<rparr>"
    by (cases r; auto simp: start_session_extraction_def take_completion_id_def Let_def split: prod.splits)+
  with r begin_request_error_wf show ?thesis by (auto simp: same_requests_def)
qed

lemma start_completion_Inl:
  assumes "start_completion ops ck request sv = (Inl e, sv')"
  shows "same_requests sv sv' \<and> api_error_wf e"
proof (cases "cc_session_id request")
  case None
  with assms show ?thesis
    by (auto simp: start_completion_def same_requests_def not_ready_error_def unknown_model_error_def Let_def
        split: if_splits prod.splits)
next
  case (Some k)
  with assms show ?thesis by (simp add: start_completion_def start_session_completion_Inl)
qed

lemma start_extraction_Inl:
  assumes "start_extraction ops ck request sv = (Inl e, sv')"
  shows "same_requests sv sv' \<and> api_error_wf e"
proof (cases "ex_session_id request")
  case None
  with assms show ?thesis
    by (auto simp: start_extraction_def same_requests_def not_ready_error_def unknown_model_error_def Let_def
        split: if_splits prod.splits)
next
  case (Some k)
  with assms show ?thesis by (simp add: start_extraction_def start_session_extraction_Inl)
qed

lemma start_agent_chat_Inl:
  assumes "start_agent_chat ops vrs ck request sv = (Inl e, sv')"
  shows "same_requests sv sv' \<and> api_error_wf e"
  using assms
  by (auto simp: start_agent_chat_def same_requests_def not_ready_error_def unknown_model_error_def Let_def
      split: if_splits prod.splits sum.splits)

text \<open>Every registered identifier was made from a counter value already used.\<close>

definition requests_below :: "'ag chat_service \<Rightarrow> bool" where
  "requests_below sv \<longleftrightarrow>
     (\<forall>i \<in> set (al_keys (sv_public_request_cancellers sv)).
        \<exists>j < sv_next_completion_id sv. i = completion_name j \<or> i = extraction_name j)"

lemma request_names [simp]:
  "completion_name i = completion_name j \<longleftrightarrow> i = j"
  "extraction_name i = extraction_name j \<longleftrightarrow> i = j"
  "completion_name i \<noteq> extraction_name j" "extraction_name j \<noteq> completion_name i"
  by (simp_all add: completion_name_def extraction_name_def word_unat_eq_iff)

lemma requests_below_put:
  assumes "requests_below sv" and "sv_next_completion_id sv < - 1"
    and "i = completion_name (sv_next_completion_id sv) \<or> i = extraction_name (sv_next_completion_id sv)"
    and "sv_public_request_cancellers sv' = al_put i z (sv_public_request_cancellers sv)"
    and "sv_next_completion_id sv' = sv_next_completion_id sv + 1"
  shows "requests_below sv' \<and> map_of (sv_public_request_cancellers sv) i = None
    \<and> map_of (sv_public_request_cancellers sv') = (map_of (sv_public_request_cancellers sv))(i \<mapsto> z)"
proof -
  let ?n = "sv_next_completion_id sv"
  have less: "?n < ?n + 1"
    using assms(2) by unat_arith
  have "requests_below sv'"
    unfolding requests_below_def
  proof
    fix x assume "x \<in> set (al_keys (sv_public_request_cancellers sv'))"
    then consider "x = i" | "x \<in> set (al_keys (sv_public_request_cancellers sv))"
      using assms(4) by (auto simp: al_put_def al_erase_def)
    then show "\<exists>j < sv_next_completion_id sv'. x = completion_name j \<or> x = extraction_name j"
    proof cases
      case 1
      with assms(3,5) less show ?thesis by auto
    next
      case 2
      with assms(1) obtain j where "j < ?n" "x = completion_name j \<or> x = extraction_name j"
        by (auto simp: requests_below_def)
      with assms(5) less show ?thesis by (auto intro: less_trans)
    qed
  qed
  moreover have "map_of (sv_public_request_cancellers sv) i = None"
    using assms(1,3) by (auto simp: requests_below_def map_of_eq_None_iff)
  moreover have "map_of (sv_public_request_cancellers sv') = (map_of (sv_public_request_cancellers sv))(i \<mapsto> z)"
    by (auto simp: assms(4) store_simps)
  ultimately show ?thesis by blast
qed


lemma start_session_extraction_Inr:
  assumes "start_session_extraction ops ck request k sv = (Inr p, sv')"
  obtains h where "pd_id p = extraction_name (sv_next_completion_id sv)" "pd_cancel p = handle_id h" "pd_handle p = h"
    "sv_next_completion_id sv' = sv_next_completion_id sv + 1"
    "sv_public_request_cancellers sv' =
       al_put (extraction_name (sv_next_completion_id sv)) (handle_id h) (sv_public_request_cancellers sv)"
  using assms
  by (auto simp: start_session_extraction_def take_completion_id_def Let_def agent_extract_def
      track_session_request_def register_public_request_def split: if_splits prod.splits sum.splits)

lemma start_completion_registers:
  assumes "start_completion ops ck request sv = (Inr p, sv')"
  shows "pd_id p = completion_name (sv_next_completion_id sv) \<and> pd_cancel p = handle_id (pd_handle p)
    \<and> sv_next_completion_id sv' = sv_next_completion_id sv + 1
    \<and> sv_public_request_cancellers sv' = al_put (pd_id p) (pd_cancel p) (sv_public_request_cancellers sv)"
proof (cases "cc_session_id request")
  case None
  with assms show ?thesis
    by (auto simp: start_completion_def take_completion_id_def agent_complete_def register_public_request_def
        Let_def split: if_splits prod.splits)
next
  case (Some k)
  with assms have "start_session_completion ops ck request k sv = (Inr p, sv')"
    by (simp add: start_completion_def)
  then show ?thesis by (rule start_session_completion_Inr) simp
qed

lemma start_extraction_registers:
  assumes "start_extraction ops ck request sv = (Inr p, sv')"
  shows "pd_id p = extraction_name (sv_next_completion_id sv) \<and> pd_cancel p = handle_id (pd_handle p)
    \<and> sv_next_completion_id sv' = sv_next_completion_id sv + 1
    \<and> sv_public_request_cancellers sv' = al_put (pd_id p) (pd_cancel p) (sv_public_request_cancellers sv)"
proof (cases "ex_session_id request")
  case None
  with assms show ?thesis
    by (auto simp: start_extraction_def take_completion_id_def agent_extract_def register_public_request_def
        Let_def split: if_splits prod.splits)
next
  case (Some k)
  with assms have "start_session_extraction ops ck request k sv = (Inr p, sv')"
    by (simp add: start_extraction_def)
  then show ?thesis by (rule start_session_extraction_Inr) simp
qed

lemma start_agent_chat_registers:
  assumes "start_agent_chat ops vrs ck request sv = (Inr p, sv')"
  shows "pd_id p = completion_name (sv_next_completion_id sv) \<and> pd_cancel p = handle_id (pd_handle p)
    \<and> sv_next_completion_id sv' = sv_next_completion_id sv + 1
    \<and> sv_public_request_cancellers sv' = al_put (pd_id p) (pd_cancel p) (sv_public_request_cancellers sv)"
  using assms
  by (auto simp: start_agent_chat_def take_completion_id_def agent_complete_def register_public_request_def
      Let_def split: if_splits prod.splits sum.splits)

text \<open>
  A start that is refused leaves no trace: for completions, extractions and retained-agent
  chats, with or without session, an error answer is well formed and the agent, the tracked
  session requests, the registered public requests, the retained history and the prompt are
  unchanged.
\<close>

theorem refused_start_leaves_no_trace:
  assumes "start_completion ops ck q sv = (Inl e1, sv1)" and "start_extraction ops ck x sv = (Inl e2, sv2)"
    and "start_agent_chat ops vrs ck c sv = (Inl e3, sv3)"
  shows "same_requests sv sv1 \<and> same_requests sv sv2 \<and> same_requests sv sv3
    \<and> api_error_wf e1 \<and> api_error_wf e2 \<and> api_error_wf e3"
  using start_completion_Inl [OF assms(1)] start_extraction_Inl [OF assms(2)] start_agent_chat_Inl [OF assms(3)]
  by blast

theorem refused_start_leaves_no_trace_witness:
  "same_requests (demo_service\<lparr>sv_agent := None\<rparr>)
     (snd (start_completion demo_ops demo_clock demo_request (demo_service\<lparr>sv_agent := None\<rparr>)))"
proof -
  let ?sv = "demo_service\<lparr>sv_agent := None\<rparr>"
  let ?x = "\<lparr>ex_model = ''m'', ex_schema = JObject [], ex_messages = [user_message ''hi''], ex_stream = False,
     ex_session_id = None, ex_overrides = no_overrides\<rparr>"
  let ?c = "\<lparr>ac_model = ''m'', ac_message = user_message ''hi'', ac_overrides = no_overrides\<rparr>"
  have "\<not> is_ready demo_ops ?sv" by (simp add: is_ready_def)
  then have q: "start_completion demo_ops demo_clock demo_request ?sv = (Inl (not_ready_error ''not_ready''), ?sv)"
    and x: "start_extraction demo_ops demo_clock ?x ?sv = (Inl (not_ready_error ''not_ready''), ?sv)"
    and c: "start_agent_chat demo_ops demo_validator demo_clock ?c ?sv = (Inl (not_ready_error ''not_ready''), ?sv)"
    by (simp_all add: start_completion_def start_session_completion_def start_extraction_def
        start_agent_chat_def demo_request_def)
  from refused_start_leaves_no_trace [OF q x c] q show ?thesis by simp
qed

text \<open>
  Public request ids are never reused: as long as the counter has not reached its last value,
  a started completion gets an id that no registered request has, the registration adds exactly
  this id with the canceller of the new request, \<open>cancel_request\<close> on it cancels exactly that
  request, and the invariant that all registered ids come from used counter values is kept, by
  completions, extractions and retained-agent chats alike.
\<close>

theorem request_ids_are_fresh:
  assumes "requests_below sv" and "sv_next_completion_id sv < - 1"
    and "start_completion ops ck q sv = (Inr p, sv1)"
    and "start_extraction ops ck x sv = (Inr px, sv2) \<or> start_agent_chat ops vrs ck c sv = (Inr pc, sv2)"
  shows "requests_below sv1 \<and> requests_below sv2
    \<and> map_of (sv_public_request_cancellers sv) (pd_id p) = None
    \<and> map_of (sv_public_request_cancellers sv1) = (map_of (sv_public_request_cancellers sv))(pd_id p \<mapsto> pd_cancel p)
    \<and> cancel_request ops (pd_id p) sv1 = (Inr (), run_cancel ops (pd_cancel p) sv1)"
proof -
  from start_completion_registers [OF assms(3)]
  have p: "requests_below sv1 \<and> map_of (sv_public_request_cancellers sv) (pd_id p) = None
      \<and> map_of (sv_public_request_cancellers sv1) = (map_of (sv_public_request_cancellers sv))(pd_id p \<mapsto> pd_cancel p)"
    by (intro requests_below_put [OF assms(1,2)]) auto
  have "requests_below sv2"
    using assms(4)
  proof
    assume "start_extraction ops ck x sv = (Inr px, sv2)"
    from start_extraction_registers [OF this] show ?thesis
      using requests_below_put [OF assms(1,2), of "pd_id px" sv2 "pd_cancel px"] by auto
  next
    assume "start_agent_chat ops vrs ck c sv = (Inr pc, sv2)"
    from start_agent_chat_registers [OF this] show ?thesis
      using requests_below_put [OF assms(1,2), of "pd_id pc" sv2 "pd_cancel pc"] by auto
  qed
  with p show ?thesis by (simp add: cancel_request_def)
qed

definition demo_agent_chat :: agent_chat_request where
  "demo_agent_chat = \<lparr>ac_model = ''m'', ac_message = user_message ''hi'', ac_overrides = no_overrides\<rparr>"

definition demo_agent_pending :: "completion_result pending" where
  "demo_agent_pending = \<lparr>pd_id = ''chatcmpl-1'', pd_created = 101, pd_model = ''m'',
     pd_handle = make_completion_handle 50 None, pd_on_result = Append_to_history (user_message ''hi''),
     pd_cancel = 50, pd_lease = Unregister ''chatcmpl-1''\<rparr>"

definition demo_service2 :: "(u64 \<times> u64 list) chat_service" where
  "demo_service2 = demo_service\<lparr>sv_agent := Some (51, []), sv_next_completion_id := 2,
     sv_public_request_cancellers := [(''chatcmpl-1'', 50)]\<rparr>"

lemma demo_agent_start:
  "start_agent_chat demo_ops demo_validator demo_clock demo_agent_chat demo_service =
     (Inr demo_agent_pending, demo_service2)"
  by (simp add: demo_service2_def demo_agent_pending_def demo_agent_chat_def demo_service_defs
      start_agent_chat_def is_ready_def validate_message_sequence_def demo_validator_def take_completion_id_def
      agent_complete_def wrap_zoo_handle_def make_completion_handle_def register_public_request_def
      al_put_def al_erase_def Let_def completion_name_12)

theorem request_ids_are_fresh_witness:
  "cancel_request demo_ops ''chatcmpl-1'' demo_service1 = (Inr (), run_cancel demo_ops 50 demo_service1)
   \<and> requests_below demo_service1 \<and> requests_below demo_service2"
proof -
  have "(1 :: u64) < - 1" by code_simp
  then have "requests_below demo_service" "sv_next_completion_id demo_service < - 1"
    by (simp_all add: requests_below_def demo_service_def make_chat_service_def)
  from request_ids_are_fresh [OF this demo_start disjI2 [OF demo_agent_start]]
  show ?thesis by (simp add: demo_started_def)
qed

section \<open>The retained history\<close>

lemma estimate_loop_sum: "estimate_loop ms t = t + sum_list (map message_tokens ms)"
  by (induction ms arbitrary: t) simp_all

lemma message_tokens_exact:
  assumes "length (msg_content m) div 4 < 2 ^ 31"
  shows "message_tokens m = int (length (msg_content m) div 4) + 8"
proof -
  have "uint (of_nat (length (msg_content m) div 4) :: 32 word) = int (length (msg_content m) div 4)"
    using assms by (simp add: uint_nat unat_of_nat)
  moreover have "sint w = uint w" if "uint w < 2 ^ 31" for w :: "32 word"
    using that order_trans [OF _ uint_nonnegative [of w], of "- 2147483648"]
    by (simp add: sint_uint signed_take_bit_int_eq_self_iff)
  ultimately show ?thesis using assms by (simp add: message_tokens_def)
qed

text \<open>
  The token estimate of a history is exact and never leaves the range of an \<^verbatim>\<open>int\<close> as long as
  the quarters of the texts and eight per message sum to less than \<open>2 ^ 31\<close>: every partial sum of
  the loop is then in range, the result is the sum, and the overflow flag of the snapshot is set
  exactly when this sum exceeds the context size.
\<close>

theorem history_estimate_exact:
  assumes "(\<Sum>m\<leftarrow>sv_agent_history sv. length (msg_content m) div 4 + 8) < 2 ^ 31"
  shows "let total = (\<Sum>m\<leftarrow>sv_agent_history sv. int (length (msg_content m) div 4) + 8);
             snap = make_agent_history_snapshot sv
         in ah_messages snap = sv_agent_history sv \<and> ah_estimated_tokens snap = total
          \<and> (ah_context_exceeded snap \<longleftrightarrow> total > sv_context_size sv)
          \<and> (\<forall>k. 0 \<le> estimate_history_tokens (take k (sv_agent_history sv))
                \<and> estimate_history_tokens (take k (sv_agent_history sv)) < 2 ^ 31)"
proof -
  let ?f = "\<lambda>m. length (msg_content m) div 4 + 8" and ?h = "sv_agent_history sv"
  have part: "sum_list (map ?f (take k ?h)) < 2 ^ 31" for k
  proof -
    have "sum_list (map ?f ?h) = sum_list (map ?f (take k ?h)) + sum_list (map ?f (drop k ?h))"
      by (metis append_take_drop_id map_append sum_list_append)
    with assms show ?thesis by linarith
  qed
  have exact: "sum_list (map ?f ms) < 2 ^ 31 \<Longrightarrow>
      sum_list (map message_tokens ms) = (\<Sum>m\<leftarrow>ms. int (length (msg_content m) div 4) + 8)
      \<and> sum_list (map message_tokens ms) = int (sum_list (map ?f ms))" for ms
    by (induction ms) (simp_all add: message_tokens_exact)
  have "estimate_history_tokens (take k ?h) = int (sum_list (map ?f (take k ?h)))" for k
    using conjunct2 [OF exact [OF part [of k]]] by (simp add: estimate_history_tokens_def estimate_loop_sum)
  then have "0 \<le> estimate_history_tokens (take k ?h) \<and> estimate_history_tokens (take k ?h) < 2 ^ 31" for k
    using part [of k] by simp
  moreover have "estimate_history_tokens ?h = (\<Sum>m\<leftarrow>?h. int (length (msg_content m) div 4) + 8)"
    using exact [OF assms] by (simp add: estimate_history_tokens_def estimate_loop_sum)
  ultimately show ?thesis
    by (simp add: Let_def make_agent_history_snapshot_def snapshot_of_def)
qed

theorem history_estimate_exact_witness:
  "ah_estimated_tokens (make_agent_history_snapshot demo_service) = 10"
  using history_estimate_exact [of demo_service]
  by (simp add: demo_service_def make_chat_service_def Let_def)

text \<open>
  Appending to the retained history through the endpoint keeps it a sequence the role
  validator accepts, or refuses with a 400 and leaves it unchanged.
\<close>

theorem append_keeps_history_accepted:
  assumes "accepted_sequence vrs (sv_agent_history sv)"
    and "append_agent_history_message ops vrs message sv = (r, sv')" and "is_ready ops sv"
  shows "accepted_sequence vrs (sv_agent_history sv')
    \<and> (case r of
         Inr snap \<Rightarrow> sv_agent_history sv' = sv_agent_history sv @ [message] \<and> ah_messages snap = sv_agent_history sv'
       | Inl e \<Rightarrow> sv' = sv \<and> client_error e)"
  using assms
  by (auto simp: append_agent_history_message_def validate_message_sequence_def Let_def
      make_agent_history_snapshot_def snapshot_of_def split: sum.splits)

theorem append_keeps_history_accepted_witness:
  "accepted_sequence demo_validator
     (sv_agent_history (snd (append_agent_history_message demo_ops demo_validator (user_message ''hi'') demo_service)))"
proof -
  have "accepted_sequence demo_validator (sv_agent_history demo_service)" "is_ready demo_ops demo_service"
    by (simp_all add: accepted_sequence_def demo_validator_def demo_service_def make_chat_service_def
        is_ready_def demo_ops_def)
  with append_keeps_history_accepted [of demo_validator demo_service demo_ops "user_message ''hi''"]
  show ?thesis by (metis prod.collapse)
qed

text \<open>
  A retained-agent chat does not keep it so: the request is validated when it starts, but its
  result is appended without looking at the history again. If a message is appended between the
  start and the result, the history ends with the two user messages in a row that the validator
  refuses.
\<close>

theorem agent_chat_result_not_revalidated:
  assumes "vrs = demo_validator" and "sv_agent_history sv = [system_message text]" and "is_ready ops sv"
    and "ac_message c = user_message u" and "ac_model c = sv_model_id sv"
    and "start_agent_chat ops vrs ck c sv = (Inr p, sv1)" and "is_ready ops sv1"
    and "append_agent_history_message ops vrs (user_message v) sv1 = (r2, sv2)"
    and "sv3 = observe t (pd_on_result p) (Inr res) sv2"
  shows "(\<exists>snap. r2 = Inr snap) \<and> accepted_sequence vrs (sv_agent_history sv2)
    \<and> sv_agent_history sv3 =
        [system_message text, user_message v, user_message u, assistant_message (cr_text res)]
    \<and> \<not> accepted_sequence vrs (sv_agent_history sv3)"
proof -
  have p: "pd_on_result p = Append_to_history (user_message u)" "sv_agent_history sv1 = [system_message text]"
    using assms(2-6)
    by (auto simp: start_agent_chat_def take_completion_id_def agent_complete_def register_public_request_def
        Let_def split: if_splits prod.splits sum.splits)
  have r2: "\<exists>snap. r2 = Inr snap" "sv_agent_history sv2 = [system_message text, user_message v]"
    using assms(1,7,8) p(2)
    by (auto simp: append_agent_history_message_def validate_message_sequence_def demo_validator_def Let_def)
  then have "sv_agent_history sv3 =
      [system_message text, user_message v, user_message u, assistant_message (cr_text res)]"
    using assms(9) p(1) by (simp add: observe_def)
  with r2 assms(1) show ?thesis
    by (simp add: accepted_sequence_def demo_validator_def upt_rec)
qed

theorem agent_chat_result_not_revalidated_witness:
  "\<not> accepted_sequence demo_validator (sv_agent_history (observe 103 (pd_on_result demo_agent_pending)
      (Inr demo_result) (snd (append_agent_history_message demo_ops demo_validator (user_message ''again'')
        demo_service2))))"
proof -
  have "sv_agent_history demo_service = [system_message ''Be brief.'']" "is_ready demo_ops demo_service"
    "ac_message demo_agent_chat = user_message ''hi''" "ac_model demo_agent_chat = sv_model_id demo_service"
    "is_ready demo_ops demo_service2"
    by (simp_all add: demo_service2_def demo_service_def make_chat_service_def is_ready_def demo_ops_def
        demo_agent_chat_def)
  note spoiled = agent_chat_result_not_revalidated [OF refl this(1-4) demo_agent_start this(5)]
  obtain r2 sv2 where "append_agent_history_message demo_ops demo_validator (user_message ''again'')
      demo_service2 = (r2, sv2)" by fastforce
  with spoiled [OF this refl, of 103 demo_result] show ?thesis by (metis snd_conv)
qed

end
