(* ===== verification/Disconnect.thy ===== *)
theory Disconnect
  imports Zks_Prelude
begin

text \<open>
  \<^verbatim>\<open>DisconnectRegistry\<close> of \<^verbatim>\<open>src/server/api_routes.cpp\<close>: callbacks to run when a client's
  connection goes away. A connection is an abstract key and a callback an abstract value \<open>'cb\<close>
  (\<open>None\<close> an empty \<^verbatim>\<open>std::function\<close>); both hash maps are association lists with distinct keys.
  Each operation holds the registry's mutex, so histories of the registry are sequences of
  operations. The theorems say that a tracked callback runs exactly once, when its connection is
  reported gone, and never after it was cleared.
\<close>

record ('c, 'cb) disconnect_registry =
  next_callback_id :: u64
  callbacks :: "('c \<times> (u64 \<times> 'cb option) list) list"

definition empty_registry :: "('c, 'cb) disconnect_registry" where
  "empty_registry = \<lparr>next_callback_id = 1, callbacks = []\<rparr>"

text \<open>\<^verbatim>\<open>callbacks_[connection]\<close>: the inner map, empty if absent.\<close>

definition tracked :: "('c, 'cb) disconnect_registry \<Rightarrow> 'c \<Rightarrow> (u64 \<times> 'cb option) list" where
  "tracked r c = (case map_of (callbacks r) c of None \<Rightarrow> [] | Some m \<Rightarrow> m)"

definition track :: "'c \<Rightarrow> 'cb option \<Rightarrow> ('c, 'cb) disconnect_registry \<Rightarrow> u64 \<times> ('c, 'cb) disconnect_registry" where
  "track connection on_disconnect r =
     (let callback_id = next_callback_id r
      in (callback_id,
          r\<lparr>next_callback_id := next_callback_id r + 1,
            callbacks := al_put connection (al_emplace callback_id on_disconnect (tracked r connection)) (callbacks r)\<rparr>))"

definition clear :: "'c \<Rightarrow> u64 \<Rightarrow> ('c, 'cb) disconnect_registry \<Rightarrow> ('c, 'cb) disconnect_registry" where
  "clear connection callback_id r =
     (case map_of (callbacks r) connection of
        None \<Rightarrow> r
      | Some m \<Rightarrow>
          let m' = al_erase callback_id m
          in if m' = [] then r\<lparr>callbacks := al_erase connection (callbacks r)\<rparr>
             else r\<lparr>callbacks := al_put connection m' (callbacks r)\<rparr>)"

text \<open>
  The result lists the callbacks the code invokes after releasing the lock, with their ids;
  empty functions are skipped. A null or still connected connection is ignored.
\<close>

definition handle_connection_event ::
  "'c option \<Rightarrow> ('c \<Rightarrow> bool) \<Rightarrow> ('c, 'cb) disconnect_registry \<Rightarrow>
     (u64 \<times> 'cb) list \<times> ('c, 'cb) disconnect_registry" where
  "handle_connection_event connection disconnected r =
     (case connection of
        None \<Rightarrow> ([], r)
      | Some c \<Rightarrow>
          if \<not> disconnected c then ([], r)
          else (case map_of (callbacks r) c of
                  None \<Rightarrow> ([], r)
                | Some m \<Rightarrow> (concat (map (\<lambda>(i, f). case f of None \<Rightarrow> [] | Some g \<Rightarrow> [(i, g)]) m),
                             r\<lparr>callbacks := al_erase c (callbacks r)\<rparr>)))"

section \<open>Invariant and effect\<close>

definition registry_wf :: "('c, 'cb) disconnect_registry \<Rightarrow> bool" where
  "registry_wf r \<longleftrightarrow>
     (\<forall>c. distinct (al_keys (tracked r c)) \<and> (\<forall>i \<in> set (al_keys (tracked r c)). i < next_callback_id r)) \<and>
     (\<forall>c. map_of (callbacks r) c \<noteq> Some [])"

lemma tracked_put [simp]:
  "tracked (r\<lparr>callbacks := al_put c m (callbacks r)\<rparr>) c' = (if c' = c then m else tracked r c')"
  "tracked (r\<lparr>next_callback_id := n, callbacks := al_put c m (callbacks r)\<rparr>) c' = (if c' = c then m else tracked r c')"
  "tracked (r\<lparr>callbacks := al_erase c (callbacks r)\<rparr>) c' = (if c' = c then [] else tracked r c')"
  by (simp_all add: tracked_def store_simps)

lemma fresh_id: "registry_wf r \<Longrightarrow> next_callback_id r \<notin> set (al_keys (tracked r c))"
  by (auto simp: registry_wf_def simp del: set_map)

lemma tracked_track:
  assumes "registry_wf r"
  shows "tracked (snd (track c f r)) c' =
    (if c' = c then tracked r c @ [(next_callback_id r, f)] else tracked r c')"
proof -
  have "map_of (tracked r c) (next_callback_id r) = None"
    using fresh_id [OF assms] by (simp add: map_of_eq_None_iff)
  then show ?thesis by (simp add: track_def Let_def al_emplace_def)
qed

lemma tracked_clear: "tracked (clear c i r) c' = (if c' = c then al_erase i (tracked r c) else tracked r c')"
proof (cases "map_of (callbacks r) c")
  case None
  then show ?thesis by (auto simp: clear_def tracked_def al_erase_def)
next
  case (Some m)
  then have "tracked r c = m" by (simp add: tracked_def)
  with Some show ?thesis by (auto simp: clear_def Let_def)
qed

lemma tracked_event:
  "tracked (snd (handle_connection_event (Some c) d r)) c' = (if c' = c \<and> d c then [] else tracked r c')"
  by (auto simp: handle_connection_event_def tracked_def store_simps split: option.splits)

lemma event_runs:
  "fst (handle_connection_event (Some c) d r) =
     (if d c then concat (map (\<lambda>(i, f). case f of None \<Rightarrow> [] | Some g \<Rightarrow> [(i, g)]) (tracked r c)) else [])"
  by (auto simp: handle_connection_event_def tracked_def split: option.splits)

lemma wf_empty: "registry_wf empty_registry"
  by (simp add: registry_wf_def tracked_def empty_registry_def)

lemma wf_track:
  assumes "registry_wf r" and "next_callback_id r < - 1"
  shows "registry_wf (snd (track c f r))"
proof -
  let ?r = "snd (track c f r)"
  have n: "next_callback_id ?r = next_callback_id r + 1" by (simp add: track_def Let_def)
  have up: "i < next_callback_id r \<Longrightarrow> i < next_callback_id r + 1" for i using assms(2) by unat_arith
  have top: "next_callback_id r < next_callback_id r + 1" using assms(2) by unat_arith
  have "distinct (al_keys (tracked ?r c')) \<and> (\<forall>i \<in> set (al_keys (tracked ?r c')). i < next_callback_id ?r)" for c'
    using assms(1) fresh_id [OF assms(1), of c] up top
    by (auto simp: tracked_track [OF assms(1)] n registry_wf_def)
  moreover have "map_of (callbacks ?r) c' \<noteq> Some []" for c'
  proof (cases "c' = c")
    case True
    then show ?thesis using tracked_track [OF assms(1), of c f c] by (auto simp: tracked_def)
  next
    case False
    then show ?thesis using assms(1) by (simp add: track_def Let_def store_simps registry_wf_def)
  qed
  ultimately show ?thesis by (simp add: registry_wf_def)
qed

lemma wf_clear:
  assumes "registry_wf r"
  shows "registry_wf (clear c i r)"
proof -
  have n: "next_callback_id (clear c i r) = next_callback_id r"
    by (auto simp: clear_def Let_def split: option.splits)
  have "map_of (callbacks (clear c i r)) c' \<noteq> Some []" for c'
    using assms by (auto simp: clear_def Let_def store_simps registry_wf_def split: option.splits)
  moreover have "distinct (al_keys (tracked (clear c i r) c')) \<and>
      (\<forall>j \<in> set (al_keys (tracked (clear c i r) c')). j < next_callback_id (clear c i r))" for c'
  proof -
    have "set (tracked (clear c i r) c') \<subseteq> set (tracked r c')"
      by (auto simp: tracked_clear al_erase_def)
    moreover have "distinct (al_keys (tracked (clear c i r) c'))"
      using assms by (auto simp: tracked_clear registry_wf_def al_erase_def distinct_al_filter)
    ultimately show ?thesis using assms by (auto simp: n registry_wf_def)
  qed
  ultimately show ?thesis by (simp add: registry_wf_def)
qed

lemma wf_event:
  assumes "registry_wf r"
  shows "registry_wf (snd (handle_connection_event (Some c) d r))"
proof -
  let ?r = "snd (handle_connection_event (Some c) d r)"
  have n: "next_callback_id ?r = next_callback_id r"
    by (simp add: handle_connection_event_def split: option.splits)
  have "map_of (callbacks ?r) c' \<noteq> Some []" for c'
    using assms by (auto simp: handle_connection_event_def store_simps registry_wf_def split: option.splits)
  with assms show ?thesis by (simp add: registry_wf_def tracked_event n)
qed

section \<open>Histories\<close>

datatype ('c, 'cb) registry_op = Track 'c "'cb option" | Clear 'c u64 | Event 'c bool

fun registry_step :: "('c, 'cb) registry_op \<Rightarrow> ('c, 'cb) disconnect_registry \<Rightarrow> ('c, 'cb) disconnect_registry" where
  "registry_step (Track c f) r = snd (track c f r)"
| "registry_step (Clear c i) r = clear c i r"
| "registry_step (Event c d) r = snd (handle_connection_event (Some c) (\<lambda>_. d) r)"

text \<open>An operation that concerns the callback \<open>i\<close> of \<open>c\<close>.\<close>

fun touches :: "'c \<Rightarrow> u64 \<Rightarrow> ('c, 'cb) registry_op \<Rightarrow> bool" where
  "touches c i (Track c' f) = False"
| "touches c i (Clear c' j) = (c' = c \<and> j = i)"
| "touches c i (Event c' d) = (c' = c \<and> d)"

lemma registry_history:
  assumes "registry_wf r" and "(i, f) \<in> set (tracked r c)" and "list_all (\<lambda>op. \<not> touches c i op) ops"
    and "unat (next_callback_id r) + length ops < 2 ^ 64 - 1"
  shows "registry_wf (fold registry_step ops r) \<and> (i, f) \<in> set (tracked (fold registry_step ops r) c)"
  using assms
proof (induction ops arbitrary: r)
  case Nil
  then show ?case by simp
next
  case (Cons op ops)
  have below: "next_callback_id r < - 1"
  proof -
    have "unat (next_callback_id r) < 2 ^ 64 - 1" using Cons.prems(4) by simp
    then show ?thesis by (rule u64_less_top)
  qed
  have n: "unat (next_callback_id (registry_step op r)) \<le> Suc (unat (next_callback_id r))"
  proof (cases op)
    case (Track c' f')
    then show ?thesis using below by (simp add: track_def Let_def) unat_arith
  next
    case (Clear c' j)
    then show ?thesis by (simp add: clear_def Let_def split: option.splits)
  next
    case (Event c' d)
    then show ?thesis by (simp add: handle_connection_event_def split: option.splits)
  qed
  have wf: "registry_wf (registry_step op r)"
    using Cons.prems(1) below by (cases op) (simp_all add: wf_track wf_clear wf_event)
  have "(i, f) \<in> set (tracked (registry_step op r) c)"
    using Cons.prems(1,2,3)
    by (cases op) (auto simp: tracked_track tracked_clear tracked_event al_erase_def)
  from Cons.IH [OF wf this] Cons.prems(3,4) n show ?case by simp
qed

section \<open>Properties\<close>

lemma invoked_once:
  assumes "distinct (al_keys m)" and "(i, Some f) \<in> set m"
  shows "filter (\<lambda>p. fst p = i) (concat (map (\<lambda>(i, f). case f of None \<Rightarrow> [] | Some g \<Rightarrow> [(i, g)]) m)) = [(i, f)]"
  using assms
proof (induction m)
  case (Cons p m)
  obtain j g where p: "p = (j, g)" by (cases p)
  have none: "i \<notin> fst ` set m \<Longrightarrow>
      filter (\<lambda>p. fst p = i) (concat (map (\<lambda>(i, f). case f of None \<Rightarrow> [] | Some g \<Rightarrow> [(i, g)]) m)) = []"
    by (induction m) (auto split: option.splits)
  show ?case
  proof (cases "j = i")
    case True
    with Cons.prems p have "g = Some f" "i \<notin> fst ` set m" by (auto intro: rev_image_eqI)
    with none True p show ?thesis by simp
  next
    case False
    with Cons p show ?thesis by (auto split: option.splits)
  qed
qed simp

text \<open>
  A tracked callback runs exactly once. After it was tracked, and after any operations that
  neither clear it nor report its connection gone, the disconnect event of its connection runs it
  once; afterwards nothing is tracked for the connection, and a second event runs nothing.
\<close>

theorem disconnect_callback_runs_once:
  assumes "registry_wf r" and "track c (Some f) r = (i, r1)" and "list_all (\<lambda>op. \<not> touches c i op) ops"
    and "unat (next_callback_id r) + length ops < 2 ^ 64 - 2"
    and "handle_connection_event (Some c) (\<lambda>_. True) (fold registry_step ops r1) = (invoked, r2)"
  shows "filter (\<lambda>p. fst p = i) invoked = [(i, f)] \<and> tracked r2 c = []
    \<and> handle_connection_event (Some c) (\<lambda>_. True) r2 = ([], r2)
    \<and> (\<forall>c'. c' \<noteq> c \<longrightarrow> tracked r2 c' = tracked (fold registry_step ops r1) c')"
proof -
  let ?r = "fold registry_step ops r1"
  have i: "i = next_callback_id r" and r1: "r1 = snd (track c (Some f) r)" "next_callback_id r1 = next_callback_id r + 1"
    using assms(2) by (auto simp: track_def Let_def)
  have small: "unat (next_callback_id r) < 2 ^ 64 - 2" using assms(4) by linarith
  have below: "next_callback_id r < - 1"
    using small by (intro u64_less_top) linarith
  have "unat (next_callback_id r1) = Suc (unat (next_callback_id r))"
    using below unfolding r1(2) by unat_arith
  then have bound: "unat (next_callback_id r1) + length ops < 2 ^ 64 - 1" using assms(4) by linarith
  have "registry_wf r1" using wf_track [OF assms(1) below] r1(1) by simp
  moreover have "(i, Some f) \<in> set (tracked r1 c)"
    using tracked_track [OF assms(1), of c "Some f" c] by (simp add: i r1(1))
  ultimately have wf: "registry_wf ?r" and mem: "(i, Some f) \<in> set (tracked ?r c)"
    using registry_history [of r1 i "Some f" c ops] assms(3) bound by auto
  have invoked: "invoked = concat (map (\<lambda>(i, f). case f of None \<Rightarrow> [] | Some g \<Rightarrow> [(i, g)]) (tracked ?r c))"
    and r2: "r2 = snd (handle_connection_event (Some c) (\<lambda>_. True) ?r)"
    using event_runs [of c "\<lambda>_. True" ?r] assms(5) by auto
  have "tracked r2 c = []" by (simp add: r2 tracked_event)
  moreover from this have "map_of (callbacks r2) c = None"
    using wf_event [OF wf, of c "\<lambda>_. True"]
    by (auto simp: r2 [symmetric] registry_wf_def tracked_def split: option.splits)
  moreover have "distinct (al_keys (tracked ?r c))" using wf by (simp add: registry_wf_def)
  moreover have "tracked r2 c' = tracked ?r c'" if "c' \<noteq> c" for c'
    using that by (simp add: r2 tracked_event)
  moreover have "handle_connection_event (Some c) (\<lambda>_. True) r2 = ([], r2)"
    using \<open>map_of (callbacks r2) c = None\<close> by (simp add: handle_connection_event_def)
  ultimately show ?thesis
    using invoked_once [OF _ mem] by (simp add: invoked)
qed

definition demo_registry1 :: "(nat, string) disconnect_registry" where
  "demo_registry1 = \<lparr>next_callback_id = 2, callbacks = [(7, [(1, Some ''cancel'')])]\<rparr>"

theorem disconnect_callback_runs_once_witness:
  "fst (handle_connection_event (Some 7) (\<lambda>_. True)
     (fold registry_step [Track 7 None, Event 8 True, Clear 7 2] demo_registry1)) = [(1, ''cancel'')]
   \<and> tracked (snd (handle_connection_event (Some 7) (\<lambda>_. True)
     (fold registry_step [Track 7 None, Event 8 True, Clear 7 2] demo_registry1))) 7 = []"
proof -
  let ?ops = "[Track 7 None, Event 8 True, Clear 7 2] :: (nat, string) registry_op list"
  have t: "track 7 (Some ''cancel'') empty_registry = (1, demo_registry1)"
    by (simp add: track_def empty_registry_def demo_registry1_def tracked_def al_emplace_def al_put_def
        al_erase_def Let_def)
  have e: "handle_connection_event (Some 7) (\<lambda>_. True) (fold registry_step ?ops demo_registry1) =
      ([(1, ''cancel'')], \<lparr>next_callback_id = 3, callbacks = []\<rparr>)"
    by (simp add: track_def demo_registry1_def tracked_def al_emplace_def al_put_def al_erase_def Let_def
        handle_connection_event_def clear_def)
  show ?thesis
    using disconnect_callback_runs_once [OF wf_empty t _ _ e] e by (simp add: empty_registry_def)
qed

end
