(* ===== verification/Tool_Schema.thy ===== *)
theory Tool_Schema
  imports Internal_Utils
begin

text \<open>
  The configuration of command tools and its validation: \<^verbatim>\<open>CommandToolConfig\<close> of
  \<^verbatim>\<open>src/server/config.hpp\<close>, and \<^verbatim>\<open>validate_enum_value_type\<close>, \<^verbatim>\<open>validate_property_schema\<close>,
  \<^verbatim>\<open>validate_tool_parameters_schema\<close> and \<^verbatim>\<open>CommandToolConfig::validate\<close> of
  \<^verbatim>\<open>src/server/command_tools.cpp\<close>. The loops that return the first error are \<open>fold_result\<close>
  over the unit state. \<open>schema_ok\<close> says declaratively which schemas are meant; the validator
  accepts exactly these.
\<close>

record command_tool_config =
  tool_name :: string
  tool_description :: string
  tool_parameters_schema :: json
  tool_command :: "string list"
  tool_working_directory :: "string option"
  tool_inherit_environment :: bool
  tool_env :: "(string \<times> string) list"
  tool_timeout_ms :: nat

definition each :: "('a \<Rightarrow> (string, unit) result) \<Rightarrow> 'a list \<Rightarrow> (string, unit) result" where
  "each check xs = fold_result (\<lambda>x _. check x) xs ()"

definition quoted :: "string \<Rightarrow> string" where
  "quoted s = [CHR 0x27] @ s @ [CHR 0x27]"

definition check :: "bool \<Rightarrow> string \<Rightarrow> (string, unit) result" where
  "check ok message = (if ok then Inr () else Inl message)"

definition value_has_type :: "json \<Rightarrow> string \<Rightarrow> bool" where
  "value_has_type value expected_type \<longleftrightarrow>
     expected_type = ''string'' \<and> is_string value \<or>
     expected_type = ''integer'' \<and> is_number_integer value \<or>
     expected_type = ''number'' \<and> is_number value \<or>
     expected_type = ''boolean'' \<and> is_boolean value"

definition validate_enum_value_type :: "string \<Rightarrow> string \<Rightarrow> json \<Rightarrow> (string, unit) result" where
  "validate_enum_value_type expected_type property_name value =
     check (value_has_type value expected_type)
       (''tools.parameters enum value for property '' @ quoted property_name @
        '' does not match declared type '' @ quoted expected_type)"

definition property_message :: "string \<Rightarrow> string \<Rightarrow> string" where
  "property_message property_name message = ''tools.parameters property '' @ quoted property_name @ message"

definition schema_types :: "string list" where
  "schema_types = [''string'', ''integer'', ''number'', ''boolean'']"

definition validate_property_schema :: "string \<Rightarrow> json \<Rightarrow> (string, unit) result" where
  "validate_property_schema property_name schema =
     bind_result (reject_unknown_keys schema ''tools.parameters property'' [''type'', ''description'', ''enum'']) (\<lambda>_.
     case string_field ''type'' schema of
       None \<Rightarrow> Inl (property_message property_name '' must include a string type'')
     | Some type_name \<Rightarrow>
         bind_result (check (type_name \<in> set schema_types)
           (property_message property_name ('' uses unsupported type: '' @ type_name))) (\<lambda>_.
         bind_result (case jfind ''description'' schema of
             None \<Rightarrow> Inr ()
           | Some d \<Rightarrow> check (is_string d) (property_message property_name '' description must be a string'')) (\<lambda>_.
         case jfind ''enum'' schema of
           None \<Rightarrow> Inr ()
         | Some (JArray values) \<Rightarrow> each (validate_enum_value_type type_name property_name) values
         | Some _ \<Rightarrow> Inl (property_message property_name '' enum must be an array''))))"

definition validate_property_entry :: "string \<times> json \<Rightarrow> (string, unit) result" where
  "validate_property_entry entry =
     (case entry of (name, schema) \<Rightarrow>
        if \<not> is_object schema then Inl (property_message name '' must be a JSON object'')
        else validate_property_schema name schema)"

definition validate_required_entry :: "json \<Rightarrow> json \<Rightarrow> (string, unit) result" where
  "validate_required_entry properties value =
     (case value of
        JString name \<Rightarrow>
          check (jfind name properties \<noteq> None)
            (''tools.parameters required references unknown property: '' @ name)
      | _ \<Rightarrow> Inl ''tools.parameters required entries must be strings'')"

definition validate_tool_parameters_schema :: "json \<Rightarrow> (string, unit) result" where
  "validate_tool_parameters_schema schema =
     bind_result (reject_unknown_keys schema ''tools.parameters''
       [''type'', ''properties'', ''required'', ''additionalProperties'']) (\<lambda>_.
     bind_result (check (string_field ''type'' schema = Some ''object'')
       (''tools.parameters must declare top-level type '' @ quoted ''object'')) (\<lambda>_.
     case object_field ''properties'' schema of
       None \<Rightarrow> Inl ''tools.parameters must include an object-valued properties map''
     | Some properties \<Rightarrow>
         bind_result (each validate_property_entry (entries properties)) (\<lambda>_.
         bind_result (case jfind ''required'' schema of
             None \<Rightarrow> Inr ()
           | Some (JArray names) \<Rightarrow> each (validate_required_entry properties) names
           | Some _ \<Rightarrow> Inl ''tools.parameters required must be an array'') (\<lambda>_.
         case jfind ''additionalProperties'' schema of
           None \<Rightarrow> Inr ()
         | Some v \<Rightarrow> check (v = JBool False)
             ''tools.parameters only supports additionalProperties omitted or false''))))"

definition validate_env_entry :: "string \<times> string \<Rightarrow> (string, unit) result" where
  "validate_env_entry entry =
     bind_result (check (fst entry \<noteq> []) ''tools.env keys must not be empty'') (\<lambda>_.
     check (CHR ''='' \<notin> set (fst entry)) (''tools.env keys must not contain '' @ quoted ''=''))"

definition validate_command_tool :: "command_tool_config \<Rightarrow> (string, unit) result" where
  "validate_command_tool tool =
     bind_result (check (tool_name tool \<noteq> []) ''tools.name must not be empty'') (\<lambda>_.
     bind_result (check (tool_description tool \<noteq> []) ''tools.description must not be empty'') (\<lambda>_.
     bind_result (check (tool_command tool \<noteq> []) ''tools.command must contain at least one argument'') (\<lambda>_.
     bind_result (each (\<lambda>arg. check (arg \<noteq> []) ''tools.command entries must not be empty'') (tool_command tool)) (\<lambda>_.
     bind_result (check (tool_timeout_ms tool \<noteq> 0) ''tools.timeout_ms must be >= 1'') (\<lambda>_.
     bind_result (validate_tool_parameters_schema (tool_parameters_schema tool)) (\<lambda>_.
     each validate_env_entry (tool_env tool)))))))"

section \<open>What is accepted\<close>

lemma each_simps [simp]: "each c [] = Inr ()" "each c (x # xs) = bind_result (c x) (\<lambda>_. each c xs)"
  by (simp_all add: each_def)

lemma each_Inr_iff [result_simps]: "each c xs = Inr u \<longleftrightarrow> (\<forall>x \<in> set xs. c x = Inr ())"
  by (induction xs) (auto simp: result_simps)

lemma check_Inr_iff [result_simps]: "check ok m = Inr u \<longleftrightarrow> ok"
  by (simp add: check_def)

definition property_ok :: "json \<Rightarrow> bool" where
  "property_ok schema \<longleftrightarrow>
     is_object schema \<and> set (map fst (entries schema)) \<subseteq> {''type'', ''description'', ''enum''} \<and>
     (\<exists>t \<in> set schema_types. jfind ''type'' schema = Some (JString t) \<and>
        pred_option is_string (jfind ''description'' schema) \<and>
        (jfind ''enum'' schema = None \<or>
         (\<exists>vs. jfind ''enum'' schema = Some (JArray vs) \<and> (\<forall>v \<in> set vs. value_has_type v t))))"

definition schema_ok :: "json \<Rightarrow> bool" where
  "schema_ok schema \<longleftrightarrow>
     is_object schema \<and>
     set (map fst (entries schema)) \<subseteq> {''type'', ''properties'', ''required'', ''additionalProperties''} \<and>
     jfind ''type'' schema = Some (JString ''object'') \<and>
     (\<exists>properties. jfind ''properties'' schema = Some properties \<and> is_object properties \<and>
        (\<forall>p \<in> set (entries properties). property_ok (snd p)) \<and>
        (jfind ''required'' schema = None \<or>
         (\<exists>names. jfind ''required'' schema = Some (JArray (map JString names)) \<and>
            set names \<subseteq> set (map fst (entries properties))))) \<and>
     (jfind ''additionalProperties'' schema = None \<or> jfind ''additionalProperties'' schema = Some (JBool False))"

lemma validate_property_schema_Inr_iff [result_simps]:
  "validate_property_schema n s = Inr u \<longleftrightarrow> property_ok s"
proof (cases "jfind ''type'' s")
  case None
  then show ?thesis by (auto simp: validate_property_schema_def property_ok_def result_simps string_field_def)
next
  case (Some t)
  show ?thesis
  proof (cases t)
    case (JString name)
    have d: "(case d of None \<Rightarrow> Inr () | Some d \<Rightarrow> check (is_string d) m) = Inr () \<longleftrightarrow> pred_option is_string d" for d m
      by (cases d) (simp_all add: result_simps)
    have e: "(case e of None \<Rightarrow> Inr () | Some (JArray vs) \<Rightarrow> each (validate_enum_value_type name n) vs
        | Some _ \<Rightarrow> Inl m) = Inr () \<longleftrightarrow>
        e = None \<or> (\<exists>vs. e = Some (JArray vs) \<and> (\<forall>v \<in> set vs. value_has_type v name))" for e m
      by (cases e) (auto simp: result_simps validate_enum_value_type_def split: json.splits)
    show ?thesis
      using Some JString
      by (simp add: validate_property_schema_def property_ok_def string_field_def bind_result_Inr_iff
          reject_unknown_keys_Inr_iff check_Inr_iff d e conj_assoc del: set_map)
  qed (use Some in \<open>auto simp: validate_property_schema_def property_ok_def result_simps string_field_def\<close>)
qed

lemma validate_property_entry_Inr_iff [result_simps]:
  "validate_property_entry p = Inr u \<longleftrightarrow> property_ok (snd p)"
  by (cases p) (auto simp: validate_property_entry_def validate_property_schema_Inr_iff property_ok_def)

lemma validate_required_Inr_iff [result_simps]:
  "validate_required_entry props v = Inr u \<longleftrightarrow> (\<exists>name. v = JString name \<and> name \<in> set (map fst (entries props)))"
  by (cases v) (auto simp: validate_required_entry_def result_simps jfind_def map_of_eq_None_iff)

lemma required_names_iff:
  "(\<forall>v \<in> set vs. \<exists>name. v = JString name \<and> name \<in> A) \<longleftrightarrow> (\<exists>names. vs = map JString names \<and> set names \<subseteq> A)"
proof (induction vs)
  case Nil
  then show ?case by simp
next
  case (Cons v vs)
  show ?case
  proof
    assume "\<forall>w \<in> set (v # vs). \<exists>name. w = JString name \<and> name \<in> A"
    with Cons obtain n ns where "v = JString n" "n \<in> A" "vs = map JString ns" "set ns \<subseteq> A" by auto
    then have "v # vs = map JString (n # ns) \<and> set (n # ns) \<subseteq> A" by simp
    then show "\<exists>names. v # vs = map JString names \<and> set names \<subseteq> A" by (rule exI)
  next
    assume "\<exists>names. v # vs = map JString names \<and> set names \<subseteq> A"
    then obtain names where "v # vs = map JString names" "set names \<subseteq> A" by (elim exE conjE)
    moreover have "\<forall>w \<in> set (map JString names). \<exists>name. w = JString name \<and> name \<in> A"
      if "set names \<subseteq> A" for names using that by auto
    ultimately show "\<forall>w \<in> set (v # vs). \<exists>name. w = JString name \<and> name \<in> A" by metis
  qed
qed

text \<open>A validated tool: what the rest of the server relies on.\<close>

definition tool_ok :: "command_tool_config \<Rightarrow> bool" where
  "tool_ok tool \<longleftrightarrow>
     tool_name tool \<noteq> [] \<and> tool_description tool \<noteq> [] \<and> tool_command tool \<noteq> [] \<and> [] \<notin> set (tool_command tool) \<and>
     tool_timeout_ms tool \<noteq> 0 \<and> validate_tool_parameters_schema (tool_parameters_schema tool) = Inr () \<and>
     (\<forall>(k, v) \<in> set (tool_env tool). k \<noteq> [] \<and> CHR ''='' \<notin> set k)"

lemma validate_command_tool_Inr_iff [result_simps]: "validate_command_tool tool = Inr u \<longleftrightarrow> tool_ok tool"
  by (auto simp: validate_command_tool_def tool_ok_def result_simps validate_env_entry_def split: prod.splits)

section \<open>Properties\<close>

text \<open>
  C36. The schema validator accepts exactly the schemas the tools support: an object type with an
  object-valued properties map whose properties are of one of the four scalar types (with an
  optional description and an optional enumeration of values of that type), a list of required
  names that are all properties, no additional properties, and no other key anywhere.
\<close>

theorem tool_schema_accepted_iff:
  "validate_tool_parameters_schema schema = Inr () \<longleftrightarrow> schema_ok schema"
proof (cases "object_field ''properties'' schema")
  case None
  then have "\<not> (\<exists>p. jfind ''properties'' schema = Some p \<and> is_object p)"
    by (metis object_field_Some_iff option.distinct(1))
  with None show ?thesis by (auto simp: validate_tool_parameters_schema_def schema_ok_def result_simps)
next
  case (Some props)
  then have props: "jfind ''properties'' schema = Some props" "is_object props"
    by (simp_all add: object_field_Some_iff)
  have r: "(case r of None \<Rightarrow> Inr () | Some (JArray names) \<Rightarrow> each (validate_required_entry props) names
      | Some _ \<Rightarrow> Inl m) = Inr () \<longleftrightarrow>
      r = None \<or> (\<exists>names. r = Some (JArray (map JString names)) \<and> set names \<subseteq> set (map fst (entries props)))" for r m
    by (cases r)
      (auto simp: each_Inr_iff validate_required_Inr_iff required_names_iff simp del: set_map split: json.splits)
  have a: "(case a of None \<Rightarrow> Inr () | Some v \<Rightarrow> check (v = JBool False) m) = Inr () \<longleftrightarrow>
      a = None \<or> a = Some (JBool False)" for a m
    by (cases a) (simp_all add: check_Inr_iff)
  show ?thesis
    using Some props
    by (simp add: validate_tool_parameters_schema_def schema_ok_def bind_result_Inr_iff reject_unknown_keys_Inr_iff
        check_Inr_iff each_Inr_iff validate_property_entry_Inr_iff r a string_field_Some_iff conj_assoc del: set_map)
qed

end
