(* ===== verification/Server_Config.thy ===== *)
theory Server_Config
  imports Tool_Schema Session_Store Zoo_Adapter
begin

text \<open>
  \<^verbatim>\<open>src/server/config.hpp\<close> and \<^verbatim>\<open>config.cpp\<close>: reading, checking and judging the configuration.

  The \<^verbatim>\<open>from_json\<close> functions throw; an exception is its \<^verbatim>\<open>what()\<close> text in the left summand, and
  \<open>load_config\<close> is the only catcher besides the loop over the tools. The conversions
  \<^verbatim>\<open>get_to\<close>/\<^verbatim>\<open>get<T>\<close>, the exception texts, the readers of the zoo library's own structures, its
  validators and the GGUF inspector are the record \<open>config_api\<close>.
\<close>

record http_config =
  client_max_body_size_bytes :: int
  client_max_memory_body_size_bytes :: int
  idle_connection_timeout_seconds :: int
  cors_allow_origins :: "string list"

record model_config =
  mc_model_path :: string
  mc_context_size :: int
  mc_n_gpu_layers :: int
  mc_use_mmap :: bool
  mc_use_mlock :: bool

record 'ac server_config =
  bind_address :: string
  port :: nat
  sc_model_id :: string
  api_key :: "string option"
  http :: http_config
  sessions :: session_config
  tools :: "command_tool_config list"
  sc_model_config :: model_config
  sc_agent_config :: 'ac
  sc_default_generation :: generation_options
  auto_configure_model :: bool
  sc_prompt :: string

type_synonym 'a thrown = "(string, 'a) result"

record 'ac config_api =
  ca_json :: json_api
  ca_what :: "string \<Rightarrow> nat \<Rightarrow> string \<Rightarrow> string"
  ca_get_int64 :: "json \<Rightarrow> int thrown"
  ca_get_int32 :: "json \<Rightarrow> int thrown"
  ca_get_size :: "json \<Rightarrow> nat thrown"
  ca_get_uint32 :: "json \<Rightarrow> nat thrown"
  ca_get_string :: "json \<Rightarrow> string thrown"
  ca_get_bool :: "json \<Rightarrow> bool thrown"
  ca_agent_config :: "json \<Rightarrow> 'ac thrown"
  ca_generation :: "json \<Rightarrow> generation_options thrown"
  ca_validate_agent :: "'ac \<Rightarrow> (string, unit) result"
  ca_validate_generation :: "generation_options \<Rightarrow> (string, unit) result"
  ca_hub_enabled :: bool
  ca_auto_configure :: "string \<Rightarrow> (string, model_config) result"

section \<open>Validation\<close>

definition validate_model_config_for_config_load :: "model_config \<Rightarrow> (string, unit) result" where
  "validate_model_config_for_config_load config =
     (if mc_model_path config = [] then Inl ''Model path cannot be empty''
      else if mc_context_size config \<le> 0 then Inl ''Context size must be positive''
      else Inr ())"

definition validate_session_config :: "session_config \<Rightarrow> (string, unit) result" where
  "validate_session_config config =
     (if idle_ttl_seconds config = 0 then Inl ''sessions.idle_ttl_seconds must be >= 1'' else Inr ())"

definition validate_http_config :: "http_config \<Rightarrow> (string, unit) result" where
  "validate_http_config config =
     (if client_max_body_size_bytes config \<le> 0 then Inl ''http.client_max_body_size_bytes must be > 0''
      else if client_max_memory_body_size_bytes config \<le> 0
      then Inl ''http.client_max_memory_body_size_bytes must be > 0''
      else if idle_connection_timeout_seconds config < 0
      then Inl ''http.idle_connection_timeout_seconds must be >= 0''
      else each (\<lambda>origin. check (origin \<noteq> []) ''http.cors_allow_origins entries must not be empty'')
             (cors_allow_origins config))"

definition validate_server_config :: "'ac config_api \<Rightarrow> 'ac server_config \<Rightarrow> (string, unit) result" where
  "validate_server_config api config =
     bind_result (check (bind_address config \<noteq> []) ''bind_address cannot be empty'') (\<lambda>_.
     bind_result (check (port config \<noteq> 0) ''port must be in the range [1, 65535]'') (\<lambda>_.
     bind_result (check (sc_model_id config \<noteq> []) ''model_id cannot be empty'') (\<lambda>_.
     bind_result (check (api_key config \<noteq> Some []) ''api_key must not be empty'') (\<lambda>_.
     bind_result (validate_http_config (http config)) (\<lambda>_.
     bind_result (validate_session_config (sessions config)) (\<lambda>_.
     bind_result (each (\<lambda>tool. map_error (\<lambda>e. ''tools entry '' @ quoted (tool_name tool) @ '' is invalid: '' @ e)
       (validate_command_tool tool)) (tools config)) (\<lambda>_.
     bind_result (validate_model_config_for_config_load (sc_model_config config)) (\<lambda>_.
     bind_result (ca_validate_agent api (sc_agent_config config)) (\<lambda>_.
     ca_validate_generation api (sc_default_generation config))))))))))"

section \<open>Reading\<close>

definition check_unknown_keys :: "'ac config_api \<Rightarrow> json \<Rightarrow> string \<Rightarrow> string list \<Rightarrow> unit thrown" where
  "check_unknown_keys api json context allowed_keys =
     map_error (ca_what api ''other_error'' 501) (reject_unknown_keys json context allowed_keys)"

definition type_error :: "'ac config_api \<Rightarrow> string \<Rightarrow> string" where
  "type_error api = ca_what api ''type_error'' 302"

text \<open>\<^verbatim>\<open>if (auto it = j.find(key); it != j.end()) it->get_to(field)\<close>.\<close>

definition read_into :: "(json \<Rightarrow> 'a thrown) \<Rightarrow> string \<Rightarrow> json \<Rightarrow> 'a \<Rightarrow> 'a thrown" where
  "read_into get key j old = (case jfind key j of None \<Rightarrow> Inr old | Some v \<Rightarrow> get v)"

definition strings_of :: "'ac config_api \<Rightarrow> string \<Rightarrow> json list \<Rightarrow> string list \<Rightarrow> string list thrown" where
  "strings_of api message items acc =
     fold_result (\<lambda>item acc. case item of JString s \<Rightarrow> Inr (acc @ [s]) | _ \<Rightarrow> Inl (type_error api message)) items acc"

definition http_from_json :: "'ac config_api \<Rightarrow> json \<Rightarrow> http_config \<Rightarrow> http_config thrown" where
  "http_from_json api j config =
     bind_result (check_unknown_keys api j ''http config''
       [''client_max_body_size_bytes'', ''client_max_memory_body_size_bytes'',
        ''idle_connection_timeout_seconds'', ''cors_allow_origins'']) (\<lambda>_.
     bind_result (read_into (ca_get_int64 api) ''client_max_body_size_bytes'' j (client_max_body_size_bytes config)) (\<lambda>body.
     bind_result (read_into (ca_get_int64 api) ''client_max_memory_body_size_bytes'' j (client_max_memory_body_size_bytes config)) (\<lambda>mem.
     bind_result (read_into (ca_get_int32 api) ''idle_connection_timeout_seconds'' j (idle_connection_timeout_seconds config)) (\<lambda>idle.
     bind_result (case jfind ''cors_allow_origins'' j of
         None \<Rightarrow> Inr (cors_allow_origins config)
       | Some (JArray items) \<Rightarrow>
           strings_of api ''http.cors_allow_origins entries must be strings'' items (cors_allow_origins config)
       | Some _ \<Rightarrow> Inl (type_error api ''http.cors_allow_origins must be an array'')) (\<lambda>origins.
     Inr \<lparr>client_max_body_size_bytes = body, client_max_memory_body_size_bytes = mem,
          idle_connection_timeout_seconds = idle, cors_allow_origins = origins\<rparr>)))))"

definition sessions_from_json :: "'ac config_api \<Rightarrow> json \<Rightarrow> session_config \<Rightarrow> session_config thrown" where
  "sessions_from_json api j config =
     bind_result (check_unknown_keys api j ''sessions config'' [''max_sessions'', ''idle_ttl_seconds'']) (\<lambda>_.
     bind_result (read_into (ca_get_size api) ''max_sessions'' j (max_sessions config)) (\<lambda>n.
     bind_result (read_into (ca_get_uint32 api) ''idle_ttl_seconds'' j (idle_ttl_seconds config)) (\<lambda>ttl.
     Inr \<lparr>max_sessions = n, idle_ttl_seconds = ttl\<rparr>)))"

definition require_string :: "'ac config_api \<Rightarrow> string \<Rightarrow> json \<Rightarrow> string thrown" where
  "require_string api field j =
     (case string_field field j of
        None \<Rightarrow> Inl (type_error api (field @ '' must be a string''))
      | Some s \<Rightarrow> Inr s)"

definition read_env :: "'ac config_api \<Rightarrow> (string \<times> json) list \<Rightarrow> (string \<times> string) list thrown" where
  "read_env api kvs =
     fold_result (\<lambda>(k, v) env. case v of
         JString s \<Rightarrow> Inr (al_emplace k s env)
       | _ \<Rightarrow> Inl (type_error api ''env values must be strings'')) kvs []"

definition tool_from_json :: "'ac config_api \<Rightarrow> json \<Rightarrow> command_tool_config thrown" where
  "tool_from_json api j =
     bind_result (check_unknown_keys api j ''tool config''
       [''name'', ''description'', ''parameters'', ''command'', ''working_directory'', ''env'',
        ''timeout_ms'', ''inherit_environment'']) (\<lambda>_.
     bind_result (require_string api ''name'' j) (\<lambda>name.
     bind_result (require_string api ''description'' j) (\<lambda>description.
     bind_result (case object_field ''parameters'' j of
         None \<Rightarrow> Inl (type_error api ''parameters must be an object'') | Some p \<Rightarrow> Inr p) (\<lambda>parameters.
     bind_result (case array_field ''command'' j of
         None \<Rightarrow> Inl (type_error api ''command must be an array'')
       | Some args \<Rightarrow> strings_of api ''command entries must be strings'' args []) (\<lambda>command.
     bind_result (case jfind ''working_directory'' j of
         None \<Rightarrow> Inr None
       | Some (JString d) \<Rightarrow> Inr (Some d)
       | Some _ \<Rightarrow> Inl (type_error api ''working_directory must be a string'')) (\<lambda>dir.
     bind_result (case jfind ''env'' j of
         None \<Rightarrow> Inr []
       | Some (JObject kvs) \<Rightarrow> read_env api kvs
       | Some _ \<Rightarrow> Inl (type_error api ''env must be an object'')) (\<lambda>env.
     bind_result (case jfind ''inherit_environment'' j of
         None \<Rightarrow> Inr False
       | Some (JBool b) \<Rightarrow> Inr b
       | Some _ \<Rightarrow> Inl (type_error api ''inherit_environment must be a boolean'')) (\<lambda>inherit.
     bind_result (case jfind ''timeout_ms'' j of
         None \<Rightarrow> Inr 30000
       | Some v \<Rightarrow> if is_number_unsigned v then Inr (json_get_uint (ca_json api) v)
                   else Inl (type_error api ''timeout_ms must be a positive integer'')) (\<lambda>timeout.
     Inr \<lparr>tool_name = name, tool_description = description, tool_parameters_schema = parameters,
          tool_command = command, tool_working_directory = dir, tool_inherit_environment = inherit,
          tool_env = env, tool_timeout_ms = timeout\<rparr>)))))))))"

text \<open>The loop over \<^verbatim>\<open>tools\<close>: an exception is rethrown with the index of the entry.\<close>

fun tools_from_json :: "'ac config_api \<Rightarrow> nat \<Rightarrow> json list \<Rightarrow> command_tool_config list thrown" where
  "tools_from_json api i [] = Inr []"
| "tools_from_json api i (j # rest) =
     bind_result (map_error (\<lambda>e. ca_what api ''other_error'' 501 (''tools['' @ string_of_nat i @ '']: '' @ e))
       (tool_from_json api j)) (\<lambda>tool.
     bind_result (tools_from_json api (Suc i) rest) (\<lambda>more. Inr (tool # more)))"

definition apply_model_config_fields :: "'ac config_api \<Rightarrow> json \<Rightarrow> model_config \<Rightarrow> model_config thrown" where
  "apply_model_config_fields api zoo config =
     bind_result (read_into (ca_get_string api) ''model_path'' zoo (mc_model_path config)) (\<lambda>path.
     bind_result (read_into (ca_get_int32 api) ''context_size'' zoo (mc_context_size config)) (\<lambda>context.
     bind_result (read_into (ca_get_int32 api) ''n_gpu_layers'' zoo (mc_n_gpu_layers config)) (\<lambda>layers.
     bind_result (read_into (ca_get_bool api) ''use_mmap'' zoo (mc_use_mmap config)) (\<lambda>mmap.
     bind_result (read_into (ca_get_bool api) ''use_mlock'' zoo (mc_use_mlock config)) (\<lambda>mlock.
     Inr \<lparr>mc_model_path = path, mc_context_size = context, mc_n_gpu_layers = layers, mc_use_mmap = mmap,
          mc_use_mlock = mlock\<rparr>)))))"

text \<open>Copying the listed keys of \<^verbatim>\<open>zoo\<close> into a new object: null if there is none.\<close>

definition copy_key :: "string \<Rightarrow> json \<Rightarrow> json \<Rightarrow> json" where
  "copy_key key source target = (case jfind key source of None \<Rightarrow> target | Some v \<Rightarrow> jset key v target)"

definition agent_json :: "json \<Rightarrow> json" where
  "agent_json zoo =
     fold (\<lambda>k. copy_key k zoo)
       [''max_history_messages'', ''request_queue_capacity'', ''max_tool_iterations'', ''max_tool_retries''] JNull"

text \<open>
  \<^verbatim>\<open>gen_json["sampling"]["repeat_last_n"] = v\<close>: assigning a member of a value that is neither null
  nor an object throws.
\<close>

definition set_sampling_member :: "'ac config_api \<Rightarrow> json \<Rightarrow> json \<Rightarrow> json thrown" where
  "set_sampling_member api v gen =
     (case jfind ''sampling'' gen of
        None \<Rightarrow> Inr (jset ''sampling'' (jset ''repeat_last_n'' v JNull) gen)
      | Some s \<Rightarrow>
          if is_object s \<or> is_null s then Inr (jset ''sampling'' (jset ''repeat_last_n'' v s) gen)
          else Inl (ca_what api ''type_error'' 305 ''cannot use operator[] with a string argument''))"

definition generation_json :: "'ac config_api \<Rightarrow> json \<Rightarrow> json thrown" where
  "generation_json api zoo =
     (let gen = copy_key ''max_tokens'' zoo JNull;
          set_repeat = (\<lambda>gen. case jfind ''repeat_last_n'' zoo of None \<Rightarrow> Inr gen | Some v \<Rightarrow> set_sampling_member api v gen)
      in bind_result (set_repeat gen) (\<lambda>gen.
         let gen = copy_key ''record_tool_trace'' zoo (copy_key ''stop_sequences'' zoo gen)
         in case jfind ''sampling'' zoo of
              None \<Rightarrow> Inr gen
            | Some s \<Rightarrow> set_repeat (jset ''sampling'' s gen)))"

definition zoo_keys :: "string list" where
  "zoo_keys = [''model_path'', ''context_size'', ''n_gpu_layers'', ''use_mmap'', ''use_mlock'',
     ''max_history_messages'', ''request_queue_capacity'', ''max_tokens'', ''repeat_last_n'',
     ''stop_sequences'', ''record_tool_trace'', ''system_prompt'', ''sampling'', ''max_tool_iterations'',
     ''max_tool_retries'', ''auto_configure_model'']"

definition auto_configured :: "'ac config_api \<Rightarrow> bool \<Rightarrow> json \<Rightarrow> model_config \<Rightarrow> model_config thrown" where
  "auto_configured api wanted zoo old =
     (if \<not> wanted then Inr old
      else if \<not> ca_hub_enabled api
      then Inl (ca_what api ''other_error'' 501 ''auto_configure_model requires ZKS_ENABLE_ZOO_HUB=ON'')
      else case string_field ''model_path'' zoo of
             None \<Rightarrow> Inl (type_error api ''model_path must be a string when auto_configure_model is true'')
           | Some path \<Rightarrow>
               map_error (\<lambda>e. ca_what api ''other_error'' 501 (''auto_configure_model failed: '' @ e))
                 (ca_auto_configure api path))"

definition zoo_from_json :: "'ac config_api \<Rightarrow> json \<Rightarrow> 'ac server_config \<Rightarrow> 'ac server_config thrown" where
  "zoo_from_json api zoo config =
     bind_result (check_unknown_keys api zoo ''zoo config'' zoo_keys) (\<lambda>_.
     bind_result (case jfind ''auto_configure_model'' zoo of
         None \<Rightarrow> Inr (auto_configure_model config)
       | Some (JBool b) \<Rightarrow> Inr b
       | Some _ \<Rightarrow> Inl (type_error api ''auto_configure_model must be a boolean'')) (\<lambda>auto.
     bind_result (auto_configured api auto zoo (sc_model_config config)) (\<lambda>model.
     bind_result (apply_model_config_fields api zoo model) (\<lambda>model.
     bind_result (if agent_json zoo = JNull then Inr (sc_agent_config config)
                  else ca_agent_config api (agent_json zoo)) (\<lambda>agent.
     bind_result (generation_json api zoo) (\<lambda>gen_json.
     bind_result (if gen_json = JNull then Inr (sc_default_generation config)
                  else ca_generation api gen_json) (\<lambda>gen.
     bind_result (read_into (ca_get_string api) ''system_prompt'' zoo (sc_prompt config)) (\<lambda>prompt.
     Inr (config\<lparr>auto_configure_model := auto, sc_model_config := model, sc_agent_config := agent,
          sc_default_generation := gen, sc_prompt := prompt\<rparr>)))))))))"

definition read_port :: "'ac config_api \<Rightarrow> json \<Rightarrow> nat \<Rightarrow> nat thrown" where
  "read_port api j old =
     (case jfind ''port'' j of
        None \<Rightarrow> Inr old
      | Some v \<Rightarrow> bind_result (ca_get_uint32 api v) (\<lambda>parsed_port.
          if parsed_port = 0 \<or> parsed_port > 65535
          then Inl (ca_what api ''out_of_range'' 401 ''port must be in the range [1, 65535]'')
          else Inr parsed_port))"

definition read_api_key :: "'ac config_api \<Rightarrow> json \<Rightarrow> string option \<Rightarrow> string option thrown" where
  "read_api_key api j old =
     (case jfind ''api_key'' j of
        None \<Rightarrow> Inr old
      | Some JNull \<Rightarrow> Inr old
      | Some (JString s) \<Rightarrow> Inr (Some s)
      | Some _ \<Rightarrow> Inl (type_error api ''api_key must be a string''))"

definition default_http :: http_config where
  "default_http = \<lparr>client_max_body_size_bytes = 1048576, client_max_memory_body_size_bytes = 65536,
     idle_connection_timeout_seconds = 60, cors_allow_origins = []\<rparr>"

definition default_sessions :: session_config where
  "default_sessions = \<lparr>max_sessions = 0, idle_ttl_seconds = 900\<rparr>"

text \<open>\<open>defaults\<close> is the default-constructed structure; the library's part of it is a parameter.\<close>

definition server_defaults :: "model_config \<Rightarrow> 'ac \<Rightarrow> generation_options \<Rightarrow> 'ac server_config" where
  "server_defaults model agent gen =
     \<lparr>bind_address = ''127.0.0.1'', port = 8080, sc_model_id = [], api_key = None, http = default_http,
      sessions = default_sessions, tools = [], sc_model_config = model, sc_agent_config = agent,
      sc_default_generation = gen, auto_configure_model = False, sc_prompt = []\<rparr>"

definition server_from_json :: "'ac config_api \<Rightarrow> 'ac server_config \<Rightarrow> json \<Rightarrow> 'ac server_config thrown" where
  "server_from_json api defaults j =
     bind_result (check_unknown_keys api j ''server config''
       [''bind_address'', ''port'', ''model_id'', ''api_key'', ''http'', ''sessions'', ''tools'', ''zoo'']) (\<lambda>_.
     bind_result (read_into (ca_get_string api) ''bind_address'' j (bind_address defaults)) (\<lambda>address.
     bind_result (read_port api j (port defaults)) (\<lambda>port_number.
     bind_result (case jfind ''model_id'' j of
         None \<Rightarrow> Inl (ca_what api ''other_error'' 501 ''Server config must contain required key: model_id'')
       | Some v \<Rightarrow> ca_get_string api v) (\<lambda>model.
     bind_result (read_api_key api j (api_key defaults)) (\<lambda>key.
     bind_result (read_into (\<lambda>v. http_from_json api v default_http) ''http'' j (http defaults)) (\<lambda>http'.
     bind_result (read_into (\<lambda>v. sessions_from_json api v default_sessions) ''sessions'' j (sessions defaults)) (\<lambda>sessions'.
     bind_result (case jfind ''tools'' j of
         None \<Rightarrow> Inr (tools defaults)
       | Some (JArray items) \<Rightarrow> bind_result (tools_from_json api 0 items) (\<lambda>ts. Inr (tools defaults @ ts))
       | Some _ \<Rightarrow> Inl (type_error api ''tools must be an array'')) (\<lambda>tools'.
     case jfind ''zoo'' j of
       None \<Rightarrow> Inl (ca_what api ''other_error'' 501 ''Server config must contain required key: zoo'')
     | Some zoo \<Rightarrow>
         zoo_from_json api zoo (defaults\<lparr>bind_address := address, port := port_number, sc_model_id := model,
           api_key := key, http := http', sessions := sessions', tools := tools'\<rparr>)))))))))"

section \<open>Loading\<close>

definition with_path_context :: "string \<Rightarrow> string \<Rightarrow> string" where
  "with_path_context path message = path @ '': '' @ message"

text \<open>\<open>contents\<close> is what the file holds, \<open>None\<close> if it cannot be opened.\<close>

definition load_config ::
  "'ac config_api \<Rightarrow> 'ac server_config \<Rightarrow> string \<Rightarrow> string option \<Rightarrow> (string, 'ac server_config) result" where
  "load_config api defaults path contents =
     (case contents of
        None \<Rightarrow> Inl (''Unable to open config file: '' @ path)
      | Some text \<Rightarrow>
          map_error (with_path_context path)
            (bind_result (json_parse (ca_json api) text) (\<lambda>json.
             bind_result (server_from_json api defaults json) (\<lambda>config.
             bind_result (validate_server_config api config) (\<lambda>_. Inr config)))))"

definition is_trusted_local_bind_address :: "string \<Rightarrow> bool" where
  "is_trusted_local_bind_address address \<longleftrightarrow>
     address = ''localhost'' \<or> address = ''::1'' \<or> take 4 address = ''127.''"

definition startup_warning :: "'ac server_config \<Rightarrow> string option" where
  "startup_warning config =
     (let has_auth = (case api_key config of None \<Rightarrow> False | Some k \<Rightarrow> k \<noteq> [])
      in if \<not> has_auth \<and> \<not> is_trusted_local_bind_address (bind_address config)
         then Some (''Warning: binding a non-loopback address without api_key auth enabled. '' @
                    ''Use only on a trusted network.'')
         else None)"

section \<open>Properties\<close>

lemma zoo_from_json_port: "zoo_from_json api zoo config = Inr config' \<Longrightarrow> port config' = port config"
  unfolding zoo_from_json_def bind_result_Inr_iff by (elim exE conjE) (auto simp: Let_def)

lemma server_from_json_port:
  assumes "server_from_json api defaults j = Inr config" and "port defaults \<le> 65535"
  shows "port config \<le> 65535"
proof -
  from assms(1) obtain p where "read_port api j (port defaults) = Inr p" "port config = p"
    unfolding server_from_json_def bind_result_Inr_iff
    by (elim exE conjE) (auto dest: zoo_from_json_port split: option.splits)
  with assms(2) show ?thesis by (auto simp: read_port_def result_simps split: option.splits if_splits)
qed

text \<open>
  C37. A configuration that loads is one the server can run with: the address and the model id are
  not empty, the port is in 1..65535, an API key is never the empty string, the limits are
  positive, allowed origins are not empty, the session life time is at least a second, every tool
  is valid, the model has a path and a positive context, and the library accepts the agent
  configuration and the generation options.
\<close>

theorem loaded_config_is_valid:
  assumes "load_config api defaults path contents = Inr config" and "port defaults \<le> 65535"
  shows "bind_address config \<noteq> [] \<and> 1 \<le> port config \<and> port config \<le> 65535 \<and> sc_model_id config \<noteq> []
    \<and> api_key config \<noteq> Some []
    \<and> 0 < client_max_body_size_bytes (http config) \<and> 0 < client_max_memory_body_size_bytes (http config)
    \<and> 0 \<le> idle_connection_timeout_seconds (http config) \<and> [] \<notin> set (cors_allow_origins (http config))
    \<and> 1 \<le> idle_ttl_seconds (sessions config) \<and> (\<forall>tool \<in> set (tools config). tool_ok tool)
    \<and> mc_model_path (sc_model_config config) \<noteq> [] \<and> 0 < mc_context_size (sc_model_config config)
    \<and> ca_validate_agent api (sc_agent_config config) = Inr ()
    \<and> ca_validate_generation api (sc_default_generation config) = Inr ()"
proof -
  from assms(1) obtain j where j: "server_from_json api defaults j = Inr config"
    and v: "validate_server_config api config = Inr ()"
    by (auto simp: load_config_def result_simps split: option.splits)
  note server_from_json_port [OF j assms(2)]
  with v show ?thesis
    by (auto simp: validate_server_config_def validate_http_config_def validate_session_config_def
        validate_model_config_for_config_load_def result_simps split: if_splits)
qed

text \<open>A configuration interface and a file for the witnesses.\<close>

definition plain_options :: generation_options where
  "plain_options = \<lparr>go_sampling = \<lparr>sp_temperature = 0, sp_top_p = 0, sp_top_k = 40, sp_repeat_penalty = 0,
     sp_repeat_last_n = 64, sp_seed = 0\<rparr>, go_max_tokens = 512, go_stop_sequences = [],
     go_record_tool_trace = False\<rparr>"

definition demo_config_api :: "json \<Rightarrow> unit config_api" where
  "demo_config_api j = \<lparr>ca_json = demo_api j, ca_what = (\<lambda>cls i msg. cls @ '' '' @ string_of_nat i @ '' '' @ msg),
     ca_get_int64 = (\<lambda>v. case v of JInt i \<Rightarrow> Inr i | _ \<Rightarrow> Inl ''type''),
     ca_get_int32 = (\<lambda>v. case v of JInt i \<Rightarrow> Inr i | _ \<Rightarrow> Inl ''type''),
     ca_get_size = (\<lambda>v. case v of JUInt n \<Rightarrow> Inr n | _ \<Rightarrow> Inl ''type''),
     ca_get_uint32 = (\<lambda>v. case v of JUInt n \<Rightarrow> Inr n | _ \<Rightarrow> Inl ''type''),
     ca_get_string = (\<lambda>v. case v of JString s \<Rightarrow> Inr s | _ \<Rightarrow> Inl ''type''),
     ca_get_bool = (\<lambda>v. case v of JBool b \<Rightarrow> Inr b | _ \<Rightarrow> Inl ''type''),
     ca_agent_config = (\<lambda>_. Inr ()), ca_generation = (\<lambda>_. Inr plain_options), ca_validate_agent = (\<lambda>_. Inr ()),
     ca_validate_generation = (\<lambda>_. Inr ()), ca_hub_enabled = False, ca_auto_configure = (\<lambda>_. Inl ''no hub'')\<rparr>"

definition demo_defaults :: "unit server_config" where
  "demo_defaults = server_defaults \<lparr>mc_model_path = [], mc_context_size = 8192, mc_n_gpu_layers = 0,
     mc_use_mmap = True, mc_use_mlock = False\<rparr> () plain_options"

definition demo_config_json :: json where
  "demo_config_json = JObject [(''model_id'', JString ''m''), (''port'', JUInt 9000),
     (''zoo'', JObject [(''model_path'', JString ''m.gguf''), (''repeat_last_n'', JInt 32)])]"

definition demo_loaded :: "unit server_config" where
  "demo_loaded = demo_defaults\<lparr>port := 9000, sc_model_id := ''m'',
     sc_model_config := \<lparr>mc_model_path = ''m.gguf'', mc_context_size = 8192, mc_n_gpu_layers = 0,
       mc_use_mmap = True, mc_use_mlock = False\<rparr>\<rparr>"

lemma demo_load: "load_config (demo_config_api demo_config_json) demo_defaults ''c.json'' (Some ''body'') = Inr demo_loaded"
  by (simp add: load_config_def demo_config_api_def demo_api_def demo_config_json_def server_from_json_def
      check_unknown_keys_def reject_unknown_keys_def read_into_def jfind_def read_port_def read_api_key_def
      zoo_from_json_def zoo_keys_def auto_configured_def apply_model_config_fields_def agent_json_def
      copy_key_def generation_json_def set_sampling_member_def jset_def demo_defaults_def server_defaults_def
      validate_server_config_def check_def validate_http_config_def default_http_def default_sessions_def
      validate_session_config_def validate_model_config_for_config_load_def demo_loaded_def Let_def)

theorem loaded_config_is_valid_witness:
  "load_config (demo_config_api demo_config_json) demo_defaults ''c.json'' (Some ''body'') = Inr demo_loaded
   \<and> port demo_loaded \<le> 65535 \<and> mc_model_path (sc_model_config demo_loaded) \<noteq> []"
proof -
  have "port demo_defaults \<le> 65535" by (simp add: demo_defaults_def server_defaults_def)
  with loaded_config_is_valid [OF demo_load] demo_load show ?thesis by blast
qed

text \<open>
  A top-level \<^verbatim>\<open>repeat_last_n\<close> wins over the one in \<^verbatim>\<open>sampling\<close>, and the other members of
  \<^verbatim>\<open>sampling\<close> are kept, whatever the order of the keys in the file.
\<close>

theorem top_level_repeat_last_n_wins:
  assumes "generation_json api zoo = Inr gen" and "jfind ''repeat_last_n'' zoo = Some v"
  shows "\<exists>s. jfind ''sampling'' gen = Some s \<and> jfind ''repeat_last_n'' s = Some v
    \<and> (\<forall>k zs. k \<noteq> ''repeat_last_n'' \<longrightarrow> jfind ''sampling'' zoo = Some zs \<longrightarrow> jfind k s = jfind k zs)
    \<and> (\<forall>k \<in> {''max_tokens'', ''stop_sequences'', ''record_tool_trace''}. jfind k gen = jfind k zoo)"
proof -
  have null: "jfind k JNull = None" for k by (simp add: jfind_def)
  have copy: "jfind k (copy_key k' s t) = (if k = k' then (case jfind k s of None \<Rightarrow> jfind k t | Some w \<Rightarrow> Some w)
      else jfind k t)" for k k' s t
    by (auto simp: copy_key_def store_simps split: option.splits)
  show ?thesis
    using assms
    by (auto simp: generation_json_def set_sampling_member_def Let_def result_simps copy store_simps null
        split: option.splits if_splits)
qed

theorem top_level_repeat_last_n_wins_witness:
  "\<exists>gen s. generation_json (demo_config_api JNull)
       (JObject [(''repeat_last_n'', JInt 32), (''sampling'', JObject [(''repeat_last_n'', JInt 8), (''top_k'', JInt 5)])]) = Inr gen
     \<and> jfind ''sampling'' gen = Some s \<and> jfind ''repeat_last_n'' s = Some (JInt 32) \<and> jfind ''top_k'' s = Some (JInt 5)"
proof -
  let ?sampling = "JObject [(''repeat_last_n'', JInt 8), (''top_k'', JInt 5)]"
  let ?zoo = "JObject [(''repeat_last_n'', JInt 32), (''sampling'', ?sampling)]"
  let ?gen = "JObject [(''sampling'', JObject [(''repeat_last_n'', JInt 32), (''top_k'', JInt 5)])]"
  have gen: "generation_json (demo_config_api JNull) ?zoo = Inr ?gen"
    by (simp add: generation_json_def set_sampling_member_def jset_def copy_key_def jfind_def Let_def)
  have "jfind ''repeat_last_n'' ?zoo = Some (JInt 32)" "jfind ''sampling'' ?zoo = Some ?sampling"
    "jfind ''top_k'' ?sampling = Some (JInt 5)"
    by (simp_all add: jfind_def)
  with top_level_repeat_last_n_wins [OF gen this(1)] gen show ?thesis by auto
qed

text \<open>
  The start-up warning is given exactly when requests from the network would be accepted
  without a key: the address is not a loopback one and no non-empty key is configured.
\<close>

theorem startup_warning_iff:
  "startup_warning config \<noteq> None \<longleftrightarrow>
     api_key config \<in> {None, Some []} \<and>
     bind_address config \<notin> {''localhost'', ''::1''} \<and> (\<nexists>rest. bind_address config = ''127.'' @ rest)"
proof -
  have "take 4 a = ''127.'' \<longleftrightarrow> (\<exists>rest. a = ''127.'' @ rest)" for a :: string
  proof
    assume "take 4 a = ''127.''"
    then have "a = ''127.'' @ drop 4 a" by (metis append_take_drop_id)
    then show "\<exists>rest. a = ''127.'' @ rest" by (rule exI)
  qed auto
  then show ?thesis
    by (auto simp: startup_warning_def is_trusted_local_bind_address_def Let_def split: option.splits)
qed

end
