(* ===== verification/Command_Tools.thy ===== *)
theory Command_Tools
  imports Tool_Schema Api_Types
begin

text \<open>
  \<^verbatim>\<open>src/server/command_tools.cpp\<close>: finding the executable of a tool, building its environment,
  reading its output and running it.

  The operating system is data: \<open>file_system\<close> answers the path queries, \<open>environ\<close> is the process
  environment, and a run is driven by one \<open>turn\<close> per iteration of the loop, holding what
  \<^verbatim>\<open>waitpid\<close>, the clock, \<^verbatim>\<open>poll\<close>, \<^verbatim>\<open>write\<close> and \<^verbatim>\<open>read\<close> return in it. \<open>run_loop\<close> consumes
  turns and is \<open>None\<close> when they do not suffice to leave the loop, so a theorem that the loop does
  not end speaks about all lists of turns of a kind. The set-up calls before the loop are given by
  the errors they would report (\<open>setup_calls\<close>). Pipe descriptors are flags, since only whether they are open
  matters to the loop.
\<close>

definition kMaxStdoutBytes :: nat where "kMaxStdoutBytes = 64 * 1024"
definition kMaxCapturedStderrBytes :: nat where "kMaxCapturedStderrBytes = 8 * 1024"
definition kTimeoutContext :: string where "kTimeoutContext = ''timeout''"

record captured_stream =
  cap_data :: string
  cap_truncated :: bool

record prepared_tool =
  pt_config :: command_tool_config
  pt_executable_path :: string
  pt_env_entries :: "string list"

record file_system =
  fs_current_path :: string
  fs_executable :: "string \<Rightarrow> bool"
  fs_weakly_canonical :: "string \<Rightarrow> string"
  fs_is_directory :: "string \<Rightarrow> bool option"

section \<open>Paths\<close>

text \<open>\<^verbatim>\<open>std::filesystem::path\<close> on POSIX: \<^verbatim>\<open>is_relative\<close> and \<^verbatim>\<open>operator/\<close>.\<close>

definition is_relative :: "string \<Rightarrow> bool" where
  "is_relative p \<longleftrightarrow> (p = [] \<or> hd p \<noteq> CHR ''/'')"

definition path_join :: "string \<Rightarrow> string \<Rightarrow> string" where
  "path_join base p =
     (if \<not> is_relative p then p
      else if base = [] \<or> last base = CHR ''/'' then base @ p else base @ ''/'' @ p)"

definition command_base_directory :: "file_system \<Rightarrow> command_tool_config \<Rightarrow> string" where
  "command_base_directory fs tool =
     (case tool_working_directory tool of Some d \<Rightarrow> d | None \<Rightarrow> fs_current_path fs)"

definition contains_path_separator :: "string \<Rightarrow> bool" where
  "contains_path_separator v \<longleftrightarrow> CHR ''/'' \<in> set v"

text \<open>An entry of \<^verbatim>\<open>environ\<close> split at its first \<^verbatim>\<open>=\<close>; \<open>None\<close> if it has none.\<close>

definition split_entry :: "string \<Rightarrow> (string \<times> string) option" where
  "split_entry entry =
     (let key = takeWhile (\<lambda>c. c \<noteq> CHR ''='') entry
      in if length key = length entry then None else Some (key, drop (Suc (length key)) entry))"

definition environ_entries :: "string list \<Rightarrow> (string \<times> string) list" where
  "environ_entries environ = concat (map (\<lambda>e. case split_entry e of None \<Rightarrow> [] | Some kv \<Rightarrow> [kv]) environ)"

definition getenv :: "string list \<Rightarrow> string \<Rightarrow> string option" where
  "getenv environ name = map_of (environ_entries environ) name"

definition process_path :: "string list \<Rightarrow> string option" where
  "process_path environ =
     (case getenv environ ''PATH'' of None \<Rightarrow> None | Some p \<Rightarrow> if p = [] then None else Some p)"

definition effective_path_env :: "string list \<Rightarrow> command_tool_config \<Rightarrow> string option" where
  "effective_path_env environ tool =
     (case (if tool_inherit_environment tool then process_path environ else None) of
        Some path \<Rightarrow> Some path
      | None \<Rightarrow> (case map_of (tool_env tool) ''PATH'' of
                  Some path \<Rightarrow> Some path
                | None \<Rightarrow> process_path environ))"

text \<open>The loop over the colon-separated entries from position \<^verbatim>\<open>start\<close>; \<open>rest\<close> is the text from there.\<close>

function search_path :: "file_system \<Rightarrow> string \<Rightarrow> string \<Rightarrow> string \<Rightarrow> string option" where
  "search_path fs base_dir program rest =
     (let entry = takeWhile (\<lambda>c. c \<noteq> CHR '':'') rest;
          directory = (if entry = [] then base_dir else entry);
          directory = (if is_relative directory then path_join base_dir directory else directory);
          candidate = path_join directory program
      in if fs_executable fs candidate then Some (fs_weakly_canonical fs candidate)
         else if length entry = length rest then None
         else search_path fs base_dir program (drop (Suc (length entry)) rest))"
  by pat_completeness auto
termination
proof (relation "measure (\<lambda>(fs, b, p, rest). length rest)")
  fix fs :: file_system and b p rest :: string and entry d d' c
  assume "entry = takeWhile (\<lambda>c. c \<noteq> CHR '':'') rest" and "length entry \<noteq> length rest"
  then have "length entry < length rest" using length_takeWhile_le [of "\<lambda>c. c \<noteq> CHR '':''" rest] by simp
  then show "((fs, b, p, drop (Suc (length entry)) rest), fs, b, p, rest)
      \<in> measure (\<lambda>(fs, b, p, rest). length rest)" by simp
qed simp

declare search_path.simps [simp del]

definition resolve_executable_path ::
  "file_system \<Rightarrow> string list \<Rightarrow> command_tool_config \<Rightarrow> string option" where
  "resolve_executable_path fs environ tool =
     (if tool_command tool = [] \<or> hd (tool_command tool) = [] then None
      else let program = hd (tool_command tool) in
        if contains_path_separator program then
          (let candidate = (if is_relative program then path_join (command_base_directory fs tool) program else program)
           in if fs_executable fs candidate then Some (fs_weakly_canonical fs candidate) else None)
        else case effective_path_env environ tool of
               None \<Rightarrow> None
             | Some path_env \<Rightarrow> search_path fs (command_base_directory fs tool) program path_env)"

section \<open>Environment\<close>

text \<open>\<^verbatim>\<open>emplace\<close> of \<^verbatim>\<open>std::map\<close>, which keeps its keys sorted and the value a key has.\<close>

definition env_emplace :: "string \<Rightarrow> string \<Rightarrow> (string \<times> string) list \<Rightarrow> (string \<times> string) list" where
  "env_emplace k v m = (if map_of m k = None then obj_put k v m else m)"

definition build_environment_map :: "string list \<Rightarrow> command_tool_config \<Rightarrow> (string \<times> string) list" where
  "build_environment_map environ tool =
     (let environment = (if tool_inherit_environment tool
            then fold (\<lambda>(k, v). env_emplace k v) (environ_entries environ) [] else [])
      in fold (\<lambda>(k, v). obj_put k v) (tool_env tool) environment)"

definition prepare_command_tool ::
  "file_system \<Rightarrow> string list \<Rightarrow> command_tool_config \<Rightarrow> (string, prepared_tool) result" where
  "prepare_command_tool fs environ tool =
     (case resolve_executable_path fs environ tool of
        None \<Rightarrow> Inl (''tools.command executable not found or not executable: '' @ hd (tool_command tool))
      | Some path \<Rightarrow>
          Inr \<lparr>pt_config = tool, pt_executable_path = path,
               pt_env_entries = map (\<lambda>(k, v). k @ ''='' @ v) (build_environment_map environ tool)\<rparr>)"

definition build_prepared_command_tool ::
  "file_system \<Rightarrow> string list \<Rightarrow> command_tool_config \<Rightarrow> (string, prepared_tool) result" where
  "build_prepared_command_tool fs environ tool =
     bind_result (validate_command_tool tool) (\<lambda>_.
     bind_result (case tool_working_directory tool of
         None \<Rightarrow> Inr ()
       | Some d \<Rightarrow> check (fs_is_directory fs d = Some True)
           ''tools.working_directory must point to an existing directory'') (\<lambda>_.
     prepare_command_tool fs environ tool))"

section \<open>Reading a pipe\<close>

datatype read_result = Read_data string | Read_eof | Read_interrupted | Read_would_block | Read_error string

text \<open>
  \<^verbatim>\<open>read_available\<close> on the results of its successive \<^verbatim>\<open>read\<close> calls: the answer says whether the pipe is
  still open; the unread results are those of later calls. \<open>None\<close>: the script has no further result.
\<close>

fun read_available ::
  "read_result list \<Rightarrow> captured_stream \<Rightarrow> nat \<Rightarrow> ((string, bool) result \<times> captured_stream) option" where
  "read_available [] captured max_bytes = None"
| "read_available (Read_eof # rest) captured max_bytes = Some (Inr False, captured)"
| "read_available (Read_interrupted # rest) captured max_bytes = read_available rest captured max_bytes"
| "read_available (Read_would_block # rest) captured max_bytes = Some (Inr True, captured)"
| "read_available (Read_error e # rest) captured max_bytes = Some (Inl (''read failed: '' @ e), captured)"
| "read_available (Read_data chunk # rest) captured max_bytes =
     (let previous_size = length (cap_data captured);
          captured = (if previous_size < max_bytes
            then captured\<lparr>cap_data := cap_data captured @ take (min (max_bytes - previous_size) (length chunk)) chunk\<rparr>
            else captured);
          captured = (if previous_size + length chunk > max_bytes then captured\<lparr>cap_truncated := True\<rparr> else captured)
      in read_available rest captured max_bytes)"

definition format_stderr :: "string \<Rightarrow> bool \<Rightarrow> string" where
  "format_stderr stderr_text truncated =
     (if stderr_text = [] then []
      else '' | stderr: '' @ stderr_text @ (if truncated then ''... [truncated]'' else []))"

section \<open>Running\<close>

record run_error =
  re_message :: string
  re_timed_out :: bool

definition make_timeout_error :: "nat \<Rightarrow> run_error" where
  "make_timeout_error timeout_ms =
     \<lparr>re_message = ''Tool command timed out after '' @ string_of_nat timeout_ms @ '' ms'', re_timed_out = True\<rparr>"

definition make_runtime_error :: "string \<Rightarrow> run_error" where
  "make_runtime_error message = \<lparr>re_message = message, re_timed_out = False\<rparr>"

datatype exit_status = Exited_with nat | Signalled nat | Other_status

datatype write_result = Written nat | Write_interrupted | Write_would_block | Write_epipe | Write_error string

datatype poll_result =
    Poll_failed string
  | Poll_interrupted
  | Poll_timeout
  | Poll_ready bool bool bool bool

text \<open>
  One iteration's view of the system. \<open>t_wait\<close> is the result of \<^verbatim>\<open>waitpid\<close> (the status once the
  child has exited), \<open>t_kill_status\<close> the status reaped after a kill, \<open>t_expired\<close> whether the clock
  has reached the deadline, and \<open>Poll_ready\<close> holds: stdin error or hang-up, stdin writable, stdout
  readable or hung up, stderr readable or hung up.
\<close>

record turn =
  t_wait :: "(string, exit_status option) result"
  t_kill_status :: exit_status
  t_expired :: bool
  t_poll :: poll_result
  t_writes :: "write_result list"
  t_stdout_reads :: "read_result list"
  t_stderr_reads :: "read_result list"

record run_state =
  r_status :: "exit_status option"
  r_stdin_open :: bool
  r_stdout_open :: bool
  r_stderr_open :: bool
  r_offset :: nat
  r_timed_out :: bool
  r_stdout :: captured_stream
  r_stderr :: captured_stream

definition empty_capture :: captured_stream where
  "empty_capture = \<lparr>cap_data = [], cap_truncated = False\<rparr>"

definition run_start :: run_state where
  "run_start = \<lparr>r_status = None, r_stdin_open = True, r_stdout_open = True, r_stderr_open = True,
     r_offset = 0, r_timed_out = False, r_stdout = empty_capture, r_stderr = empty_capture\<rparr>"

fun write_stdin :: "write_result list \<Rightarrow> nat \<Rightarrow> nat \<Rightarrow> (string, nat) result option" where
  "write_stdin ws offset payload_size =
     (if payload_size \<le> offset then Some (Inr offset)
      else case ws of
             [] \<Rightarrow> None
           | Written n # rest \<Rightarrow> write_stdin rest (offset + n) payload_size
           | Write_interrupted # rest \<Rightarrow> write_stdin rest offset payload_size
           | Write_would_block # rest \<Rightarrow> Some (Inr offset)
           | Write_epipe # rest \<Rightarrow> Some (Inr offset)
           | Write_error e # rest \<Rightarrow> Some (Inl (''Failed to write tool stdin: '' @ e)))"

declare write_stdin.simps [simp del]

text \<open>Leaving the loop: with an error of a system call, or normally with the final state.\<close>

datatype loop_step = Continue run_state | Leave run_state | Fail string

definition step_stdin :: "nat \<Rightarrow> turn \<Rightarrow> bool \<Rightarrow> bool \<Rightarrow> run_state \<Rightarrow> (string, run_state) result option" where
  "step_stdin payload_size turn err out st =
     (if \<not> (r_stdin_open st \<and> r_offset st < payload_size) then Some (Inr st)
      else if err then Some (Inr (st\<lparr>r_stdin_open := False\<rparr>))
      else if out then
        (case write_stdin (t_writes turn) (r_offset st) payload_size of
           None \<Rightarrow> None
         | Some (Inl e) \<Rightarrow> Some (Inl e)
         | Some (Inr offset) \<Rightarrow>
             Some (Inr (st\<lparr>r_offset := offset, r_stdin_open := (r_stdin_open st \<and> offset < payload_size)\<rparr>)))
      else Some (Inr st))"

definition step_stdout :: "turn \<Rightarrow> bool \<Rightarrow> run_state \<Rightarrow> (string, run_state) result option" where
  "step_stdout turn ready st =
     (if \<not> (r_stdout_open st \<and> ready) then Some (Inr st)
      else case read_available (t_stdout_reads turn) (r_stdout st) kMaxStdoutBytes of
             None \<Rightarrow> None
           | Some (Inl e, captured) \<Rightarrow> Some (Inl (''Failed to read tool stdout: '' @ e))
           | Some (Inr still_open, captured) \<Rightarrow>
               Some (Inr (st\<lparr>r_stdout := captured, r_stdout_open := still_open\<rparr>)))"

definition step_stderr :: "turn \<Rightarrow> bool \<Rightarrow> run_state \<Rightarrow> (string, run_state) result option" where
  "step_stderr turn ready st =
     (if \<not> (r_stderr_open st \<and> ready) then Some (Inr st)
      else case read_available (t_stderr_reads turn) (r_stderr st) kMaxCapturedStderrBytes of
             None \<Rightarrow> None
           | Some (Inl e, captured) \<Rightarrow> Some (Inl (''Failed to read tool stderr: '' @ e))
           | Some (Inr still_open, captured) \<Rightarrow>
               Some (Inr (st\<lparr>r_stderr := captured, r_stderr_open := still_open\<rparr>)))"

definition bind_step ::
  "(string, run_state) result option \<Rightarrow> (run_state \<Rightarrow> (string, run_state) result option) \<Rightarrow>
     (string, run_state) result option" where
  "bind_step r f = (case r of None \<Rightarrow> None | Some (Inl e) \<Rightarrow> Some (Inl e) | Some (Inr st) \<Rightarrow> f st)"

text \<open>
  The two steps before polling: \<^verbatim>\<open>try_wait\<close>, which does nothing once the child has been reaped, then
  the deadline, which kills only a live child.
\<close>

definition try_wait ::
  "exit_status option \<Rightarrow> (string, exit_status option) result \<Rightarrow> (string, exit_status option) result" where
  "try_wait status waitpid_result =
     (case status of
        Some s \<Rightarrow> Inr (Some s)
      | None \<Rightarrow> map_error (\<lambda>e. ''Failed while waiting on tool process: '' @ e) waitpid_result)"

definition reap_and_time :: "turn \<Rightarrow> run_state \<Rightarrow> (string, run_state) result" where
  "reap_and_time turn st =
     bind_result (try_wait (r_status st) (t_wait turn)) (\<lambda>s.
     if s = None \<and> t_expired turn
     then Inr (st\<lparr>r_timed_out := True, r_stdin_open := False, r_status := Some (t_kill_status turn)\<rparr>)
     else Inr (st\<lparr>r_status := s\<rparr>))"

definition loop_turn :: "nat \<Rightarrow> turn \<Rightarrow> run_state \<Rightarrow> loop_step option" where
  "loop_turn payload_size turn st =
     (case reap_and_time turn st of
        Inl e \<Rightarrow> Some (Fail e)
      | Inr st \<Rightarrow>
          if r_status st \<noteq> None \<and> \<not> r_stdout_open st \<and> \<not> r_stderr_open st then Some (Leave st)
          else if \<not> (r_stdin_open st \<and> r_offset st < payload_size) \<and> \<not> r_stdout_open st \<and> \<not> r_stderr_open st
          then Some (Continue st)
          else (case t_poll turn of
                  Poll_failed e \<Rightarrow> Some (Fail (''Failed while polling tool pipes: '' @ e))
                | Poll_interrupted \<Rightarrow> Some (Continue st)
                | Poll_timeout \<Rightarrow> Some (Continue st)
                | Poll_ready in_err in_out out_ready err_ready \<Rightarrow>
                    (case bind_step (step_stdin payload_size turn in_err in_out st) (\<lambda>st.
                          bind_step (step_stdout turn out_ready st) (step_stderr turn err_ready)) of
                       None \<Rightarrow> None
                     | Some (Inl e) \<Rightarrow> Some (Fail e)
                     | Some (Inr st) \<Rightarrow> Some (Continue st))))"

fun run_loop :: "nat \<Rightarrow> turn list \<Rightarrow> run_state \<Rightarrow> (string, run_state) result option" where
  "run_loop payload_size [] st = None"
| "run_loop payload_size (turn # turns) st =
     (case loop_turn payload_size turn st of
        None \<Rightarrow> None
      | Some (Fail e) \<Rightarrow> Some (Inl e)
      | Some (Leave st') \<Rightarrow> Some (Inr st')
      | Some (Continue st') \<Rightarrow> run_loop payload_size turns st')"

text \<open>What the code makes of the state after the loop.\<close>

definition judge_output ::
  "json_api \<Rightarrow> nat \<Rightarrow> run_state \<Rightarrow> (run_error, json) result" where
  "judge_output api timeout_ms st =
     (let stderr_text = format_stderr (cap_data (r_stderr st)) (cap_truncated (r_stderr st)) in
      if r_timed_out st then Inl (make_timeout_error timeout_ms)
      else if cap_truncated (r_stdout st)
      then Inl (make_runtime_error (''Tool command stdout exceeded '' @ string_of_nat kMaxStdoutBytes @ '' bytes''))
      else case r_status st of
             Some (Signalled n) \<Rightarrow>
               Inl (make_runtime_error (''Tool command terminated by signal '' @ string_of_nat n @ stderr_text))
           | Some (Exited_with n) \<Rightarrow>
               if n \<noteq> 0
               then Inl (make_runtime_error (''Tool command exited with status '' @ string_of_nat n @ stderr_text))
               else (case json_parse api (cap_data (r_stdout st)) of
                       Inl e \<Rightarrow> Inl (make_runtime_error (''Tool command stdout was not valid JSON: '' @ e))
                     | Inr output \<Rightarrow>
                         if is_object output then Inr output
                         else Inl (make_runtime_error ''Tool command stdout must be a JSON object''))
           | _ \<Rightarrow> Inl (make_runtime_error (''Tool command ended unexpectedly'' @ stderr_text)))"

text \<open>
  The system calls before the loop, by the error each would give: creating the pipes, the calls that
  prepare and make the spawn (named by the message the code reports them with), and the two
  \<^verbatim>\<open>fcntl\<close> calls on each of the parent's ends.
\<close>

record setup_calls =
  su_pipe_error :: "string \<Rightarrow> string option"
  su_call_error :: "string \<Rightarrow> string option"
  su_getfl_error :: "string \<Rightarrow> string option"
  su_setfl_error :: "string \<Rightarrow> string option"

definition setup_labels :: "prepared_tool \<Rightarrow> string list" where
  "setup_labels prepared =
     [''Failed to initialize spawn file actions'', ''Failed to initialize spawn attributes'',
      ''Failed to wire tool stdin'', ''Failed to wire tool stdout'', ''Failed to wire tool stderr'',
      ''Failed to close child stdin write end'', ''Failed to close child stdout read end'',
      ''Failed to close child stderr read end''] @
     (case tool_working_directory (pt_config prepared) of
        Some d \<Rightarrow> [''Failed to configure child working directory''] | None \<Rightarrow> []) @
     [''Failed to spawn tool process'']"

definition create_pipe :: "string option \<Rightarrow> (string, unit) result" where
  "create_pipe e = (case e of None \<Rightarrow> Inr () | Some e \<Rightarrow> Inl (''Failed to create pipe: '' @ e))"

definition set_non_blocking :: "setup_calls \<Rightarrow> string \<Rightarrow> (string, unit) result" where
  "set_non_blocking su label =
     (case su_getfl_error su label of
        Some e \<Rightarrow> Inl (''Failed to inspect '' @ label @ '': '' @ e)
      | None \<Rightarrow>
          (case su_setfl_error su label of
             Some e \<Rightarrow> Inl (''Failed to make '' @ label @ '' non-blocking: '' @ e)
           | None \<Rightarrow> Inr ()))"

definition setup_call :: "setup_calls \<Rightarrow> string \<Rightarrow> (string, unit) result" where
  "setup_call su label =
     (case su_call_error su label of None \<Rightarrow> Inr () | Some e \<Rightarrow> Inl (label @ '': '' @ e))"

definition set_up :: "prepared_tool \<Rightarrow> setup_calls \<Rightarrow> (string, unit) result" where
  "set_up prepared su =
     bind_result (each (\<lambda>name. create_pipe (su_pipe_error su name)) [''stdin'', ''stdout'', ''stderr'']) (\<lambda>_.
     bind_result (each (setup_call su) (setup_labels prepared)) (\<lambda>_.
     each (set_non_blocking su) [''tool stdin'', ''tool stdout'', ''tool stderr'']))"

definition run_prepared_command_tool ::
  "json_api \<Rightarrow> prepared_tool \<Rightarrow> json \<Rightarrow> setup_calls \<Rightarrow> turn list \<Rightarrow> (run_error, json) result option" where
  "run_prepared_command_tool api prepared arguments su turns =
     (case set_up prepared su of
        Inl e \<Rightarrow> Some (Inl (make_runtime_error e))
      | Inr _ \<Rightarrow>
          (case run_loop (length (json_dump api arguments @ [newline])) turns run_start of
             None \<Rightarrow> None
           | Some (Inl e) \<Rightarrow> Some (Inl (make_runtime_error e))
           | Some (Inr st) \<Rightarrow> Some (judge_output api (tool_timeout_ms (pt_config prepared)) st)))"

definition run_command_tool ::
  "json_api \<Rightarrow> file_system \<Rightarrow> string list \<Rightarrow> command_tool_config \<Rightarrow> json \<Rightarrow> setup_calls \<Rightarrow> turn list \<Rightarrow>
     (run_error, json) result option" where
  "run_command_tool api fs environ tool arguments su turns =
     (case build_prepared_command_tool fs environ tool of
        Inl e \<Rightarrow> Some (Inl (make_runtime_error e))
      | Inr prepared \<Rightarrow> run_prepared_command_tool api prepared arguments su turns)"

section \<open>The provider\<close>

record registered_tool =
  rg_definition :: tool_definition
  rg_prepared :: prepared_tool

definition invoke_tool ::
  "json_api \<Rightarrow> registered_tool \<Rightarrow> json \<Rightarrow> setup_calls \<Rightarrow> turn list \<Rightarrow> json runtime_result option" where
  "invoke_tool api tool arguments su turns =
     map_option (map_sum (\<lambda>e. \<lparr>rt_code = ToolExecutionFailed, rt_message = re_message e,
         rt_context = (if re_timed_out e then Some kTimeoutContext else None)\<rparr>) id)
       (run_prepared_command_tool api (rg_prepared tool) arguments su turns)"

fun make_command_tool_provider ::
  "file_system \<Rightarrow> string list \<Rightarrow> command_tool_config list \<Rightarrow> (string, registered_tool list) result" where
  "make_command_tool_provider fs environ [] = Inr []"
| "make_command_tool_provider fs environ (tool # rest) =
     bind_result (map_error (\<lambda>e. ''Invalid tool '' @ quoted (tool_name tool) @ '': '' @ e)
       (build_prepared_command_tool fs environ tool)) (\<lambda>prepared.
     bind_result (make_command_tool_provider fs environ rest) (\<lambda>more.
     Inr (\<lparr>rg_definition = \<lparr>td_name = tool_name tool, td_description = tool_description tool,
              parameters_schema = tool_parameters_schema tool\<rparr>, rg_prepared = prepared\<rparr> # more)))"

section \<open>Reference definitions\<close>

fun split_colon :: "string \<Rightarrow> string list" where
  "split_colon [] = [[]]"
| "split_colon (c # s) =
     (if c = CHR '':'' then [] # split_colon s
      else case split_colon s of [] \<Rightarrow> [[c]] | e # es \<Rightarrow> (c # e) # es)"

definition path_candidate :: "string \<Rightarrow> string \<Rightarrow> string \<Rightarrow> string" where
  "path_candidate base_dir program entry =
     path_join (if entry = [] then (if is_relative base_dir then path_join base_dir base_dir else base_dir)
                else if is_relative entry then path_join base_dir entry else entry) program"

text \<open>The bytes a sequence of reads delivers before it stops.\<close>

fun bytes_read :: "read_result list \<Rightarrow> string" where
  "bytes_read (Read_data chunk # rest) = chunk @ bytes_read rest"
| "bytes_read (Read_interrupted # rest) = bytes_read rest"
| "bytes_read _ = []"

section \<open>Path search\<close>

lemma split_colon_unfold:
  "split_colon s = takeWhile (\<lambda>c. c \<noteq> CHR '':'') s #
     (if length (takeWhile (\<lambda>c. c \<noteq> CHR '':'') s) = length s then []
      else split_colon (drop (Suc (length (takeWhile (\<lambda>c. c \<noteq> CHR '':'') s))) s))"
  by (induction s) (auto split: list.splits)

lemma search_path_find:
  "search_path fs base_dir program rest =
     map_option (fs_weakly_canonical fs)
       (find (fs_executable fs) (map (path_candidate base_dir program) (split_colon rest)))"
proof (induction fs base_dir program rest rule: search_path.induct)
  case (1 fs base_dir program rest)
  let ?entry = "takeWhile (\<lambda>c. c \<noteq> CHR '':'') rest"
  let ?c = "path_candidate base_dir program ?entry"
  have c: "path_join (if is_relative (if ?entry = [] then base_dir else ?entry)
      then path_join base_dir (if ?entry = [] then base_dir else ?entry)
      else if ?entry = [] then base_dir else ?entry) program = ?c"
    by (simp add: path_candidate_def)
  show ?case
  proof (cases "fs_executable fs ?c \<or> length ?entry = length rest")
    case True
    then show ?thesis
      by (subst search_path.simps, subst split_colon_unfold) (auto simp: Let_def c simp del: split_colon.simps)
  next
    case False
    then have "search_path fs base_dir program (drop (Suc (length ?entry)) rest) =
        map_option (fs_weakly_canonical fs) (find (fs_executable fs)
          (map (path_candidate base_dir program) (split_colon (drop (Suc (length ?entry)) rest))))"
      using "1.IH" [OF refl refl refl refl] by (simp add: c)
    with False show ?thesis
      by (subst search_path.simps, subst split_colon_unfold) (simp add: Let_def c del: split_colon.simps)
  qed
qed

section \<open>Environment lemmas\<close>

lemma map_of_env_emplace [store_simps]:
  "map_of (env_emplace k v m) k' = (if k' = k \<and> map_of m k = None then Some v else map_of m k')"
  by (auto simp: env_emplace_def store_simps)

lemma fold_env_emplace:
  "map_of (fold (\<lambda>(k, v). env_emplace k v) kvs m) k =
     (case map_of m k of Some v \<Rightarrow> Some v | None \<Rightarrow> map_of kvs k)"
  by (induction kvs arbitrary: m) (auto simp: store_simps split: option.splits prod.splits)

lemma fold_obj_put:
  "map_of (fold (\<lambda>(k, v). obj_put k v) kvs m) k = (case map_of (rev kvs) k of Some v \<Rightarrow> Some v | None \<Rightarrow> map_of m k)"
  by (induction kvs arbitrary: m) (auto simp: store_simps map_add_def split: option.splits prod.splits)

lemma sorted_env_emplace: "sorted_keys m \<Longrightarrow> sorted_keys (env_emplace k v m)"
  by (simp add: env_emplace_def sorted_keys_obj_put)

lemma sorted_keys_folds:
  "sorted_keys m \<Longrightarrow> sorted_keys (fold (\<lambda>(k, v). env_emplace k v) kvs m)"
  "sorted_keys m \<Longrightarrow> sorted_keys (fold (\<lambda>(k, v). obj_put k v) kvs m)"
  by (induction kvs arbitrary: m) (auto simp: sorted_env_emplace sorted_keys_obj_put)

section \<open>Loop lemmas\<close>

lemma read_available_spec:
  assumes "read_available rs cap n = Some (r, cap')" and "length (cap_data cap) \<le> n"
  shows "cap_data cap' = take n (cap_data cap @ bytes_read rs)
     \<and> (cap_truncated cap' \<longleftrightarrow> cap_truncated cap \<or> n < length (cap_data cap @ bytes_read rs))"
  using assms
proof (induction rs cap n rule: read_available.induct)
  case (6 chunk rest cap n)
  let ?d = "cap_data cap"
  let ?cap1 = "if length ?d < n
      then cap\<lparr>cap_data := ?d @ take (min (n - length ?d) (length chunk)) chunk\<rparr> else cap"
  let ?cap2 = "if n < length ?d + length chunk then ?cap1\<lparr>cap_truncated := True\<rparr> else ?cap1"
  have data: "cap_data ?cap2 = take n (?d @ chunk)" using "6.prems"(2) by (auto simp: min_def)
  have tr: "cap_truncated ?cap2 \<longleftrightarrow> cap_truncated cap \<or> n < length ?d + length chunk" by simp
  have "read_available rest ?cap2 n = Some (r, cap')" using "6.prems"(1) by (simp add: Let_def)
  moreover have "length (cap_data ?cap2) \<le> n" by (simp only: data) simp
  ultimately have ih: "cap_data cap' = take n (cap_data ?cap2 @ bytes_read rest)"
    "cap_truncated cap' \<longleftrightarrow> cap_truncated ?cap2 \<or> n < length (cap_data ?cap2 @ bytes_read rest)"
    using "6.IH" [OF refl refl refl] by (auto simp: Let_def)
  have "take n (take n (?d @ chunk) @ bytes_read rest) = take n (?d @ chunk @ bytes_read rest)"
    using "6.prems"(2) by (cases "n \<le> length (?d @ chunk)") (simp_all add: min_def)
  with ih tr show ?case unfolding data using "6.prems"(2) by auto
qed auto

lemma reap_and_time_keeps:
  assumes "reap_and_time turn st = Inr st'"
  shows "r_stdout_open st' = r_stdout_open st" "r_stderr_open st' = r_stderr_open st"
    "r_timed_out st \<Longrightarrow> r_timed_out st'" "r_status st \<noteq> None \<Longrightarrow> st' = st"
    "r_stdout st' = r_stdout st" "r_stderr st' = r_stderr st"
  using assms
  by (auto simp: reap_and_time_def try_wait_def result_simps split: option.splits if_splits)

lemma steps_keep:
  assumes "bind_step (step_stdin n turn a b st) (\<lambda>st. bind_step (step_stdout turn c st) (step_stderr turn d)) =
    Some (Inr st')"
  shows "r_timed_out st' = r_timed_out st \<and> r_status st' = r_status st"
  using assms
  by (auto simp: bind_step_def step_stdin_def step_stdout_def step_stderr_def
      split: option.splits sum.splits if_splits)

lemma loop_turn_timed_out:
  assumes "loop_turn n turn st = Some step" and "r_timed_out st"
  shows "case step of Continue st' \<Rightarrow> r_timed_out st' | Leave st' \<Rightarrow> r_timed_out st' | Fail e \<Rightarrow> True"
  using assms reap_and_time_keeps(3)
  by (auto simp: loop_turn_def split: sum.splits if_splits poll_result.splits option.splits dest: steps_keep)

lemma run_loop_timed_out:
  "run_loop n turns st = Some (Inr st') \<Longrightarrow> r_timed_out st \<Longrightarrow> r_timed_out st'"
proof (induction n turns st rule: run_loop.induct)
  case (2 n turn turns st)
  then show ?case
    using loop_turn_timed_out [of n turn st] by (auto split: option.splits loop_step.splits)
qed simp

lemma run_loop_left:
  "run_loop n turns st = Some (Inr st') \<Longrightarrow> r_status st' \<noteq> None \<and> \<not> r_stdout_open st' \<and> \<not> r_stderr_open st'"
  by (induction n turns st rule: run_loop.induct)
    (auto simp: loop_turn_def split: option.splits loop_step.splits sum.splits if_splits poll_result.splits)

end
