(* ===== verification/Tool_Runs.thy ===== *)
theory Tool_Runs
  imports Command_Tools
begin

text \<open>
  Properties of command tools: what a run of \<^verbatim>\<open>src/server/command_tools.cpp\<close> returns as a function
  of what the system delivered, when it returns, the time limit and its gap, the search for the
  executable, the child's environment and the provider. \<open>stdout_stream\<close>, \<open>deadline_hit\<close> and
  \<open>reaped_status\<close> read these facts off the list of turns without running the loop; the lemmas
  relate one iteration (\<open>loop_turnE\<close>) and then the whole loop to them.
\<close>

section \<open>What a run delivers\<close>

text \<open>Whether a sequence of reads ends at the end of the stream, and what the turns deliver.\<close>

fun reads_end :: "read_result list \<Rightarrow> bool" where
  "reads_end (Read_eof # rest) = True"
| "reads_end (Read_data chunk # rest) = reads_end rest"
| "reads_end (Read_interrupted # rest) = reads_end rest"
| "reads_end _ = False"

fun stdout_stream :: "turn list \<Rightarrow> string" where
  "stdout_stream [] = []"
| "stdout_stream (turn # turns) =
     (case t_poll turn of
        Poll_ready _ _ True _ \<Rightarrow>
          bytes_read (t_stdout_reads turn) @ (if reads_end (t_stdout_reads turn) then [] else stdout_stream turns)
      | _ \<Rightarrow> stdout_stream turns)"

text \<open>The deadline passes before the child has been reaped; the status with which it is reaped.\<close>

fun deadline_hit :: "turn list \<Rightarrow> bool" where
  "deadline_hit [] = False"
| "deadline_hit (turn # turns) = (t_wait turn = Inr None \<and> (t_expired turn \<or> deadline_hit turns))"

fun reaped_status :: "turn list \<Rightarrow> exit_status option" where
  "reaped_status [] = None"
| "reaped_status (turn # turns) =
     (case t_wait turn of
        Inr (Some s) \<Rightarrow> Some s
      | Inr None \<Rightarrow> if t_expired turn then Some (t_kill_status turn) else reaped_status turns
      | Inl e \<Rightarrow> None)"

lemma read_available_open:
  "read_available rs cap n = Some (Inr still_open, cap') \<Longrightarrow> still_open = (\<not> reads_end rs)"
  by (induction rs cap n rule: read_available.induct) (auto simp: Let_def)

lemma step_frames:
  "step_stdin n turn a b st = Some (Inr st') \<Longrightarrow>
     r_stdout st' = r_stdout st \<and> r_stdout_open st' = r_stdout_open st"
  "step_stderr turn d st = Some (Inr st') \<Longrightarrow>
     r_stdout st' = r_stdout st \<and> r_stdout_open st' = r_stdout_open st"
  "step_stdout turn c st = Some (Inr st') \<Longrightarrow> \<not> (r_stdout_open st \<and> c) \<Longrightarrow> st' = st"
  by (auto simp: step_stdin_def step_stdout_def step_stderr_def split: option.splits sum.splits if_splits)

lemma step_stdout_reads:
  assumes "step_stdout turn True st = Some (Inr st')" and "r_stdout_open st"
    and "length (cap_data (r_stdout st)) \<le> kMaxStdoutBytes"
  defines "all \<equiv> cap_data (r_stdout st) @ bytes_read (t_stdout_reads turn)"
  shows "cap_data (r_stdout st') = take kMaxStdoutBytes all"
    and "cap_truncated (r_stdout st') \<longleftrightarrow> cap_truncated (r_stdout st) \<or> kMaxStdoutBytes < length all"
    and "r_stdout_open st' = (\<not> reads_end (t_stdout_reads turn))"
proof -
  obtain opn cap where r: "read_available (t_stdout_reads turn) (r_stdout st) kMaxStdoutBytes = Some (Inr opn, cap)"
    and st': "st' = st\<lparr>r_stdout := cap, r_stdout_open := opn\<rparr>"
    using assms(1,2) by (auto simp: step_stdout_def split: option.splits sum.splits)
  from read_available_spec [OF r assms(3)] read_available_open [OF r]
  show "cap_data (r_stdout st') = take kMaxStdoutBytes all"
    and "cap_truncated (r_stdout st') \<longleftrightarrow> cap_truncated (r_stdout st) \<or> kMaxStdoutBytes < length all"
    and "r_stdout_open st' = (\<not> reads_end (t_stdout_reads turn))"
    by (simp_all add: st' all_def)
qed

text \<open>The three ways through an iteration that is not an error.\<close>

lemma loop_turn_polls:
  assumes "reap_and_time turn st = Inr st1"
    and "\<not> (r_status st1 \<noteq> None \<and> \<not> r_stdout_open st1 \<and> \<not> r_stderr_open st1)"
    and "\<not> (\<not> (r_stdin_open st1 \<and> r_offset st1 < n) \<and> \<not> r_stdout_open st1 \<and> \<not> r_stderr_open st1)"
  shows "loop_turn n turn st =
     (case t_poll turn of
        Poll_failed e \<Rightarrow> Some (Fail (''Failed while polling tool pipes: '' @ e))
      | Poll_interrupted \<Rightarrow> Some (Continue st1)
      | Poll_timeout \<Rightarrow> Some (Continue st1)
      | Poll_ready in_err in_out out_ready err_ready \<Rightarrow>
          (case bind_step (step_stdin n turn in_err in_out st1) (\<lambda>st.
                bind_step (step_stdout turn out_ready st) (step_stderr turn err_ready)) of
             None \<Rightarrow> None
           | Some (Inl e) \<Rightarrow> Some (Fail e)
           | Some (Inr st) \<Rightarrow> Some (Continue st)))"
  unfolding loop_turn_def by (simp only: assms(1) sum.case if_not_P [OF assms(2)] if_not_P [OF assms(3)])

lemma loop_turnE:
  assumes "loop_turn n turn st = Some step"
  obtains (fail) e where "step = Fail e"
  | (leave) st1 where "reap_and_time turn st = Inr st1" and "step = Leave st1"
      and "r_status st1 \<noteq> None" and "\<not> r_stdout_open st1" and "\<not> r_stderr_open st1"
  | (idle) st1 where "reap_and_time turn st = Inr st1" and "step = Continue st1"
      and "r_stdout_open st1 \<Longrightarrow> t_poll turn = Poll_interrupted \<or> t_poll turn = Poll_timeout"
  | (ready) st1 a b c d st2 st3 st4 where "reap_and_time turn st = Inr st1" and "step = Continue st4"
      and "t_poll turn = Poll_ready a b c d"
      and "step_stdin n turn a b st1 = Some (Inr st2)" and "step_stdout turn c st2 = Some (Inr st3)"
      and "step_stderr turn d st3 = Some (Inr st4)"
proof (cases "reap_and_time turn st")
  case (Inl e)
  with assms have "step = Fail e" by (simp add: loop_turn_def)
  then show ?thesis by (rule fail)
next
  case (Inr st1)
  let ?done = "r_status st1 \<noteq> None \<and> \<not> r_stdout_open st1 \<and> \<not> r_stderr_open st1"
  let ?silent = "\<not> (r_stdin_open st1 \<and> r_offset st1 < n) \<and> \<not> r_stdout_open st1 \<and> \<not> r_stderr_open st1"
  consider "?done" | "\<not> ?done" "?silent" | "\<not> ?done" "\<not> ?silent" by blast
  then show ?thesis
  proof cases
    case 1
    with assms Inr show ?thesis by (intro leave [of st1]) (auto simp: loop_turn_def)
  next
    case 2
    with assms Inr show ?thesis by (intro idle [of st1]) (auto simp: loop_turn_def split: if_splits)
  next
    case 3
    from assms loop_turn_polls [OF Inr 3] show ?thesis
      using Inr fail idle ready
      by (auto simp: bind_step_def split: poll_result.splits option.splits sum.splits)
  qed
qed

lemma loop_turn_keeps_closed:
  assumes "loop_turn n turn st = Some step" and "\<not> r_stdout_open st"
  shows "case step of Continue st' \<Rightarrow> \<not> r_stdout_open st' \<and> r_stdout st' = r_stdout st
    | Leave st' \<Rightarrow> r_stdout st' = r_stdout st | Fail e \<Rightarrow> True"
  using assms(1)
proof (cases rule: loop_turnE)
  case (ready st1 a b c d st2 st3 st4)
  then show ?thesis
    using step_frames(1) [OF ready(4)] step_frames(3) [OF ready(5)] step_frames(2) [OF ready(6)]
      reap_and_time_keeps [OF ready(1)] assms(2) by simp
qed (use reap_and_time_keeps assms(2) in auto)

lemma loop_turn_stdout:
  assumes "loop_turn n turn st = Some step" and "r_stdout_open st"
    and "length (cap_data (r_stdout st)) \<le> kMaxStdoutBytes"
  defines "here \<equiv> (case t_poll turn of Poll_ready _ _ True _ \<Rightarrow> bytes_read (t_stdout_reads turn) | _ \<Rightarrow> [])"
  shows "case step of
      Continue st' \<Rightarrow> cap_data (r_stdout st') = take kMaxStdoutBytes (cap_data (r_stdout st) @ here)
        \<and> (cap_truncated (r_stdout st') \<longleftrightarrow> cap_truncated (r_stdout st)
             \<or> kMaxStdoutBytes < length (cap_data (r_stdout st) @ here))
        \<and> (r_stdout_open st' \<longleftrightarrow> (case t_poll turn of
              Poll_ready _ _ True _ \<Rightarrow> \<not> reads_end (t_stdout_reads turn) | _ \<Rightarrow> True))
    | Leave st' \<Rightarrow> False | Fail e \<Rightarrow> True"
  using assms(1)
proof (cases rule: loop_turnE)
  case (leave st1)
  then show ?thesis using reap_and_time_keeps [OF leave(1)] assms(2) by simp
next
  case (idle st1)
  then show ?thesis using reap_and_time_keeps [OF idle(1)] assms(2,3) by (auto simp: here_def)
next
  case (ready st1 a b c d st2 st3 st4)
  have st2: "r_stdout st2 = r_stdout st" "r_stdout_open st2"
    using step_frames(1) [OF ready(4)] reap_and_time_keeps [OF ready(1)] assms(2) by auto
  note st4 = step_frames(2) [OF ready(6)]
  show ?thesis
  proof (cases c)
    case True
    with step_stdout_reads [of turn st2 st3] ready(2,3,5) st2 st4 assms(3) show ?thesis
      by (simp add: here_def)
  next
    case False
    with step_frames(3) [OF ready(5)] ready(2,3) st2 st4 assms(3) show ?thesis by (simp add: here_def)
  qed
qed simp

lemma run_loop_stdout_closed:
  "run_loop n turns st = Some (Inr st') \<Longrightarrow> \<not> r_stdout_open st \<Longrightarrow> r_stdout st' = r_stdout st"
proof (induction n turns st rule: run_loop.induct)
  case (2 n turn turns st)
  then show ?case
    using loop_turn_keeps_closed [of n turn st] by (fastforce split: option.splits loop_step.splits)
qed simp

lemma capture_append:
  "take k (take k xs @ ys) = take k (xs @ ys)"
  "k < length xs \<or> k < length (take k xs @ ys) \<longleftrightarrow> k < length (xs @ ys)"
  by (auto simp: min_def)

lemma run_loop_stdout:
  "run_loop n turns st = Some (Inr st') \<Longrightarrow> r_stdout_open st \<Longrightarrow>
   length (cap_data (r_stdout st)) \<le> kMaxStdoutBytes \<Longrightarrow>
   cap_data (r_stdout st') = take kMaxStdoutBytes (cap_data (r_stdout st) @ stdout_stream turns)
   \<and> (cap_truncated (r_stdout st') \<longleftrightarrow> cap_truncated (r_stdout st)
        \<or> kMaxStdoutBytes < length (cap_data (r_stdout st) @ stdout_stream turns))"
proof (induction n turns st rule: run_loop.induct)
  case (2 n turn turns st)
  let ?k = kMaxStdoutBytes and ?d = "cap_data (r_stdout st)"
  define here where "here = (case t_poll turn of Poll_ready _ _ True _ \<Rightarrow> bytes_read (t_stdout_reads turn) | _ \<Rightarrow> [])"
  define opn where "opn = (case t_poll turn of Poll_ready _ _ True _ \<Rightarrow> \<not> reads_end (t_stdout_reads turn) | _ \<Rightarrow> True)"
  from 2(2) obtain step where step: "loop_turn n turn st = Some step" by (auto split: option.splits)
  note turn = loop_turn_stdout [OF step 2(3,4), folded here_def opn_def]
  from turn 2(2) step obtain st1 where st1: "step = Continue st1" "run_loop n turns st1 = Some (Inr st')"
    by (cases step) auto
  from turn st1 have data: "cap_data (r_stdout st1) = take ?k (?d @ here)"
    and tr: "cap_truncated (r_stdout st1) \<longleftrightarrow> cap_truncated (r_stdout st) \<or> ?k < length (?d @ here)"
    and op: "r_stdout_open st1 = opn" by auto
  have stream: "stdout_stream (turn # turns) = here @ (if opn then stdout_stream turns else [])"
    by (simp add: here_def opn_def split: poll_result.splits bool.splits)
  show ?case
  proof (cases opn)
    case True
    have "length (cap_data (r_stdout st1)) \<le> ?k" by (simp only: data) simp
    with 2(1) [OF step st1] True op have ih:
      "cap_data (r_stdout st') = take ?k (cap_data (r_stdout st1) @ stdout_stream turns)"
      "cap_truncated (r_stdout st') \<longleftrightarrow> cap_truncated (r_stdout st1)
        \<or> ?k < length (cap_data (r_stdout st1) @ stdout_stream turns)" by auto
    have s: "stdout_stream (turn # turns) = here @ stdout_stream turns" using True stream by simp
    show ?thesis
      unfolding ih s data tr disj_assoc capture_append append_assoc by simp
  next
    case False
    with run_loop_stdout_closed [OF st1(2)] op have "r_stdout st' = r_stdout st1" by simp
    moreover have s: "stdout_stream (turn # turns) = here" using False stream by simp
    ultimately show ?thesis unfolding s using data tr by simp
  qed
qed simp

lemma loop_turn_status:
  assumes "loop_turn n turn st = Some step"
  shows "case step of
      Continue st' \<Rightarrow> \<exists>st1. reap_and_time turn st = Inr st1 \<and> r_status st' = r_status st1 \<and> r_timed_out st' = r_timed_out st1
    | Leave st' \<Rightarrow> reap_and_time turn st = Inr st' \<and> r_status st' \<noteq> None
    | Fail e \<Rightarrow> True"
  using assms
proof (cases rule: loop_turnE)
  case (ready st1 a b c d st2 st3 st4)
  then show ?thesis using steps_keep [of n turn a b st1 c d st4] by (simp add: bind_step_def)
qed auto

lemma reap_and_time_status:
  assumes "reap_and_time turn st = Inr st'"
  shows "r_status st = Some s \<Longrightarrow> r_status st' = Some s \<and> r_timed_out st' = r_timed_out st"
    and "r_status st = None \<Longrightarrow>
      (t_wait turn = Inr None \<and> \<not> t_expired turn \<and> r_status st' = None \<and> r_timed_out st' = r_timed_out st) \<or>
      (t_wait turn = Inr None \<and> t_expired turn \<and> r_status st' = Some (t_kill_status turn) \<and> r_timed_out st') \<or>
      (\<exists>s. t_wait turn = Inr (Some s) \<and> r_status st' = Some s \<and> r_timed_out st' = r_timed_out st)"
proof -
  from assms obtain s where s: "try_wait (r_status st) (t_wait turn) = Inr s"
    and st': "st' = (if s = None \<and> t_expired turn
      then st\<lparr>r_timed_out := True, r_stdin_open := False, r_status := Some (t_kill_status turn)\<rparr>
      else st\<lparr>r_status := s\<rparr>)"
    by (auto simp: reap_and_time_def result_simps split: if_splits)
  show "r_status st = Some s \<Longrightarrow> r_status st' = Some s \<and> r_timed_out st' = r_timed_out st" for s
    using s st' by (auto simp: try_wait_def)
  show "r_status st = None \<Longrightarrow>
      (t_wait turn = Inr None \<and> \<not> t_expired turn \<and> r_status st' = None \<and> r_timed_out st' = r_timed_out st) \<or>
      (t_wait turn = Inr None \<and> t_expired turn \<and> r_status st' = Some (t_kill_status turn) \<and> r_timed_out st') \<or>
      (\<exists>s. t_wait turn = Inr (Some s) \<and> r_status st' = Some s \<and> r_timed_out st' = r_timed_out st)"
    using s by (cases s; cases "t_expired turn") (auto simp: st' try_wait_def result_simps)
qed

lemma run_loop_status_kept:
  "run_loop n turns st = Some (Inr st') \<Longrightarrow> r_status st = Some s \<Longrightarrow>
   r_status st' = Some s \<and> r_timed_out st' = r_timed_out st"
proof (induction n turns st rule: run_loop.induct)
  case (2 n turn turns st)
  then obtain step where step: "loop_turn n turn st = Some step" by (auto split: option.splits)
  note turn = loop_turn_status [OF step]
  show ?case
  proof (cases step)
    case (Continue st1)
    with 2(2) step have run: "run_loop n turns st1 = Some (Inr st')" by simp
    from Continue turn 2(3) have st1: "r_status st1 = Some s" "r_timed_out st1 = r_timed_out st"
      by (auto dest!: reap_and_time_status(1))
    from 2(1) [OF step Continue run st1(1)] st1(2) show ?thesis by simp
  qed (use 2(2,3) step turn in \<open>auto dest!: reap_and_time_status(1)\<close>)
qed simp

lemma run_loop_status:
  "run_loop n turns st = Some (Inr st') \<Longrightarrow> r_status st = None \<Longrightarrow>
   r_timed_out st' = (r_timed_out st \<or> deadline_hit turns) \<and> r_status st' = reaped_status turns"
proof (induction n turns st rule: run_loop.induct)
  case (2 n turn turns st)
  then obtain step where step: "loop_turn n turn st = Some step" by (auto split: option.splits)
  note turn = loop_turn_status [OF step]
  show ?case
  proof (cases step)
    case (Continue st1)
    with 2(2) step have run: "run_loop n turns st1 = Some (Inr st')" by simp
    from Continue turn obtain st2 where "reap_and_time turn st = Inr st2"
      "r_status st1 = r_status st2" "r_timed_out st1 = r_timed_out st2" by auto
    from reap_and_time_status(2) [OF this(1) 2(3)] this(2,3) show ?thesis
      using 2(1) [OF step Continue run] run_loop_status_kept [OF run] by auto
  qed (use 2(2,3) step turn in \<open>auto dest!: reap_and_time_status(2)\<close>)
qed simp

section \<open>Properties\<close>

text \<open>A system for the witnesses: two directories, and an interpreter of one-character outputs.\<close>

definition demo_fs :: file_system where
  "demo_fs = \<lparr>fs_current_path = ''/w'', fs_executable = (\<lambda>p. p = ''/w/run'' \<or> p = ''/b/run''),
     fs_weakly_canonical = (\<lambda>p. p), fs_is_directory = (\<lambda>p. Some True)\<rparr>"

definition demo_tool :: command_tool_config where
  "demo_tool = \<lparr>tool_name = ''t'', tool_description = ''d'',
     tool_parameters_schema = JObject [(''properties'', JObject []), (''type'', JString ''object'')],
     tool_command = [''run'', ''x''], tool_working_directory = None, tool_inherit_environment = True,
     tool_env = [(''PATH'', ''/e'')], tool_timeout_ms = 50\<rparr>"

definition demo_prepared :: prepared_tool where
  "demo_prepared = \<lparr>pt_config = demo_tool, pt_executable_path = ''/b/run'', pt_env_entries = []\<rparr>"

definition demo_json_api :: json_api where
  "demo_json_api = \<lparr>json_parse = (\<lambda>s. if s = ''{}'' then Inr (JObject []) else Inl ''syntax error''),
     json_dump = (\<lambda>_. ''{}''), json_get_float = (\<lambda>_. 0), json_get_int = (\<lambda>_. 0),
     json_get_uint = (\<lambda>_. 0)\<rparr>"

definition no_errors :: setup_calls where
  "no_errors = \<lparr>su_pipe_error = (\<lambda>_. None), su_call_error = (\<lambda>_. None), su_getfl_error = (\<lambda>_. None),
     su_setfl_error = (\<lambda>_. None)\<rparr>"

definition quiet_turn :: turn where
  "quiet_turn = \<lparr>t_wait = Inr None, t_kill_status = Signalled 9, t_expired = False, t_poll = Poll_timeout,
     t_writes = [], t_stdout_reads = [], t_stderr_reads = []\<rparr>"

definition output_turn :: turn where
  "output_turn = quiet_turn\<lparr>t_poll := Poll_ready False True True True, t_writes := [Written 3],
     t_stdout_reads := [Read_data ''{'', Read_interrupted, Read_data ''}'', Read_eof],
     t_stderr_reads := [Read_eof]\<rparr>"

definition exit_turn :: turn where
  "exit_turn = quiet_turn\<lparr>t_wait := Inr (Some (Exited_with 0))\<rparr>"

definition late_turn :: turn where
  "late_turn = quiet_turn\<lparr>t_expired := True\<rparr>"

text \<open>
  C26. What a run makes of its tool is determined by what the system delivers, not by how: once
  the loop is left, the tool's answer is the value \<open>v\<close> exactly when the deadline did not pass before
  the child was reaped, the child exited with status 0, the whole standard output, in whatever
  pieces it was read, has at most 64 KiB, and it parses to \<open>v\<close>, a JSON object. Output beyond the
  limit, a signal, a non-zero status or any other text is an error.
\<close>

theorem tool_run_result:
  assumes "set_up prepared su = Inr ()"
    and "run_loop (length (json_dump api arguments @ [newline])) turns run_start = Some (Inr st)"
  shows "run_prepared_command_tool api prepared arguments su turns = Some (Inr v) \<longleftrightarrow>
    \<not> deadline_hit turns \<and> reaped_status turns = Some (Exited_with 0) \<and>
    length (stdout_stream turns) \<le> 65536 \<and>
    json_parse api (stdout_stream turns) = Inr v \<and> is_object v"
proof -
  have out: "cap_data (r_stdout st) = take kMaxStdoutBytes (stdout_stream turns)"
    "cap_truncated (r_stdout st) \<longleftrightarrow> kMaxStdoutBytes < length (stdout_stream turns)"
    using run_loop_stdout [OF assms(2)] by (simp_all add: run_start_def empty_capture_def)
  have status: "r_timed_out st = deadline_hit turns" "r_status st = reaped_status turns"
    using run_loop_status [OF assms(2)] by (simp_all add: run_start_def)
  have "run_prepared_command_tool api prepared arguments su turns = Some (Inr v) \<longleftrightarrow>
      judge_output api (tool_timeout_ms (pt_config prepared)) st = Inr v"
    using assms by (simp add: run_prepared_command_tool_def)
  also have "\<dots> \<longleftrightarrow> \<not> r_timed_out st \<and> \<not> cap_truncated (r_stdout st) \<and> r_status st = Some (Exited_with 0)
      \<and> json_parse api (cap_data (r_stdout st)) = Inr v \<and> is_object v"
    by (auto simp: judge_output_def Let_def split: option.splits exit_status.splits sum.splits if_splits)
  finally show ?thesis by (auto simp: out status kMaxStdoutBytes_def)
qed

lemma demo_set_up: "set_up demo_prepared no_errors = Inr ()"
  by code_simp

lemma demo_loop:
  "run_loop (length (json_dump demo_json_api JNull @ [newline])) [quiet_turn, output_turn, exit_turn] run_start =
     Some (Inr (run_start\<lparr>r_status := Some (Exited_with 0), r_stdin_open := False, r_stdout_open := False,
       r_stderr_open := False, r_offset := 3, r_stdout := \<lparr>cap_data = ''{}'', cap_truncated = False\<rparr>\<rparr>))"
  by (simp add: loop_turn_def reap_and_time_def try_wait_def bind_step_def step_stdin_def step_stdout_def
      step_stderr_def write_stdin.simps Let_def kMaxStdoutBytes_def run_start_def empty_capture_def
      quiet_turn_def output_turn_def exit_turn_def demo_json_api_def)

theorem tool_run_result_witness:
  "run_prepared_command_tool demo_json_api demo_prepared JNull no_errors [quiet_turn, output_turn, exit_turn] =
     Some (Inr (JObject []))"
  unfolding tool_run_result [OF demo_set_up demo_loop] by code_simp


definition demo_registered :: registered_tool where
  "demo_registered = \<lparr>rg_definition = \<lparr>td_name = ''t'', td_description = ''d'', parameters_schema = JNull\<rparr>,
     rg_prepared = demo_prepared\<rparr>"

lemma demo_late_loop:
  "\<exists>st. run_loop (length (json_dump demo_json_api JNull @ [newline])) [quiet_turn, late_turn, output_turn, exit_turn]
     run_start = Some (Inr st)"
  by (simp add: loop_turn_def reap_and_time_def try_wait_def bind_step_def step_stdin_def step_stdout_def
      step_stderr_def write_stdin.simps Let_def kMaxStdoutBytes_def run_start_def empty_capture_def
      quiet_turn_def output_turn_def exit_turn_def late_turn_def demo_json_api_def)


section \<open>Leaving the loop\<close>

text \<open>An iteration without an error of a system call.\<close>

fun writes_ok :: "write_result list \<Rightarrow> bool" where
  "writes_ok (Written n # rest) = writes_ok rest"
| "writes_ok (Write_interrupted # rest) = writes_ok rest"
| "writes_ok (Write_would_block # rest) = True"
| "writes_ok (Write_epipe # rest) = True"
| "writes_ok _ = False"

fun reads_ok :: "read_result list \<Rightarrow> bool" where
  "reads_ok (Read_data chunk # rest) = reads_ok rest"
| "reads_ok (Read_interrupted # rest) = reads_ok rest"
| "reads_ok (Read_would_block # rest) = True"
| "reads_ok (Read_eof # rest) = True"
| "reads_ok _ = False"

definition orderly :: "turn \<Rightarrow> bool" where
  "orderly turn \<longleftrightarrow> isl (t_wait turn) = False \<and> (case t_poll turn of Poll_failed e \<Rightarrow> False | _ \<Rightarrow> True)
     \<and> writes_ok (t_writes turn) \<and> reads_ok (t_stdout_reads turn) \<and> reads_ok (t_stderr_reads turn)"

definition stdout_ends :: "turn \<Rightarrow> bool" where
  "stdout_ends turn \<longleftrightarrow> (case t_poll turn of Poll_ready _ _ c _ \<Rightarrow> c \<and> reads_end (t_stdout_reads turn) | _ \<Rightarrow> False)"

definition stderr_ends :: "turn \<Rightarrow> bool" where
  "stderr_ends turn \<longleftrightarrow> (case t_poll turn of Poll_ready _ _ _ d \<Rightarrow> d \<and> reads_end (t_stderr_reads turn) | _ \<Rightarrow> False)"

lemma write_stdin_ok: "writes_ok ws \<Longrightarrow> \<exists>k. write_stdin ws offset n = Some (Inr k)"
  by (induction ws arbitrary: offset rule: writes_ok.induct) (subst write_stdin.simps, simp)+

lemma read_available_ok: "reads_ok rs \<Longrightarrow> \<exists>cap'. read_available rs cap n = Some (Inr (\<not> reads_end rs), cap')"
  by (induction rs arbitrary: cap rule: reads_ok.induct) (auto simp: Let_def)

lemma orderly_steps:
  assumes "orderly turn"
  obtains st1 st2 st3 where "step_stdin n turn a b st = Some (Inr st1)"
    and "step_stdout turn c st1 = Some (Inr st2)" and "step_stderr turn d st2 = Some (Inr st3)"
    and "r_status st3 = r_status st"
    and "r_stdout_open st3 = (r_stdout_open st \<and> \<not> (c \<and> reads_end (t_stdout_reads turn)))"
    and "r_stderr_open st3 = (r_stderr_open st \<and> \<not> (d \<and> reads_end (t_stderr_reads turn)))"
proof -
  obtain k where "write_stdin (t_writes turn) (r_offset st) n = Some (Inr k)"
    using assms write_stdin_ok by (meson orderly_def)
  then have "\<exists>st1. step_stdin n turn a b st = Some (Inr st1) \<and> r_status st1 = r_status st
    \<and> r_stdout_open st1 = r_stdout_open st \<and> r_stderr_open st1 = r_stderr_open st"
    by (simp add: step_stdin_def)
  then obtain st1 where st1: "step_stdin n turn a b st = Some (Inr st1)" "r_status st1 = r_status st"
    "r_stdout_open st1 = r_stdout_open st" "r_stderr_open st1 = r_stderr_open st" by blast
  obtain cap where "read_available (t_stdout_reads turn) (r_stdout st1) kMaxStdoutBytes =
      Some (Inr (\<not> reads_end (t_stdout_reads turn)), cap)"
    using assms read_available_ok by (meson orderly_def)
  then obtain st2 where st2: "step_stdout turn c st1 = Some (Inr st2)" "r_status st2 = r_status st1"
    "r_stdout_open st2 = (r_stdout_open st1 \<and> \<not> (c \<and> reads_end (t_stdout_reads turn)))"
    "r_stderr_open st2 = r_stderr_open st1"
    by (cases "r_stdout_open st1 \<and> c") (auto simp: step_stdout_def)
  obtain cap' where "read_available (t_stderr_reads turn) (r_stderr st2) kMaxCapturedStderrBytes =
      Some (Inr (\<not> reads_end (t_stderr_reads turn)), cap')"
    using assms read_available_ok by (meson orderly_def)
  then obtain st3 where st3: "step_stderr turn d st2 = Some (Inr st3)" "r_status st3 = r_status st2"
    "r_stderr_open st3 = (r_stderr_open st2 \<and> \<not> (d \<and> reads_end (t_stderr_reads turn)))"
    "r_stdout_open st3 = r_stdout_open st2"
    by (cases "r_stderr_open st2 \<and> d") (auto simp: step_stderr_def)
  show ?thesis by (rule that [OF st1(1) st2(1) st3(1)]) (simp_all add: st1 st2 st3)
qed

lemma orderly_poll:
  assumes "orderly turn" and st1: "reap_and_time turn st = Inr st1"
    and live: "\<not> (r_status st1 \<noteq> None \<and> \<not> r_stdout_open st1 \<and> \<not> r_stderr_open st1)"
  shows "\<exists>st'. loop_turn n turn st = Some (Continue st') \<and> r_status st' = r_status st1
    \<and> r_stdout_open st' = (r_stdout_open st1 \<and> \<not> stdout_ends turn)
    \<and> r_stderr_open st' = (r_stderr_open st1 \<and> \<not> stderr_ends turn)"
proof (cases "\<not> (r_stdin_open st1 \<and> r_offset st1 < n) \<and> \<not> r_stdout_open st1 \<and> \<not> r_stderr_open st1")
  case True
  with st1 live have "loop_turn n turn st = Some (Continue st1)" by (simp add: loop_turn_def)
  with True show ?thesis by simp
next
  case False
  note turn = loop_turn_polls [OF st1 live False]
  show ?thesis
  proof (cases "t_poll turn")
    case (Poll_ready a b c d)
    from orderly_steps [OF assms(1)] obtain st2 st3 st4 where
      "step_stdin n turn a b st1 = Some (Inr st2)" "step_stdout turn c st2 = Some (Inr st3)"
      "step_stderr turn d st3 = Some (Inr st4)" "r_status st4 = r_status st1"
      "r_stdout_open st4 = (r_stdout_open st1 \<and> \<not> (c \<and> reads_end (t_stdout_reads turn)))"
      "r_stderr_open st4 = (r_stderr_open st1 \<and> \<not> (d \<and> reads_end (t_stderr_reads turn)))" by metis
    then show ?thesis
      unfolding turn Poll_ready by (simp add: bind_step_def stdout_ends_def stderr_ends_def Poll_ready)
  qed (use assms in \<open>simp_all add: turn orderly_def stdout_ends_def stderr_ends_def\<close>)
qed

lemma orderly_turn:
  assumes "orderly turn"
  shows "(\<exists>st'. loop_turn n turn st = Some (Leave st')) \<or>
    (\<exists>st'. loop_turn n turn st = Some (Continue st')
      \<and> (r_status st \<noteq> None \<or> t_wait turn \<noteq> Inr None \<or> t_expired turn \<longrightarrow> r_status st' \<noteq> None)
      \<and> (\<not> r_stdout_open st \<or> stdout_ends turn \<longrightarrow> \<not> r_stdout_open st')
      \<and> (\<not> r_stderr_open st \<or> stderr_ends turn \<longrightarrow> \<not> r_stderr_open st'))"
proof -
  obtain s where "t_wait turn = Inr s" using assms by (cases "t_wait turn") (auto simp: orderly_def)
  then obtain st1 where st1: "reap_and_time turn st = Inr st1"
    by (cases "r_status st"; cases "s = None \<and> t_expired turn") (auto simp: reap_and_time_def try_wait_def)
  have status: "r_status st1 \<noteq> None" if "r_status st \<noteq> None \<or> t_wait turn \<noteq> Inr None \<or> t_expired turn"
    using that reap_and_time_status [OF st1] by (cases "r_status st") auto
  show ?thesis
  proof (cases "r_status st1 \<noteq> None \<and> \<not> r_stdout_open st1 \<and> \<not> r_stderr_open st1")
    case True
    with st1 have "loop_turn n turn st = Some (Leave st1)" by (simp add: loop_turn_def)
    then show ?thesis by blast
  next
    case False
    from orderly_poll [OF assms st1 this] obtain st' where
      "loop_turn n turn st = Some (Continue st')" "r_status st' = r_status st1"
      "r_stdout_open st' = (r_stdout_open st1 \<and> \<not> stdout_ends turn)"
      "r_stderr_open st' = (r_stderr_open st1 \<and> \<not> stderr_ends turn)" by blast
    with status reap_and_time_keeps(1,2) [OF st1] show ?thesis by (intro disjI2 exI [of _ st'] conjI impI) auto
  qed
qed

lemma orderly_run_returns:
  assumes "\<forall>turn \<in> set turns. orderly turn" and "orderly end_turn"
    and "r_status st \<noteq> None \<or> (\<exists>turn \<in> set turns. t_wait turn \<noteq> Inr None \<or> t_expired turn)"
    and "\<not> r_stdout_open st \<or> (\<exists>turn \<in> set turns. stdout_ends turn)"
    and "\<not> r_stderr_open st \<or> (\<exists>turn \<in> set turns. stderr_ends turn)"
  shows "\<exists>st'. run_loop n (turns @ [end_turn]) st = Some (Inr st')"
  using assms
proof (induction turns arbitrary: st)
  case Nil
  obtain s where "r_status st = Some s" using Nil by auto
  then have "reap_and_time end_turn st = Inr st" by (simp add: reap_and_time_def try_wait_def)
  with Nil show ?case by (simp add: loop_turn_def)
next
  case (Cons turn turns)
  from Cons.prems(1) have "orderly turn" by simp
  from orderly_turn [OF this, of n st] show ?case
  proof (elim disjE exE conjE)
    fix st' assume "loop_turn n turn st = Some (Leave st')"
    then show ?thesis by simp
  next
    fix st'
    assume step: "loop_turn n turn st = Some (Continue st')"
      "r_status st \<noteq> None \<or> t_wait turn \<noteq> Inr None \<or> t_expired turn \<longrightarrow> r_status st' \<noteq> None"
      "\<not> r_stdout_open st \<or> stdout_ends turn \<longrightarrow> \<not> r_stdout_open st'"
      "\<not> r_stderr_open st \<or> stderr_ends turn \<longrightarrow> \<not> r_stderr_open st'"
    have "\<exists>st''. run_loop n (turns @ [end_turn]) st' = Some (Inr st'')"
      using Cons.prems step(2-4) by (intro Cons.IH) auto
    with step(1) show ?thesis by simp
  qed
qed

text \<open>
  A run returns. Without errors of system calls, the loop is left at the latest one iteration
  after the child has exited or overrun its deadline and both its outputs have ended, whatever the
  order of these events and the chunks of reading and writing; there is no way to wait any longer.
\<close>

theorem tool_run_returns:
  assumes "set_up prepared su = Inr ()" and "\<forall>turn \<in> set turns. orderly turn" and "orderly end_turn"
    and "\<exists>turn \<in> set turns. t_wait turn \<noteq> Inr None \<or> t_expired turn"
    and "\<exists>turn \<in> set turns. stdout_ends turn" and "\<exists>turn \<in> set turns. stderr_ends turn"
  shows "\<exists>r. run_prepared_command_tool api prepared arguments su (turns @ [end_turn]) = Some r"
proof -
  obtain st where "run_loop (length (json_dump api arguments @ [newline])) (turns @ [end_turn]) run_start =
      Some (Inr st)"
    using orderly_run_returns [OF assms(2,3), of run_start] assms(4-6) by blast
  with assms(1) show ?thesis by (simp add: run_prepared_command_tool_def)
qed

definition orderly_demo :: turn where
  "orderly_demo = output_turn\<lparr>t_writes := [Write_epipe], t_expired := True\<rparr>"

theorem tool_run_returns_witness:
  "\<exists>r. run_prepared_command_tool demo_json_api demo_prepared JNull no_errors ([orderly_demo] @ [orderly_demo]) = Some r"
  by (rule tool_run_returns [OF demo_set_up])
    (simp_all add: orderly_demo_def output_turn_def quiet_turn_def orderly_def stdout_ends_def stderr_ends_def)

text \<open>
  C39. The time limit covers the child only. Once the child itself has exited, a process it left
  behind that keeps an output open keeps the loop running without end: however many iterations
  pass after the deadline, the run does not return.
\<close>

theorem exited_child_disables_timeout:
  assumes "set_up prepared su = Inr ()" and "t_wait turn = Inr (Some s)" and "t_poll turn = Poll_timeout"
    and "\<forall>late \<in> set turns. t_expired late \<and> t_poll late = Poll_timeout"
  shows "run_prepared_command_tool api prepared arguments su (turn # turns) = None"
proof -
  have stuck: "run_loop n turns st = None"
    if "r_status st = Some s" "r_stdout_open st" "\<forall>late \<in> set turns. t_poll late = Poll_timeout" for n st turns
    using that by (induction turns arbitrary: st) (simp_all add: loop_turn_def reap_and_time_def try_wait_def)
  have "loop_turn n turn run_start = Some (Continue (run_start\<lparr>r_status := Some s\<rparr>))" for n
    using assms(2,3) by (simp add: loop_turn_def reap_and_time_def try_wait_def run_start_def)
  then show ?thesis
    using assms(1,4) stuck [of "run_start\<lparr>r_status := Some s\<rparr>" turns]
    by (simp add: run_prepared_command_tool_def run_start_def)
qed

theorem exited_child_disables_timeout_witness:
  "run_prepared_command_tool demo_json_api demo_prepared JNull no_errors (exit_turn # replicate 1000 late_turn) = None"
  by (rule exited_child_disables_timeout [OF demo_set_up])
    (simp_all add: exit_turn_def late_turn_def quiet_turn_def)

text \<open>
  A tool named without a slash is searched in the entries of the search path from left to
  right; the first executable one is taken, an empty entry is the base directory and a relative
  one is relative to it, and without a search path there is no executable.
\<close>

theorem executable_search_order:
  assumes "tool_command tool = program # arguments" and "program \<noteq> []" and "\<not> contains_path_separator program"
  shows "resolve_executable_path fs environ tool =
    (case effective_path_env environ tool of
       None \<Rightarrow> None
     | Some path \<Rightarrow> map_option (fs_weakly_canonical fs)
         (find (fs_executable fs)
           (map (path_candidate (command_base_directory fs tool) program) (split_colon path))))"
  using assms by (simp add: resolve_executable_path_def Let_def search_path_find split: option.splits)

theorem executable_search_order_witness:
  "resolve_executable_path demo_fs [''A=1'', ''PATH=c::/b''] demo_tool = Some ''/w/run''"
proof -
  have "tool_command demo_tool = ''run'' # [''x'']" by (simp add: demo_tool_def)
  from executable_search_order [OF this] show ?thesis
    by (simp add: contains_path_separator_def) code_simp
qed

text \<open>
  The child's environment: a variable has the value the tool's configuration gives it, or else,
  when the tool inherits, the value it has in the server's environment, and no others are set; each
  is set once.
\<close>

theorem child_environment:
  "map_of (build_environment_map environ tool) k =
     (case map_of (rev (tool_env tool)) k of
        Some v \<Rightarrow> Some v
      | None \<Rightarrow> if tool_inherit_environment tool then getenv environ k else None)
   \<and> distinct (map fst (build_environment_map environ tool))"
proof -
  have "sorted_keys (build_environment_map environ tool)"
    using sorted_keys_folds(1) [of "[]"] sorted_keys_folds(2)
    by (simp add: build_environment_map_def sorted_keys_def)
  then have "distinct (map fst (build_environment_map environ tool))"
    by (simp add: sorted_keys_def strict_sorted_iff)
  then show ?thesis
    by (simp add: build_environment_map_def Let_def fold_obj_put fold_env_emplace getenv_def split: option.split)
qed

text \<open>
  The executable is not searched where the child would search it: a tool that inherits the
  environment and sets its own \<^verbatim>\<open>PATH\<close> is looked up in the server's \<^verbatim>\<open>PATH\<close>, while the child runs
  with the tool's.
\<close>

theorem path_search_ignores_tool_path:
  assumes "tool_inherit_environment tool" and "process_path environ = Some p"
    and "map_of (tool_env tool) ''PATH'' = Some q" and "distinct (map fst (tool_env tool))"
  shows "effective_path_env environ tool = Some p
    \<and> map_of (build_environment_map environ tool) ''PATH'' = Some q"
  using assms
  by (simp add: effective_path_env_def build_environment_map_def Let_def fold_obj_put map_of_rev_keys)

theorem path_search_ignores_tool_path_witness:
  "effective_path_env [''PATH=/b''] demo_tool = Some ''/b''
    \<and> map_of (build_environment_map [''PATH=/b''] demo_tool) ''PATH'' = Some ''/e''"
  by (rule path_search_ignores_tool_path) code_simp+

text \<open>
  The provider is all or nothing: if every configured tool can be prepared it offers them in
  their order under their own names and descriptions; otherwise there is no provider and the error
  names the first tool that cannot be prepared and says why.
\<close>

theorem provider_registers_all_tools:
  "make_command_tool_provider fs environ tools =
     (case find (\<lambda>tool. isl (build_prepared_command_tool fs environ tool)) tools of
        Some tool \<Rightarrow> Inl (''Invalid tool '' @ quoted (tool_name tool) @ '': '' @
          projl (build_prepared_command_tool fs environ tool))
      | None \<Rightarrow> Inr (map (\<lambda>tool.
          \<lparr>rg_definition = \<lparr>td_name = tool_name tool, td_description = tool_description tool,
             parameters_schema = tool_parameters_schema tool\<rparr>,
           rg_prepared = projr (build_prepared_command_tool fs environ tool)\<rparr>) tools))"
proof (induction tools)
  case (Cons tool tools)
  then show ?case by (cases "build_prepared_command_tool fs environ tool") (auto split: option.splits)
qed simp

end
