(* ===== verification/Tool_Resources.thy ===== *)
theory Tool_Resources
  imports Zks_Prelude
begin

text \<open>
  The wrappers of POSIX resources in \<^verbatim>\<open>command_tools.cpp\<close>: \<^verbatim>\<open>ScopedFd\<close> and \<^verbatim>\<open>ScopedChildProcess\<close>.

  Descriptors: the system's table of open descriptors and the variables of type \<^verbatim>\<open>ScopedFd\<close> form one
  state, so that moves between variables, which share descriptors for a moment in no step, can be
  followed. The system hands out any descriptor that is not open, closed ones again; closing one that
  is not open is recorded in \<open>stray_closes\<close>, since by then it may belong to someone else.
  The child: every call of \<^verbatim>\<open>waitpid\<close> and \<^verbatim>\<open>kill\<close> is appended to a log together with the system's answer.
\<close>

section \<open>Descriptors\<close>

record 'v descriptors =
  open_fds :: "int list"
  stray_closes :: nat
  fd_of :: "'v \<Rightarrow> int"

definition fd_close :: "int \<Rightarrow> 'v descriptors \<Rightarrow> 'v descriptors" where
  "fd_close fd d =
     (if fd \<in> set (open_fds d) then d\<lparr>open_fds := remove1 fd (open_fds d)\<rparr>
      else d\<lparr>stray_closes := stray_closes d + 1\<rparr>)"

definition fd_valid :: "'v \<Rightarrow> 'v descriptors \<Rightarrow> bool" where
  "fd_valid x d \<longleftrightarrow> fd_of d x \<ge> 0"

definition fd_release :: "'v \<Rightarrow> 'v descriptors \<Rightarrow> int \<times> 'v descriptors" where
  "fd_release x d = (fd_of d x, d\<lparr>fd_of := (fd_of d)(x := -1)\<rparr>)"

definition fd_reset :: "'v \<Rightarrow> int \<Rightarrow> 'v descriptors \<Rightarrow> 'v descriptors" where
  "fd_reset x fd d =
     (let d = (if fd_of d x \<ge> 0 then fd_close (fd_of d x) d else d)
      in d\<lparr>fd_of := (fd_of d)(x := fd)\<rparr>)"

definition fd_destroy :: "'v \<Rightarrow> 'v descriptors \<Rightarrow> 'v descriptors" where
  "fd_destroy x d = fd_reset x (-1) d"

text \<open>The move constructor, into a variable that holds nothing yet, and the move assignment.\<close>

definition fd_move :: "'v \<Rightarrow> 'v \<Rightarrow> 'v descriptors \<Rightarrow> 'v descriptors" where
  "fd_move x other d = (case fd_release other d of (fd, d) \<Rightarrow> d\<lparr>fd_of := (fd_of d)(x := fd)\<rparr>)"

definition fd_assign :: "'v \<Rightarrow> 'v \<Rightarrow> 'v descriptors \<Rightarrow> 'v descriptors" where
  "fd_assign x other d =
     (if x \<noteq> other then
        let d = fd_reset x (-1) d
        in (case fd_release other d of (fd, d) \<Rightarrow> d\<lparr>fd_of := (fd_of d)(x := fd)\<rparr>)
      else d)"

text \<open>\<^verbatim>\<open>ScopedPipe::create\<close>: both descriptors are the system's choice, or the call fails.\<close>

definition pipe_create :: "'v \<Rightarrow> 'v \<Rightarrow> (string, int \<times> int) result \<Rightarrow> 'v descriptors \<Rightarrow>
    (string, unit) result \<times> 'v descriptors" where
  "pipe_create r w answer d =
     (case answer of
        Inl e \<Rightarrow> (Inl (''Failed to create pipe: '' @ e), d)
      | Inr (fd0, fd1) \<Rightarrow>
          (Inr (), d\<lparr>open_fds := fd0 # fd1 # open_fds d, fd_of := (fd_of d)(r := fd0, w := fd1)\<rparr>))"

text \<open>
  What code that only uses the wrappers can do. A pipe is created in, and a value moved into,
  variables that hold nothing; the system's answers are descriptors that are not open.
\<close>

datatype 'v fd_op =
    Create_pipe 'v 'v "(string, int \<times> int) result" | Reset 'v | Move 'v 'v | Assign 'v 'v | Destroy 'v

fun fd_step :: "'v fd_op \<Rightarrow> 'v descriptors \<Rightarrow> 'v descriptors" where
  "fd_step (Create_pipe r w answer) d = snd (pipe_create r w answer d)"
| "fd_step (Reset x) d = fd_reset x (-1) d"
| "fd_step (Move x other) d = fd_move x other d"
| "fd_step (Assign x other) d = fd_assign x other d"
| "fd_step (Destroy x) d = fd_destroy x d"

fun fd_allowed :: "'v fd_op \<Rightarrow> 'v descriptors \<Rightarrow> bool" where
  "fd_allowed (Create_pipe r w answer) d =
     (r \<noteq> w \<and> \<not> fd_valid r d \<and> \<not> fd_valid w d \<and>
      (case answer of Inl e \<Rightarrow> True
       | Inr (fd0, fd1) \<Rightarrow> 0 \<le> fd0 \<and> 0 \<le> fd1 \<and> fd0 \<noteq> fd1 \<and> fd0 \<notin> set (open_fds d) \<and> fd1 \<notin> set (open_fds d)))"
| "fd_allowed (Move x other) d = (x \<noteq> other \<and> \<not> fd_valid x d)"
| "fd_allowed _ d = True"

fun fd_run :: "'v fd_op list \<Rightarrow> 'v descriptors \<Rightarrow> 'v descriptors option" where
  "fd_run [] d = Some d"
| "fd_run (op # ops) d = (if fd_allowed op d then fd_run ops (fd_step op d) else None)"

text \<open>The descriptors opened through wrappers are those some wrapper owns, each one wrapper.\<close>

definition owns :: "'v \<Rightarrow> int \<Rightarrow> 'v descriptors \<Rightarrow> bool" where
  "owns x fd d \<longleftrightarrow> 0 \<le> fd \<and> fd_of d x = fd"

definition fd_owned :: "int list \<Rightarrow> 'v descriptors \<Rightarrow> bool" where
  "fd_owned foreign d \<longleftrightarrow>
     distinct (open_fds d) \<and> stray_closes d = 0 \<and>
     (\<forall>x y fd. owns x fd d \<longrightarrow> owns y fd d \<longrightarrow> x = y) \<and>
     (\<forall>fd. fd \<in> set (open_fds d) \<longleftrightarrow> fd \<in> set foreign \<or> (\<exists>x. owns x fd d)) \<and>
     (\<forall>x fd. owns x fd d \<longrightarrow> fd \<notin> set foreign)"

lemma fd_owned_reset:
  assumes "fd_owned foreign d"
  shows "fd_owned foreign (fd_reset x (-1) d)"
proof -
  let ?d = "fd_reset x (-1) d" and ?fd = "fd_of d x"
  have owns: "owns y fd ?d \<longleftrightarrow> y \<noteq> x \<and> owns y fd d" for y fd
    by (auto simp: owns_def fd_reset_def fd_close_def Let_def)
  show ?thesis
  proof (cases "0 \<le> ?fd")
    case False
    then have "open_fds ?d = open_fds d" "stray_closes ?d = stray_closes d"
      by (simp_all add: fd_reset_def)
    moreover have "\<not> owns x fd d" for fd using False by (auto simp: owns_def)
    ultimately show ?thesis using assms unfolding fd_owned_def owns by metis
  next
    case True
    then have own: "owns x ?fd d" by (simp add: owns_def)
    then have "?fd \<in> set (open_fds d)" using assms unfolding fd_owned_def by blast
    with True have d: "open_fds ?d = remove1 ?fd (open_fds d)" "stray_closes ?d = stray_closes d"
      by (simp_all add: fd_reset_def fd_close_def)
    have mem: "fd \<in> set (open_fds ?d) \<longleftrightarrow> fd \<in> set (open_fds d) \<and> fd \<noteq> ?fd" for fd
      using assms by (simp add: d set_remove1_eq fd_owned_def)
    have only: "owns x fd d \<Longrightarrow> fd = ?fd" for fd by (simp add: owns_def)
    have "distinct (open_fds ?d)" using assms by (simp add: d distinct_remove1 fd_owned_def)
    moreover have "fd \<in> set (open_fds ?d) \<longleftrightarrow> fd \<in> set foreign \<or> (\<exists>y. y \<noteq> x \<and> owns y fd d)" for fd
      using assms own only unfolding mem fd_owned_def by metis
    ultimately show ?thesis using assms d(2) unfolding fd_owned_def owns by metis
  qed
qed

lemma fd_owned_release:
  assumes "fd_owned foreign d" and "\<not> fd_valid x d" and "x \<noteq> y"
  shows "fd_owned foreign (d\<lparr>fd_of := (fd_of d)(y := -1, x := fd_of d y)\<rparr>)"
proof -
  let ?d = "d\<lparr>fd_of := (fd_of d)(y := -1, x := fd_of d y)\<rparr>"
  have owns: "owns z fd ?d \<longleftrightarrow> (if z = x then owns y fd d else z \<noteq> y \<and> owns z fd d)" for z fd
    using assms(3) by (auto simp: owns_def)
  have "\<not> owns x fd d" for fd using assms(2) by (auto simp: owns_def fd_valid_def)
  then have "(\<exists>z. owns z fd ?d) \<longleftrightarrow> (\<exists>z. owns z fd d)" for fd
    unfolding owns by (metis assms(3))
  moreover have "owns z fd ?d \<Longrightarrow> owns z' fd ?d \<Longrightarrow> z = z'" for z z' fd
    using assms(1) unfolding owns fd_owned_def by (metis (full_types))
  moreover have "owns z fd ?d \<Longrightarrow> fd \<notin> set foreign" for z fd
    using assms(1) unfolding owns fd_owned_def by (metis (full_types))
  ultimately show ?thesis using assms(1) by (simp add: fd_owned_def)
qed

lemma fd_owned_pipe:
  assumes "fd_owned foreign d" and "r \<noteq> w" and "\<not> fd_valid r d" and "\<not> fd_valid w d" and "0 \<le> fd0" and "0 \<le> fd1"
    and "fd0 \<noteq> fd1" and "fd0 \<notin> set (open_fds d)" and "fd1 \<notin> set (open_fds d)"
  shows "fd_owned foreign (d\<lparr>open_fds := fd0 # fd1 # open_fds d, fd_of := (fd_of d)(r := fd0, w := fd1)\<rparr>)"
proof -
  let ?d = "d\<lparr>open_fds := fd0 # fd1 # open_fds d, fd_of := (fd_of d)(r := fd0, w := fd1)\<rparr>"
  have none: "\<not> owns r fd d" "\<not> owns w fd d" for fd using assms(3,4) by (auto simp: owns_def fd_valid_def)
  then have owns: "owns z fd ?d \<longleftrightarrow> z = r \<and> fd = fd0 \<or> z = w \<and> fd = fd1 \<or> owns z fd d" for z fd
    using assms(2,5,6) by (auto simp: owns_def)
  have fresh: "\<not> owns z fd0 d" "\<not> owns z fd1 d" "fd0 \<notin> set foreign" "fd1 \<notin> set foreign" for z
    using assms(1,8,9) unfolding fd_owned_def by blast+
  have "(\<exists>z. owns z fd ?d) \<longleftrightarrow> fd = fd0 \<or> fd = fd1 \<or> (\<exists>z. owns z fd d)" for fd
    unfolding owns by blast
  moreover have "owns z fd ?d \<Longrightarrow> owns z' fd ?d \<Longrightarrow> z = z'" for z z' fd
    using assms(1,7) fresh unfolding owns fd_owned_def by metis
  moreover have "owns z fd ?d \<Longrightarrow> fd \<notin> set foreign" for z fd
    using assms(1) fresh unfolding owns fd_owned_def by metis
  ultimately show ?thesis using assms(1,7,8,9) by (auto simp: fd_owned_def)
qed

lemma fd_owned_step:
  assumes "fd_owned foreign d" and "fd_allowed op d"
  shows "fd_owned foreign (fd_step op d)"
proof (cases op)
  case (Create_pipe r w answer)
  with assms show ?thesis
    by (auto simp: pipe_create_def split: sum.splits intro!: fd_owned_pipe)
next
  case (Assign x other)
  show ?thesis
  proof (cases "x = other")
    case False
    let ?d = "fd_reset x (-1) d"
    have "fd_of ?d x = -1" by (simp add: fd_reset_def Let_def)
    then have "\<not> fd_valid x ?d" by (simp add: fd_valid_def)
    from fd_owned_release [OF fd_owned_reset [OF assms(1)] this, of other] False Assign show ?thesis
      by (simp add: fd_assign_def fd_release_def Let_def)
  qed (use Assign assms in \<open>simp add: fd_assign_def\<close>)
next
  case (Move x other)
  then show ?thesis using assms fd_owned_release [of foreign d x other]
    by (simp add: fd_move_def fd_release_def)
qed (use assms in \<open>simp_all add: fd_destroy_def fd_owned_reset\<close>)

lemma fd_owned_run: "fd_owned foreign d \<Longrightarrow> fd_run ops d = Some d' \<Longrightarrow> fd_owned foreign d'"
  by (induction ops arbitrary: d) (auto split: if_splits intro: fd_owned_step)

section \<open>The child process\<close>

datatype wait_answer = Reaped int | Still_running | Interrupted | Wait_error string

datatype child_call = Kill int | Waitpid int wait_answer

record child =
  c_pid :: int
  c_status :: int
  c_waited :: bool

definition new_child :: "int \<Rightarrow> child" where
  "new_child pid = \<lparr>c_pid = pid, c_status = 0, c_waited = False\<rparr>"

text \<open>
  The loops of \<^verbatim>\<open>try_wait\<close> and \<^verbatim>\<open>kill_and_wait\<close> consume the system's answers; \<open>None\<close> when the list
  ends inside a loop. The second component of the result is the log of calls.
\<close>

fun try_wait_loop :: "wait_answer list \<Rightarrow> child \<Rightarrow> ((string, bool) result \<times> child_call list \<times> child) option" where
  "try_wait_loop [] c = None"
| "try_wait_loop (Reaped status # answers) c =
     Some (Inr True, [Waitpid (c_pid c) (Reaped status)], c\<lparr>c_status := status, c_waited := True\<rparr>)"
| "try_wait_loop (Still_running # answers) c = Some (Inr False, [Waitpid (c_pid c) Still_running], c)"
| "try_wait_loop (Interrupted # answers) c =
     map_option (\<lambda>(r, calls, c'). (r, Waitpid (c_pid c) Interrupted # calls, c')) (try_wait_loop answers c)"
| "try_wait_loop (Wait_error e # answers) c =
     Some (Inl (''Failed while waiting on tool process: '' @ e), [Waitpid (c_pid c) (Wait_error e)], c)"

definition child_try_wait :: "wait_answer list \<Rightarrow> child \<Rightarrow> ((string, bool) result \<times> child_call list \<times> child) option" where
  "child_try_wait answers c = (if c_waited c then Some (Inr True, [], c) else try_wait_loop answers c)"

text \<open>A blocking \<^verbatim>\<open>waitpid\<close> does not answer \<open>Still_running\<close>; like an error, it would end the loop.\<close>

fun kill_wait_loop :: "wait_answer list \<Rightarrow> child \<Rightarrow> (child_call list \<times> child) option" where
  "kill_wait_loop [] c = None"
| "kill_wait_loop (Interrupted # answers) c =
     map_option (\<lambda>(calls, c'). (Waitpid (c_pid c) Interrupted # calls, c')) (kill_wait_loop answers c)"
| "kill_wait_loop (Reaped status # answers) c =
     Some ([Waitpid (c_pid c) (Reaped status)], c\<lparr>c_status := status, c_waited := True\<rparr>)"
| "kill_wait_loop (answer # answers) c = Some ([Waitpid (c_pid c) answer], c\<lparr>c_waited := True\<rparr>)"

definition kill_and_wait :: "wait_answer list \<Rightarrow> child \<Rightarrow> (child_call list \<times> child) option" where
  "kill_and_wait answers c =
     (if c_waited c \<or> c_pid c < 0 then Some ([], c)
      else map_option (\<lambda>(calls, c'). (Kill (c_pid c) # calls, c')) (kill_wait_loop answers c))"

text \<open>The move constructor: the new wrapper and what is left of the old one.\<close>

definition child_move :: "child \<Rightarrow> child \<times> child" where
  "child_move other = (other, other\<lparr>c_pid := -1, c_waited := True\<rparr>)"

text \<open>
  A life of a child: calls of \<^verbatim>\<open>try_wait\<close> and \<^verbatim>\<open>kill_and_wait\<close> and moves (the moved-from wrapper is
  destroyed at once), then the destructor.
\<close>

datatype child_op = Try_wait "wait_answer list" | Kill_and_wait "wait_answer list" | Move_child

fun child_step :: "child_op \<Rightarrow> child \<Rightarrow> (child_call list \<times> child) option" where
  "child_step (Try_wait answers) c = map_option snd (child_try_wait answers c)"
| "child_step (Kill_and_wait answers) c = kill_and_wait answers c"
| "child_step Move_child c =
     (case child_move c of (c', left) \<Rightarrow> map_option (\<lambda>(calls, _). (calls, c')) (kill_and_wait [] left))"

fun child_life :: "child_op list \<Rightarrow> wait_answer list \<Rightarrow> child \<Rightarrow> (child_call list \<times> child) option" where
  "child_life [] answers c = kill_and_wait answers c"
| "child_life (op # ops) answers c =
     (case child_step op c of
        None \<Rightarrow> None
      | Some (calls, c') \<Rightarrow> map_option (\<lambda>(more, c''). (calls @ more, c'')) (child_life ops answers c'))"

fun call_pid :: "child_call \<Rightarrow> int" where
  "call_pid (Kill pid) = pid"
| "call_pid (Waitpid pid answer) = pid"

fun reaping :: "child_call \<Rightarrow> bool" where
  "reaping (Waitpid pid (Reaped status)) = True"
| "reaping _ = False"

text \<open>The calls of one operation: at most the last of them reaps, and then the wrapper knows.\<close>

definition orderly :: "int \<Rightarrow> child_call list \<Rightarrow> child \<Rightarrow> child \<Rightarrow> bool" where
  "orderly pid calls c c' \<longleftrightarrow>
     (c_waited c \<longrightarrow> calls = [] \<and> c_waited c') \<and>
     list_all (\<lambda>call. \<not> reaping call) (butlast calls) \<and>
     (calls \<noteq> [] \<and> reaping (last calls) \<longrightarrow> c_waited c') \<and>
     list_all (\<lambda>call. call_pid call = pid) calls \<and>
     c_pid c' = c_pid c"

lemma orderly_try_wait_loop:
  "try_wait_loop answers c = Some (r, calls, c') \<Longrightarrow> \<not> c_waited c \<Longrightarrow> orderly (c_pid c) calls c c' \<and> calls \<noteq> []"
  by (induction answers c arbitrary: r calls c' rule: try_wait_loop.induct) (auto simp: orderly_def)

lemma orderly_kill_wait_loop:
  "kill_wait_loop answers c = Some (calls, c') \<Longrightarrow> \<not> c_waited c \<Longrightarrow>
   orderly (c_pid c) calls c c' \<and> calls \<noteq> [] \<and> c_waited c'"
  by (induction answers c arbitrary: calls c' rule: kill_wait_loop.induct) (auto simp: orderly_def)

lemma orderly_kill_and_wait:
  assumes "kill_and_wait answers c = Some (calls, c')"
  shows "orderly (c_pid c) calls c c'" and "0 \<le> c_pid c \<Longrightarrow> c_waited c'"
proof -
  have "orderly (c_pid c) calls c c' \<and> (0 \<le> c_pid c \<longrightarrow> c_waited c')"
  proof (cases "c_waited c \<or> c_pid c < 0")
    case True
    with assms show ?thesis by (auto simp: kill_and_wait_def orderly_def)
  next
    case False
    then obtain calls' where loop: "kill_wait_loop answers c = Some (calls', c')" and calls: "calls = Kill (c_pid c) # calls'"
      using assms by (auto simp: kill_and_wait_def)
    from orderly_kill_wait_loop [OF loop] False show ?thesis unfolding calls by (auto simp: orderly_def)
  qed
  then show "orderly (c_pid c) calls c c'" and "0 \<le> c_pid c \<Longrightarrow> c_waited c'" by auto
qed

lemma orderly_step:
  assumes "child_step op c = Some (calls, c')"
  shows "orderly (c_pid c) calls c c'"
proof (cases op)
  case (Try_wait answers)
  then show ?thesis
    using assms orderly_try_wait_loop [of answers c]
    by (auto simp: child_try_wait_def split: if_splits) (simp add: orderly_def)
next
  case (Kill_and_wait answers)
  with assms show ?thesis by (simp add: orderly_kill_and_wait)
next
  case Move_child
  with assms show ?thesis by (auto simp: child_move_def kill_and_wait_def orderly_def)
qed

lemma child_life_waited: "child_life ops answers c = Some (calls, c') \<Longrightarrow> c_waited c \<Longrightarrow> calls = []"
proof (induction ops arbitrary: c calls)
  case Nil
  then show ?case by (simp add: kill_and_wait_def)
next
  case (Cons op ops)
  then obtain first c1 more where step: "child_step op c = Some (first, c1)"
    and rest: "child_life ops answers c1 = Some (more, c')" and calls: "calls = first @ more"
    by (auto split: option.splits)
  from orderly_step [OF step] Cons.prems(2) have "first = []" "c_waited c1" by (auto simp: orderly_def)
  with Cons.IH [OF rest] calls show ?case by simp
qed

section \<open>Properties\<close>

text \<open>
  Descriptors are neither leaked nor closed twice. Start with descriptors of others open and no
  wrapper holding one; after any operations on the wrappers, pipes created, wrappers reset, moved,
  assigned and destroyed in any order, no descriptor was closed that was not open, the open ones are
  those of the others and exactly one for each wrapper that holds one; so once every wrapper is
  empty only the others' are left.
\<close>

theorem descriptors_closed_exactly_once:
  assumes "distinct foreign" and "fd_run ops \<lparr>open_fds = foreign, stray_closes = 0, fd_of = (\<lambda>_. -1)\<rparr> = Some d"
  shows "stray_closes d = 0
    \<and> (fd \<in> set (open_fds d) \<longleftrightarrow> fd \<in> set foreign \<or> (\<exists>x. owns x fd d))
    \<and> (owns x fd d \<longrightarrow> fd \<notin> set foreign \<and> (owns y fd d \<longrightarrow> y = x))
    \<and> ((\<forall>x. \<not> fd_valid x d) \<longrightarrow> set (open_fds d) = set foreign)"
proof -
  have "fd_owned foreign \<lparr>open_fds = foreign, stray_closes = 0, fd_of = (\<lambda>_. -1)\<rparr>"
    using assms(1) by (auto simp: fd_owned_def owns_def)
  from fd_owned_run [OF this assms(2)] have owned: "fd_owned foreign d" .
  moreover have "owns x fd d \<Longrightarrow> fd_valid x d" for x fd by (simp add: owns_def fd_valid_def)
  ultimately have "(\<forall>x. \<not> fd_valid x d) \<longrightarrow> set (open_fds d) = set foreign"
    unfolding fd_owned_def by blast
  with owned show ?thesis unfolding fd_owned_def by blast
qed

theorem descriptors_closed_exactly_once_witness:
  "\<exists>d. fd_run [Create_pipe (1::nat) 2 (Inr (5, 6)), Move 3 1, Reset 2, Create_pipe 1 2 (Inr (6, 7)), Assign 3 2,
        Destroy 1, Destroy 2, Destroy 3]
      \<lparr>open_fds = [0, 1, 2], stray_closes = 0, fd_of = (\<lambda>_. -1)\<rparr> = Some d
    \<and> set (open_fds d) = {0, 1, 2} \<and> stray_closes d = 0"
proof -
  let ?ops = "[Create_pipe (1::nat) 2 (Inr (5, 6)), Move 3 1, Reset 2, Create_pipe 1 2 (Inr (6, 7)), Assign 3 2,
        Destroy 1, Destroy 2, Destroy 3]"
  obtain d where d: "fd_run ?ops \<lparr>open_fds = [0, 1, 2], stray_closes = 0, fd_of = (\<lambda>_. -1)\<rparr> = Some d"
      "set (open_fds d) = {0, 1, 2}"
    by (auto simp: pipe_create_def fd_move_def fd_release_def fd_reset_def fd_close_def fd_assign_def
        fd_destroy_def fd_valid_def Let_def)
  from descriptors_closed_exactly_once [OF _ d(1)] d show ?thesis by auto
qed

text \<open>
  The child is reaped once and not touched afterwards. In every life of a child, whatever
  \<^verbatim>\<open>waitpid\<close> answers, no call follows the one that reaped it, neither a \<^verbatim>\<open>kill\<close>, which could hit a
  process that has got the same id since, nor a \<^verbatim>\<open>waitpid\<close>; all calls name the child's id; and the
  destructor leaves a wrapper that needs no more waiting.
\<close>

theorem child_reaped_exactly_once:
  assumes "child_life ops answers (new_child pid) = Some (calls, c)" and "0 \<le> pid"
  shows "list_all (\<lambda>call. \<not> reaping call) (butlast calls)
    \<and> list_all (\<lambda>call. call_pid call = pid) calls
    \<and> c_waited c"
proof -
  have "child_life ops answers c0 = Some (calls, c) \<Longrightarrow> c_pid c0 = pid \<Longrightarrow>
      list_all (\<lambda>call. \<not> reaping call) (butlast calls)
      \<and> list_all (\<lambda>call. call_pid call = pid) calls
      \<and> c_waited c" for c0
  proof (induction ops arbitrary: c0 calls)
    case Nil
    with orderly_kill_and_wait [of answers c0 calls c] assms(2) show ?case by (auto simp: orderly_def)
  next
    case (Cons op ops)
    then obtain first c1 more where step: "child_step op c0 = Some (first, c1)"
      and rest: "child_life ops answers c1 = Some (more, c)" and calls: "calls = first @ more"
      by (auto split: option.splits)
    note o = orderly_step [OF step]
    then have "c_pid c1 = pid" using Cons.prems(2) by (simp add: orderly_def)
    note ih = Cons.IH [OF rest this]
    show ?case
    proof (cases "more = []")
      case True
      with o ih Cons.prems(2) show ?thesis by (simp add: calls orderly_def)
    next
      case False
      then have "\<not> c_waited c1" using child_life_waited [OF rest] by auto
      with o have "list_all (\<lambda>call. \<not> reaping call) first"
        by (cases first rule: rev_cases) (auto simp: orderly_def)
      with o ih Cons.prems(2) False show ?thesis
        by (auto simp: calls orderly_def butlast_append)
    qed
  qed
  from this [OF assms(1)] show ?thesis by (simp add: new_child_def)
qed

theorem child_reaped_exactly_once_witness:
  "child_life [Try_wait [Interrupted, Still_running], Move_child, Kill_and_wait [Interrupted, Reaped 9]] [] (new_child 42)
     = Some ([Waitpid 42 Interrupted, Waitpid 42 Still_running, Kill 42, Waitpid 42 Interrupted, Waitpid 42 (Reaped 9)],
         \<lparr>c_pid = 42, c_status = 9, c_waited = True\<rparr>)
   \<and> list_all (\<lambda>call. \<not> reaping call)
       [Waitpid 42 Interrupted, Waitpid 42 Still_running, Kill 42, Waitpid 42 Interrupted]"
proof -
  have "child_life [Try_wait [Interrupted, Still_running], Move_child, Kill_and_wait [Interrupted, Reaped 9]] [] (new_child 42)
     = Some ([Waitpid 42 Interrupted, Waitpid 42 Still_running, Kill 42, Waitpid 42 Interrupted, Waitpid 42 (Reaped 9)],
         \<lparr>c_pid = 42, c_status = 9, c_waited = True\<rparr>)"
    by (simp add: new_child_def child_try_wait_def kill_and_wait_def child_move_def)
  with child_reaped_exactly_once [OF this] show ?thesis by simp
qed

end
