(* ===== verification/Tool_Scope.thy ===== *)
theory Tool_Scope
  imports Tool_Runs Tool_Resources
begin

text \<open>
  \<^verbatim>\<open>run_prepared_command_tool\<close> of \<^verbatim>\<open>command_tools.cpp\<close> with its local variables: the three pipes, the
  two wrappers of spawn objects, and the wrapper of the child. \<open>Command_Tools\<close> gives what a run
  answers; here every acquisition happens at its place, and whatever way the function is left, the
  destructors of the variables run (\<open>leave_scope\<close>), in the reverse order of their construction.
  Descriptors and the child are those of \<open>Tool_Resources\<close>.
\<close>

section \<open>Wrappers of spawn objects\<close>

text \<open>
  \<^verbatim>\<open>ScopedSpawnFileActions\<close> and \<^verbatim>\<open>ScopedSpawnAttr\<close>: the flag, and how often the system's object was
  initialised and destroyed. A failed initialisation leaves nothing to destroy.
\<close>

record spawn_object =
  so_initialized :: bool
  so_inits :: nat
  so_destroys :: nat

definition new_spawn_object :: spawn_object where
  "new_spawn_object = \<lparr>so_initialized = False, so_inits = 0, so_destroys = 0\<rparr>"

definition file_actions_init :: "string option \<Rightarrow> spawn_object \<Rightarrow> string option \<times> spawn_object" where
  "file_actions_init err x =
     (err, if err = None then x\<lparr>so_initialized := True, so_inits := so_inits x + 1\<rparr> else x)"

definition file_actions_destroy :: "spawn_object \<Rightarrow> spawn_object" where
  "file_actions_destroy x = (if so_initialized x then x\<lparr>so_destroys := so_destroys x + 1\<rparr> else x)"

definition spawn_attr_init :: "string option \<Rightarrow> spawn_object \<Rightarrow> string option \<times> spawn_object" where
  "spawn_attr_init err x =
     (err, if err = None then x\<lparr>so_initialized := True, so_inits := so_inits x + 1\<rparr> else x)"

definition spawn_attr_destroy :: "spawn_object \<Rightarrow> spawn_object" where
  "spawn_attr_destroy x = (if so_initialized x then x\<lparr>so_destroys := so_destroys x + 1\<rparr> else x)"

section \<open>The function's variables\<close>

datatype pipe_end = Stdin_read | Stdin_write | Stdout_read | Stdout_write | Stderr_read | Stderr_write

record run_scope =
  sc_fds :: "pipe_end descriptors"
  sc_actions :: spawn_object
  sc_attr :: spawn_object
  sc_child :: "child option"
  sc_calls :: "child_call list"

text \<open>The system's answers besides the errors: the descriptors of each pipe and the child's id.\<close>

record scope_calls = setup_calls +
  su_fds :: "string \<Rightarrow> int \<times> int"
  su_pid :: int

definition enter_scope :: "int list \<Rightarrow> run_scope" where
  "enter_scope foreign =
     \<lparr>sc_fds = \<lparr>open_fds = foreign, stray_closes = 0, fd_of = (\<lambda>_. -1)\<rparr>,
      sc_actions = new_spawn_object, sc_attr = new_spawn_object, sc_child = None, sc_calls = []\<rparr>"

text \<open>A sequence of statements, each of which may return from the function with an error.\<close>

fun in_scope :: "('s \<Rightarrow> (string, unit) result \<times> 's) list \<Rightarrow> 's \<Rightarrow> (string, unit) result \<times> 's" where
  "in_scope [] s = (Inr (), s)"
| "in_scope (f # fs) s = (case f s of (Inl e, s') \<Rightarrow> (Inl e, s') | (Inr _, s') \<Rightarrow> in_scope fs s')"

definition scope_pipe :: "scope_calls \<Rightarrow> string \<Rightarrow> pipe_end \<Rightarrow> pipe_end \<Rightarrow> run_scope \<Rightarrow> (string, unit) result \<times> run_scope" where
  "scope_pipe su name r w sc =
     (case pipe_create r w (case su_pipe_error su name of Some e \<Rightarrow> Inl e | None \<Rightarrow> Inr (su_fds su name)) (sc_fds sc) of
        (result, d) \<Rightarrow> (result, sc\<lparr>sc_fds := d\<rparr>))"

definition failed_call :: "string \<Rightarrow> string option \<Rightarrow> (string, unit) result" where
  "failed_call label err = (case err of None \<Rightarrow> Inr () | Some e \<Rightarrow> Inl (label @ '': '' @ e))"

definition scope_actions :: "scope_calls \<Rightarrow> run_scope \<Rightarrow> (string, unit) result \<times> run_scope" where
  "scope_actions su sc =
     (let label = ''Failed to initialize spawn file actions'' in
      case file_actions_init (su_call_error su label) (sc_actions sc) of
        (err, x) \<Rightarrow> (failed_call label err, sc\<lparr>sc_actions := x\<rparr>))"

definition scope_attr :: "scope_calls \<Rightarrow> run_scope \<Rightarrow> (string, unit) result \<times> run_scope" where
  "scope_attr su sc =
     (let label = ''Failed to initialize spawn attributes'' in
      case spawn_attr_init (su_call_error su label) (sc_attr sc) of
        (err, x) \<Rightarrow> (failed_call label err, sc\<lparr>sc_attr := x\<rparr>))"

definition scope_call :: "scope_calls \<Rightarrow> string \<Rightarrow> run_scope \<Rightarrow> (string, unit) result \<times> run_scope" where
  "scope_call su label sc = (failed_call label (su_call_error su label), sc)"

text \<open>The spawn: on success the child gets its wrapper, and the child's ends of the pipes are closed.\<close>

definition scope_spawn :: "scope_calls \<Rightarrow> run_scope \<Rightarrow> (string, unit) result \<times> run_scope" where
  "scope_spawn su sc =
     (let label = ''Failed to spawn tool process'' in
      case su_call_error su label of
        Some e \<Rightarrow> (Inl (label @ '': '' @ e), sc)
      | None \<Rightarrow>
          (Inr (), sc\<lparr>sc_child := Some (new_child (su_pid su)),
             sc_fds := fd_reset Stderr_write (-1) (fd_reset Stdout_write (-1) (fd_reset Stdin_read (-1) (sc_fds sc)))\<rparr>))"

definition scope_non_blocking :: "scope_calls \<Rightarrow> string \<Rightarrow> run_scope \<Rightarrow> (string, unit) result \<times> run_scope" where
  "scope_non_blocking su label sc = (set_non_blocking (setup_calls.truncate su) label, sc)"

definition wiring_labels :: "prepared_tool \<Rightarrow> string list" where
  "wiring_labels prepared =
     [''Failed to wire tool stdin'', ''Failed to wire tool stdout'', ''Failed to wire tool stderr'',
      ''Failed to close child stdin write end'', ''Failed to close child stdout read end'',
      ''Failed to close child stderr read end''] @
     (case tool_working_directory (pt_config prepared) of
        Some d \<Rightarrow> [''Failed to configure child working directory''] | None \<Rightarrow> [])"

definition scope_set_up :: "prepared_tool \<Rightarrow> scope_calls \<Rightarrow> run_scope \<Rightarrow> (string, unit) result \<times> run_scope" where
  "scope_set_up prepared su =
     in_scope
       ([scope_pipe su ''stdin'' Stdin_read Stdin_write, scope_pipe su ''stdout'' Stdout_read Stdout_write,
         scope_pipe su ''stderr'' Stderr_read Stderr_write, scope_actions su, scope_attr su] @
        map (scope_call su) (wiring_labels prepared) @
        [scope_spawn su] @
        map (scope_non_blocking su) [''tool stdin'', ''tool stdout'', ''tool stderr''])"

section \<open>The loop\<close>

text \<open>One turn with the answers of \<^verbatim>\<open>waitpid\<close> in it: to \<^verbatim>\<open>try_wait\<close>, and to a \<^verbatim>\<open>kill_and_wait\<close> if there is one.\<close>

record scope_turn =
  x_turn :: turn
  x_wait :: "wait_answer list"
  x_kill :: "wait_answer list"

text \<open>The parent's ends that a turn closes.\<close>

definition reset_closed :: "run_state \<Rightarrow> run_state \<Rightarrow> pipe_end descriptors \<Rightarrow> pipe_end descriptors" where
  "reset_closed st st' d =
     (let d = (if r_stdin_open st \<and> \<not> r_stdin_open st' then fd_reset Stdin_write (-1) d else d);
          d = (if r_stdout_open st \<and> \<not> r_stdout_open st' then fd_reset Stdout_read (-1) d else d)
      in if r_stderr_open st \<and> \<not> r_stderr_open st' then fd_reset Stderr_read (-1) d else d)"

fun after_step :: "loop_step \<Rightarrow> run_state \<Rightarrow> run_state" where
  "after_step (Continue st') st = st'"
| "after_step (Leave st') st = st'"
| "after_step (Fail e) st = st"

text \<open>
  \<open>None\<close> as in \<open>run_loop\<close>, when a script ends inside a turn. A failing \<^verbatim>\<open>try_wait\<close> kills the child
  before the error is returned; the deadline kills it too, and the turn goes on.
\<close>

definition scope_loop_turn ::
  "(int \<Rightarrow> exit_status) \<Rightarrow> nat \<Rightarrow> scope_turn \<Rightarrow> run_state \<Rightarrow> run_scope \<Rightarrow> (loop_step \<times> run_scope) option" where
  "scope_loop_turn decode payload_size x st sc =
     (case sc_child sc of
        None \<Rightarrow> None
      | Some c \<Rightarrow>
          (case child_try_wait (x_wait x) c of
             None \<Rightarrow> None
           | Some (Inl e, calls, c) \<Rightarrow>
               map_option (\<lambda>(calls', c). (Fail e, sc\<lparr>sc_child := Some c, sc_calls := sc_calls sc @ calls @ calls'\<rparr>))
                 (kill_and_wait (x_kill x) c)
           | Some (Inr exited, calls, c) \<Rightarrow>
               (case (if \<not> c_waited c \<and> t_expired (x_turn x) then kill_and_wait (x_kill x) c else Some ([], c)) of
                  None \<Rightarrow> None
                | Some (calls', c') \<Rightarrow>
                    let turn = (x_turn x)\<lparr>t_wait := Inr (if exited then Some (decode (c_status c)) else None),
                          t_kill_status := decode (c_status c')\<rparr>
                    in map_option (\<lambda>step. (step, sc\<lparr>sc_child := Some c', sc_calls := sc_calls sc @ calls @ calls',
                           sc_fds := reset_closed st (after_step step st) (sc_fds sc)\<rparr>))
                         (loop_turn payload_size turn st))))"

fun scope_loop ::
  "(int \<Rightarrow> exit_status) \<Rightarrow> nat \<Rightarrow> scope_turn list \<Rightarrow> run_state \<Rightarrow> run_scope \<Rightarrow>
     ((string, run_state) result \<times> run_scope) option" where
  "scope_loop decode payload_size [] st sc = None"
| "scope_loop decode payload_size (x # xs) st sc =
     (case scope_loop_turn decode payload_size x st sc of
        None \<Rightarrow> None
      | Some (Fail e, sc') \<Rightarrow> Some (Inl e, sc')
      | Some (Leave st', sc') \<Rightarrow> Some (Inr st', sc')
      | Some (Continue st', sc') \<Rightarrow> scope_loop decode payload_size xs st' sc')"

section \<open>Leaving\<close>

text \<open>The destructors: the child, the spawn objects, then each pipe's write end and read end.\<close>

definition leave_scope :: "wait_answer list \<Rightarrow> run_scope \<Rightarrow> run_scope option" where
  "leave_scope kill sc =
     (case (case sc_child sc of None \<Rightarrow> Some ([], None)
            | Some c \<Rightarrow> map_option (\<lambda>(calls, c). (calls, Some c)) (kill_and_wait kill c)) of
        None \<Rightarrow> None
      | Some (calls, child) \<Rightarrow>
          Some (sc\<lparr>sc_child := child, sc_calls := sc_calls sc @ calls,
                   sc_attr := spawn_attr_destroy (sc_attr sc), sc_actions := file_actions_destroy (sc_actions sc),
                   sc_fds := fold fd_destroy [Stderr_write, Stderr_read, Stdout_write, Stdout_read, Stdin_write, Stdin_read]
                     (sc_fds sc)\<rparr>))"

definition run_in_scope ::
  "json_api \<Rightarrow> (int \<Rightarrow> exit_status) \<Rightarrow> prepared_tool \<Rightarrow> json \<Rightarrow> scope_calls \<Rightarrow> scope_turn list \<Rightarrow> wait_answer list \<Rightarrow>
     int list \<Rightarrow> ((run_error, json) result \<times> run_scope) option" where
  "run_in_scope api decode prepared arguments su xs kill foreign =
     (case scope_set_up prepared su (enter_scope foreign) of
        (Inl e, sc) \<Rightarrow> map_option (Pair (Inl (make_runtime_error e))) (leave_scope kill sc)
      | (Inr _, sc) \<Rightarrow>
          (case scope_loop decode (length (json_dump api arguments @ [newline])) xs run_start sc of
             None \<Rightarrow> None
           | Some (Inl e, sc) \<Rightarrow> map_option (Pair (Inl (make_runtime_error e))) (leave_scope kill sc)
           | Some (Inr st, sc) \<Rightarrow>
               map_option (Pair (judge_output api (tool_timeout_ms (pt_config prepared)) st)) (leave_scope kill sc)))"


section \<open>Scopes in order\<close>

definition spawn_ok :: "spawn_object \<Rightarrow> bool" where
  "spawn_ok x \<longleftrightarrow> so_destroys x = 0 \<and> so_inits x = (if so_initialized x then 1 else 0)"

text \<open>The calls made so far for a child: at most the last of them reaped it, and then the wrapper knows.\<close>

definition calls_ok :: "int \<Rightarrow> child_call list \<Rightarrow> child \<Rightarrow> bool" where
  "calls_ok pid calls c \<longleftrightarrow> c_pid c = pid \<and>
     list_all (\<lambda>call. \<not> reaping call) (butlast calls) \<and> list_all (\<lambda>call. call_pid call = pid) calls \<and>
     (calls \<noteq> [] \<and> reaping (last calls) \<longrightarrow> c_waited c)"

definition scope_ok :: "int list \<Rightarrow> int \<Rightarrow> run_scope \<Rightarrow> bool" where
  "scope_ok foreign pid sc \<longleftrightarrow> fd_owned foreign (sc_fds sc) \<and> spawn_ok (sc_actions sc) \<and> spawn_ok (sc_attr sc) \<and>
     (case sc_child sc of None \<Rightarrow> sc_calls sc = [] | Some c \<Rightarrow> calls_ok pid (sc_calls sc) c)"

lemma calls_ok_append:
  assumes "calls_ok pid calls c" and "orderly pid calls' c c'"
  shows "calls_ok pid (calls @ calls') c'"
proof (cases "calls' = []")
  case True
  then show ?thesis using assms by (auto simp: calls_ok_def orderly_def)
next
  case False
  then have "\<not> c_waited c" using assms(2) by (auto simp: orderly_def)
  then have "list_all (\<lambda>call. \<not> reaping call) calls"
    using assms(1) by (cases calls rule: rev_cases) (auto simp: calls_ok_def)
  with False assms show ?thesis by (auto simp: calls_ok_def orderly_def butlast_append)
qed

lemma orderly_try_wait: "child_try_wait answers c = Some (r, calls, c') \<Longrightarrow> orderly (c_pid c) calls c c'"
  using orderly_step [of "Try_wait answers" c calls c'] by simp

lemma scope_kill:
  assumes "scope_ok foreign pid sc" and "sc_child sc = Some c" and "0 \<le> pid"
    and "kill_and_wait kill c = Some (calls, c')"
  shows "calls_ok pid (sc_calls sc @ calls) c' \<and> c_waited c'"
proof -
  from assms(1,2) have ok: "calls_ok pid (sc_calls sc) c" by (simp add: scope_ok_def)
  then have "c_pid c = pid" by (simp add: calls_ok_def)
  with calls_ok_append [OF ok] orderly_kill_and_wait [OF assms(4)] assms(3) show ?thesis by simp
qed

text \<open>The pipes come first: six descriptors, none of which is open yet.\<close>

definition fresh_pipes :: "scope_calls \<Rightarrow> int list \<Rightarrow> bool" where
  "fresh_pipes su foreign \<longleftrightarrow>
     (let fds = concat (map (\<lambda>name. [fst (su_fds su name), snd (su_fds su name)]) [''stdin'', ''stdout'', ''stderr''])
      in distinct (fds @ foreign) \<and> list_all (\<lambda>fd. 0 \<le> fd) fds)"

lemma in_scope_append:
  "in_scope (fs @ gs) s =
     (case in_scope fs s of (Inl e, s') \<Rightarrow> (Inl e, s') | (Inr _, s') \<Rightarrow> in_scope gs s')"
  by (induction fs arbitrary: s) (auto split: prod.splits sum.splits)

lemma in_scope_inv: "(\<And>f s. f \<in> set fs \<Longrightarrow> P s \<Longrightarrow> P (snd (f s))) \<Longrightarrow> P s \<Longrightarrow> P (snd (in_scope fs s))"
proof (induction fs arbitrary: s)
  case (Cons f fs)
  have "P (snd (f s))" using Cons.prems by simp
  with Cons.IH Cons.prems(1) show ?case by (auto split: prod.splits sum.splits)
qed simp

definition pipes :: "scope_calls \<Rightarrow> (run_scope \<Rightarrow> (string, unit) result \<times> run_scope) list" where
  "pipes su = [scope_pipe su ''stdin'' Stdin_read Stdin_write, scope_pipe su ''stdout'' Stdout_read Stdout_write,
     scope_pipe su ''stderr'' Stderr_read Stderr_write]"

lemma pipes_ok:
  assumes "fresh_pipes su foreign"
  shows "scope_ok foreign pid (snd (in_scope (pipes su) (enter_scope foreign)))
    \<and> sc_child (snd (in_scope (pipes su) (enter_scope foreign))) = None
    \<and> sc_actions (snd (in_scope (pipes su) (enter_scope foreign))) = new_spawn_object
    \<and> sc_attr (snd (in_scope (pipes su) (enter_scope foreign))) = new_spawn_object"
proof -
  obtain a b where 1: "su_fds su ''stdin'' = (a, b)" by fastforce
  obtain c d where 2: "su_fds su ''stdout'' = (c, d)" by fastforce
  obtain e f where 3: "su_fds su ''stderr'' = (e, f)" by fastforce
  have fds: "distinct foreign" "distinct [a, b, c, d, e, f]" "{a, b, c, d, e, f} \<inter> set foreign = {}"
      "0 \<le> a" "0 \<le> b" "0 \<le> c" "0 \<le> d" "0 \<le> e" "0 \<le> f"
    using assms by (simp_all add: fresh_pipes_def 1 2 3)
  let ?d0 = "sc_fds (enter_scope foreign)"
  let ?d1 = "?d0\<lparr>open_fds := a # b # open_fds ?d0, fd_of := (fd_of ?d0)(Stdin_read := a, Stdin_write := b)\<rparr>"
  let ?d2 = "?d1\<lparr>open_fds := c # d # open_fds ?d1, fd_of := (fd_of ?d1)(Stdout_read := c, Stdout_write := d)\<rparr>"
  let ?d3 = "?d2\<lparr>open_fds := e # f # open_fds ?d2, fd_of := (fd_of ?d2)(Stderr_read := e, Stderr_write := f)\<rparr>"
  have o0: "fd_owned foreign ?d0" using fds(1) by (auto simp: enter_scope_def fd_owned_def owns_def)
  have o1: "fd_owned foreign ?d1"
    by (rule fd_owned_pipe [OF o0]) (use fds in \<open>auto simp: enter_scope_def fd_valid_def\<close>)
  have o2: "fd_owned foreign ?d2"
    by (rule fd_owned_pipe [OF o1]) (use fds in \<open>auto simp: enter_scope_def fd_valid_def\<close>)
  have o3: "fd_owned foreign ?d3"
    by (rule fd_owned_pipe [OF o2]) (use fds in \<open>auto simp: enter_scope_def fd_valid_def\<close>)
  have "snd (in_scope (pipes su) (enter_scope foreign)) \<in>
      (\<lambda>d. (enter_scope foreign)\<lparr>sc_fds := d\<rparr>) ` {?d0, ?d1, ?d2, ?d3}"
    by (cases "su_pipe_error su ''stdin''"; cases "su_pipe_error su ''stdout''"; cases "su_pipe_error su ''stderr''")
      (simp_all add: pipes_def scope_pipe_def pipe_create_def 1 2 3)
  with o0 o1 o2 o3 show ?thesis
    by (auto simp: scope_ok_def enter_scope_def new_spawn_object_def spawn_ok_def)
qed

definition later_calls :: "prepared_tool \<Rightarrow> scope_calls \<Rightarrow> (run_scope \<Rightarrow> (string, unit) result \<times> run_scope) list" where
  "later_calls prepared su = [scope_actions su, scope_attr su] @ map (scope_call su) (wiring_labels prepared)"

lemma in_scope_plain: "snd (in_scope (map (scope_call su) labels) sc) = sc"
  "snd (in_scope (map (scope_non_blocking su) labels) sc) = sc"
  by (rule in_scope_inv; auto simp: scope_call_def scope_non_blocking_def)+

lemma in_scope_split:
  "snd (in_scope (fs @ gs) s) = (case fst (in_scope fs s) of Inl e \<Rightarrow> snd (in_scope fs s)
     | Inr _ \<Rightarrow> snd (in_scope gs (snd (in_scope fs s))))"
  "fst (in_scope (fs @ gs) s) = (case fst (in_scope fs s) of Inl e \<Rightarrow> Inl e
     | Inr _ \<Rightarrow> fst (in_scope gs (snd (in_scope fs s))))"
  by (auto simp: in_scope_append split: prod.splits sum.splits)

lemma later_calls_ok:
  assumes "scope_ok foreign pid sc" and "sc_child sc = None" and "sc_actions sc = new_spawn_object"
    and "sc_attr sc = new_spawn_object"
  shows "scope_ok foreign pid (snd (in_scope (later_calls prepared su) sc))
    \<and> sc_child (snd (in_scope (later_calls prepared su) sc)) = None"
proof -
  have "snd (in_scope (later_calls prepared su) sc) = snd (in_scope [scope_actions su, scope_attr su] sc)"
    unfolding later_calls_def in_scope_split in_scope_plain by (simp split: sum.split)
  moreover have "snd (in_scope [scope_actions su, scope_attr su] sc) \<in> {sc,
      sc\<lparr>sc_actions := snd (file_actions_init None (sc_actions sc))\<rparr>,
      sc\<lparr>sc_actions := snd (file_actions_init None (sc_actions sc)), sc_attr := snd (spawn_attr_init None (sc_attr sc))\<rparr>}"
    by (cases "su_call_error su ''Failed to initialize spawn file actions''";
        cases "su_call_error su ''Failed to initialize spawn attributes''")
      (simp_all add: scope_actions_def scope_attr_def failed_call_def file_actions_init_def spawn_attr_init_def)
  ultimately show ?thesis
    using assms by (auto simp: scope_ok_def spawn_ok_def file_actions_init_def spawn_attr_init_def new_spawn_object_def)
qed

lemma scope_spawn_ok:
  assumes "scope_ok foreign pid sc" and "sc_child sc = None" and "su_pid su = pid"
  shows "scope_ok foreign pid (snd (scope_spawn su sc))"
    and "fst (scope_spawn su sc) = Inr () \<Longrightarrow> sc_child (snd (scope_spawn su sc)) = Some (new_child pid)"
  using assms by (auto simp: scope_spawn_def Let_def scope_ok_def calls_ok_def new_child_def
      intro!: fd_owned_reset split: option.splits)

lemma scope_set_up_parts:
  "scope_set_up prepared su = in_scope (pipes su @ later_calls prepared su @ [scope_spawn su] @
     map (scope_non_blocking su) [''tool stdin'', ''tool stdout'', ''tool stderr''])"
  by (simp add: scope_set_up_def pipes_def later_calls_def)

lemma set_up_ok:
  assumes "fresh_pipes su foreign" and "su_pid su = pid"
    and "scope_set_up prepared su (enter_scope foreign) = (r, sc)"
  shows "scope_ok foreign pid sc \<and> (\<forall>u. r = Inr u \<longrightarrow> sc_child sc = Some (new_child pid))"
proof -
  let ?s1 = "snd (in_scope (pipes su) (enter_scope foreign))"
  let ?s2 = "snd (in_scope (later_calls prepared su) ?s1)"
  note ok1 = pipes_ok [OF assms(1), of pid]
  then have ok2: "scope_ok foreign pid ?s2" "sc_child ?s2 = None"
    using later_calls_ok [of foreign pid ?s1 prepared su] by auto
  note ok3 = scope_spawn_ok [OF ok2 assms(2)]
  have spawn: "in_scope [scope_spawn su] s = scope_spawn su s" for s by (auto split: prod.splits sum.splits)
  have "sc = snd (scope_set_up prepared su (enter_scope foreign))" "r = fst (scope_set_up prepared su (enter_scope foreign))"
    using assms(3) by simp_all
  then show ?thesis
    unfolding scope_set_up_parts in_scope_split in_scope_plain spawn
    using ok1 ok2 ok3 by (auto split: sum.splits)
qed

lemma scope_spawn_child:
  "fst (scope_spawn su sc) = Inr u \<Longrightarrow> sc_child (snd (scope_spawn su sc)) = Some (new_child (su_pid su))"
  by (simp add: scope_spawn_def Let_def split: option.splits)

lemma set_up_child:
  assumes "scope_set_up prepared su sc0 = (Inr u, sc)"
  shows "sc_child sc = Some (new_child (su_pid su))"
proof -
  have "in_scope [scope_spawn su] s = scope_spawn su s" for s by (auto split: prod.splits sum.splits)
  moreover have "sc = snd (scope_set_up prepared su sc0)" "fst (scope_set_up prepared su sc0) = Inr u"
    using assms by simp_all
  ultimately show ?thesis
    unfolding scope_set_up_parts in_scope_split in_scope_plain
    by (auto simp: scope_spawn_child split: sum.splits)
qed

section \<open>The set-up answers as \<open>set_up\<close>\<close>

lemma fst_in_scope:
  "list_all2 (\<lambda>f r. \<forall>s. fst (f s) = r) fs rs \<Longrightarrow> fst (in_scope fs s) = each id rs"
proof (induction fs rs arbitrary: s rule: list_all2_induct)
  case (Cons f fs r rs)
  then have "fst (f s) = r" by simp
  with Cons.IH show ?case by (cases "f s") (auto split: sum.splits)
qed simp

lemma each_append: "each c (xs @ ys) = bind_result (each c xs) (\<lambda>_. each c ys)"
  by (simp add: each_def fold_result_append)

lemma each_map: "each id (map c xs) = each c xs"
  by (induction xs) simp_all

lemma scope_answers_set_up: "fst (scope_set_up prepared su sc) = set_up prepared (setup_calls.truncate su)"
proof -
  let ?su = "setup_calls.truncate su"
  let ?rs = "map (\<lambda>name. create_pipe (su_pipe_error ?su name)) [''stdin'', ''stdout'', ''stderr''] @
    map (setup_call ?su) (setup_labels prepared) @
    map (set_non_blocking ?su) [''tool stdin'', ''tool stdout'', ''tool stderr'']"
  have labels: "setup_labels prepared = [''Failed to initialize spawn file actions'', ''Failed to initialize spawn attributes''] @
      wiring_labels prepared @ [''Failed to spawn tool process'']"
    by (simp add: setup_labels_def wiring_labels_def)
  have calls: "fst (scope_call su l s) = setup_call ?su l" "fst (scope_non_blocking su l s) = set_non_blocking ?su l"
    "fst (scope_spawn su s) = setup_call ?su ''Failed to spawn tool process''"
    "fst (scope_actions su s) = setup_call ?su ''Failed to initialize spawn file actions''"
    "fst (scope_attr su s) = setup_call ?su ''Failed to initialize spawn attributes''"
    "fst (scope_pipe su name x y s) = create_pipe (su_pipe_error ?su name)" for l s name x y
    by (simp_all add: scope_call_def failed_call_def setup_call_def scope_non_blocking_def scope_spawn_def
        scope_actions_def file_actions_init_def scope_attr_def spawn_attr_init_def scope_pipe_def pipe_create_def
        create_pipe_def setup_calls.defs Let_def split: option.splits prod.splits)
  have "list_all2 (\<lambda>f r. \<forall>s. fst (f s) = r) (pipes su @ later_calls prepared su @ [scope_spawn su] @
     map (scope_non_blocking su) [''tool stdin'', ''tool stdout'', ''tool stderr'']) ?rs"
    unfolding labels pipes_def later_calls_def
    by (simp add: calls list_all2_append list_all2_map1 list_all2_map2 list.rel_refl)
  from fst_in_scope [OF this] show ?thesis
    unfolding scope_set_up_parts set_up_def by (simp only: each_append each_map)
qed

section \<open>The loop runs as \<open>run_loop\<close>\<close>

definition linked :: "run_state \<Rightarrow> run_scope \<Rightarrow> bool" where
  "linked st sc \<longleftrightarrow> (\<exists>c. sc_child sc = Some c \<and> (r_status st \<noteq> None \<longleftrightarrow> c_waited c))"

lemma try_wait_answer:
  assumes "child_try_wait answers c = Some (r, calls, c')"
  shows "case r of Inl e \<Rightarrow> \<not> c_waited c \<and> (\<exists>e'. e = ''Failed while waiting on tool process: '' @ e')
    | Inr exited \<Rightarrow> exited = c_waited c'"
proof (cases "c_waited c")
  case True
  then show ?thesis using assms by (auto simp: child_try_wait_def)
next
  case False
  have "try_wait_loop answers c = Some (r, calls, c') \<Longrightarrow> \<not> c_waited c \<Longrightarrow>
      (case r of Inl e \<Rightarrow> (\<exists>e'. e = ''Failed while waiting on tool process: '' @ e') | Inr exited \<Rightarrow> exited = c_waited c')"
    by (induction answers c arbitrary: r calls c' rule: try_wait_loop.induct) auto
  with assms False show ?thesis by (auto simp: child_try_wait_def split: sum.splits)
qed

lemma scope_turn_status:
  assumes "loop_turn n turn st = Some step" and "reap_and_time turn st = Inr st1" and "\<And>e. step \<noteq> Fail e"
  shows "r_status (after_step step st) = r_status st1"
  using assms
  by (auto simp: loop_turn_def split: if_splits poll_result.splits option.splits sum.splits dest: steps_keep)

lemma fd_owned_reset_closed: "fd_owned foreign d \<Longrightarrow> fd_owned foreign (reset_closed st st' d)"
  by (simp add: reset_closed_def Let_def fd_owned_reset)

text \<open>After the wait and the deadline, the loop's status is known exactly when the wrapper has waited.\<close>

lemma reaped_with_wrapper:
  assumes "r_status st \<noteq> None \<longleftrightarrow> c_waited c" and "c_waited c \<Longrightarrow> c_waited c1"
    and "c_waited c2 \<longleftrightarrow> c_waited c1 \<or> \<not> c_waited c1 \<and> t_expired turn"
  shows "\<exists>st1. reap_and_time (turn\<lparr>t_wait := Inr (if c_waited c1 then Some s1 else None), t_kill_status := s2\<rparr>) st = Inr st1
    \<and> (r_status st1 \<noteq> None \<longleftrightarrow> c_waited c2)"
  using assms by (cases "r_status st"; cases "t_expired turn") (auto simp: reap_and_time_def try_wait_def)

lemma scope_turn_failed:
  assumes ok: "scope_ok foreign pid sc" and c: "sc_child sc = Some c" "r_status st \<noteq> None \<longleftrightarrow> c_waited c"
    and w: "child_try_wait (x_wait x) c = Some (Inl e, calls1, c1)" and pid: "0 \<le> pid"
    and turn: "scope_loop_turn decode n x st sc = Some (step, sc')"
  shows "scope_ok foreign pid sc' \<and> (\<exists>turn. loop_turn n turn st = Some step) \<and> step = Fail e \<and> sc_child sc' \<noteq> None"
proof -
  have calls: "calls_ok pid (sc_calls sc) c" using ok c(1) by (simp add: scope_ok_def)
  then have o1: "orderly pid calls1 c c1" using orderly_try_wait [OF w] by (simp add: calls_ok_def)
  then have cpid1: "c_pid c1 = pid" using calls by (simp add: orderly_def calls_ok_def)
  obtain calls2 c2 where k: "kill_and_wait (x_kill x) c1 = Some (calls2, c2)" and step: "step = Fail e"
    and sc': "sc' = sc\<lparr>sc_child := Some c2, sc_calls := sc_calls sc @ calls1 @ calls2\<rparr>"
    using turn c(1) w by (auto simp: scope_loop_turn_def)
  obtain e' where e': "e = ''Failed while waiting on tool process: '' @ e'" "\<not> c_waited c"
    using try_wait_answer [OF w] by auto
  have "calls_ok pid (sc_calls sc @ calls1 @ calls2) c2"
    using calls_ok_append [OF calls_ok_append [OF calls o1]] orderly_kill_and_wait(1) [OF k] cpid1 by simp
  then have "scope_ok foreign pid sc'" using ok by (simp add: sc' scope_ok_def)
  moreover have "loop_turn n ((x_turn x)\<lparr>t_wait := Inl e'\<rparr>) st = Some step"
    using c(2) e' by (simp add: loop_turn_def reap_and_time_def try_wait_def step)
  ultimately show ?thesis by (auto simp: step sc')
qed

lemma scope_loop_turn_ok:
  assumes ok: "scope_ok foreign pid sc" and link: "linked st sc" and pid: "0 \<le> pid"
    and turn: "scope_loop_turn decode n x st sc = Some (step, sc')"
  shows "scope_ok foreign pid sc' \<and> (\<exists>turn. loop_turn n turn st = Some step) \<and>
    ((\<forall>e. step \<noteq> Fail e) \<longrightarrow> linked (after_step step st) sc') \<and> sc_child sc' \<noteq> None"
proof -
  obtain c where c: "sc_child sc = Some c" "r_status st \<noteq> None \<longleftrightarrow> c_waited c"
    using link by (auto simp: linked_def)
  have calls: "calls_ok pid (sc_calls sc) c" using ok c(1) by (simp add: scope_ok_def)
  then have cpid: "c_pid c = pid" by (simp add: calls_ok_def)
  obtain r calls1 c1 where w: "child_try_wait (x_wait x) c = Some (r, calls1, c1)"
    using turn c(1) by (auto simp: scope_loop_turn_def split: option.splits)
  show ?thesis
  proof (cases r)
    case (Inl e)
    from scope_turn_failed [OF ok c w [unfolded Inl] pid turn] show ?thesis by auto
  next
    case (Inr exited)
    have o1: "orderly pid calls1 c c1" using orderly_try_wait [OF w] cpid by simp
    then have cpid1: "c_pid c1 = pid" using cpid by (simp add: orderly_def)
    have exited: "exited = c_waited c1" using try_wait_answer [OF w] Inr by simp
    let ?late = "\<not> c_waited c1 \<and> t_expired (x_turn x)"
    obtain calls2 c2 where k: "(if ?late then kill_and_wait (x_kill x) c1 else Some ([], c1)) = Some (calls2, c2)"
      using turn c(1) w Inr by (auto simp: scope_loop_turn_def split: option.splits if_splits)
    let ?turn = "(x_turn x)\<lparr>t_wait := Inr (if c_waited c1 then Some (decode (c_status c1)) else None),
        t_kill_status := decode (c_status c2)\<rparr>"
    have lt: "loop_turn n ?turn st = Some step" and sc': "sc' = sc\<lparr>sc_child := Some c2,
        sc_calls := sc_calls sc @ calls1 @ calls2, sc_fds := reset_closed st (after_step step st) (sc_fds sc)\<rparr>"
      using turn c(1) w Inr k exited by (auto simp: scope_loop_turn_def Let_def split: if_splits)
    have o2: "orderly pid calls2 c1 c2" and waited: "c_waited c2 \<longleftrightarrow> c_waited c1 \<or> ?late"
      using k orderly_kill_and_wait [of "x_kill x" c1 calls2 c2] cpid1 pid
      by (auto simp: orderly_def split: if_splits)
    have "calls_ok pid (sc_calls sc @ calls1 @ calls2) c2"
      using calls_ok_append [OF calls_ok_append [OF calls o1] o2] by simp
    then have "scope_ok foreign pid sc'" using ok by (simp add: sc' scope_ok_def fd_owned_reset_closed)
    moreover have "c_waited c \<Longrightarrow> c_waited c1" using o1 by (auto simp: orderly_def)
    from reaped_with_wrapper [OF c(2) this waited] obtain st1 where
      "reap_and_time ?turn st = Inr st1" "r_status st1 \<noteq> None \<longleftrightarrow> c_waited c2" by blast
    then have "linked (after_step step st) sc'" if "\<And>e. step \<noteq> Fail e"
      using scope_turn_status [OF lt _ that] by (simp add: linked_def sc')
    ultimately show ?thesis using lt by (auto simp: sc')
  qed
qed

lemma scope_loop_ok:
  assumes "scope_loop decode n xs st sc = Some (r, sc')" and "scope_ok foreign pid sc" and "linked st sc" and "0 \<le> pid"
  shows "scope_ok foreign pid sc' \<and> (\<exists>turns. run_loop n turns st = Some r) \<and> sc_child sc' \<noteq> None"
  using assms
proof (induction decode n xs st sc rule: scope_loop.induct)
  case (2 decode n x xs st sc)
  then obtain step sc1 where t: "scope_loop_turn decode n x st sc = Some (step, sc1)"
    by (auto split: option.splits)
  from scope_loop_turn_ok [OF "2.prems"(2,3,4) t] obtain turn where
    one: "scope_ok foreign pid sc1" "loop_turn n turn st = Some step" "sc_child sc1 \<noteq> None"
      "(\<forall>e. step \<noteq> Fail e) \<longrightarrow> linked (after_step step st) sc1" by blast
  show ?case
  proof (cases step)
    case (Continue st')
    with "2.prems"(1) t have rest: "scope_loop decode n xs st' sc1 = Some (r, sc')" by simp
    from "2.IH" [OF t refl Continue rest one(1) _ "2.prems"(4)] one(4) Continue obtain turns where
      "scope_ok foreign pid sc'" "run_loop n turns st' = Some r" "sc_child sc' \<noteq> None" by auto
    moreover have "run_loop n (turn # turns) st = Some r" using one(2) Continue calculation by simp
    ultimately show ?thesis by blast
  next
    case (Leave st')
    then have "run_loop n [turn] st = Some r" "sc' = sc1" using "2.prems"(1) t one(2) by auto
    with one show ?thesis by blast
  next
    case (Fail e)
    then have "run_loop n [turn] st = Some r" "sc' = sc1" using "2.prems"(1) t one(2) by auto
    with one show ?thesis by blast
  qed
qed simp

section \<open>Leaving releases everything\<close>

definition released :: "int list \<Rightarrow> int \<Rightarrow> run_scope \<Rightarrow> bool" where
  "released foreign pid sc \<longleftrightarrow>
     set (open_fds (sc_fds sc)) = set foreign \<and> stray_closes (sc_fds sc) = 0 \<and>
     so_destroys (sc_actions sc) = so_inits (sc_actions sc) \<and> so_destroys (sc_attr sc) = so_inits (sc_attr sc) \<and>
     (case sc_child sc of
        None \<Rightarrow> sc_calls sc = []
      | Some c \<Rightarrow> c_waited c \<and> list_all (\<lambda>call. call_pid call = pid) (sc_calls sc) \<and>
          list_all (\<lambda>call. \<not> reaping call) (butlast (sc_calls sc)))"

lemma all_ends: "x \<in> set [Stderr_write, Stderr_read, Stdout_write, Stdout_read, Stdin_write, Stdin_read]"
  by (cases x) simp_all

lemma fold_destroy:
  "fd_owned foreign d \<Longrightarrow> fd_owned foreign (fold fd_destroy xs d) \<and>
   (x \<in> set xs \<or> fd_of d x = -1 \<longrightarrow> fd_of (fold fd_destroy xs d) x = -1)"
proof (induction xs arbitrary: d)
  case (Cons y xs)
  have "fd_owned foreign (fd_destroy y d)" using Cons.prems by (simp add: fd_destroy_def fd_owned_reset)
  from Cons.IH [OF this] show ?case
    by (auto simp: fd_destroy_def fd_reset_def fd_close_def Let_def)
qed simp

lemma leave_scope_releases:
  assumes ok: "scope_ok foreign pid sc" and "0 \<le> pid" and leave: "leave_scope kill sc = Some sc'"
  shows "released foreign pid sc' \<and> (sc_child sc' = None \<longleftrightarrow> sc_child sc = None)"
proof -
  let ?d = "fold fd_destroy [Stderr_write, Stderr_read, Stdout_write, Stdout_read, Stdin_write, Stdin_read] (sc_fds sc)"
  obtain calls child where k: "(case sc_child sc of None \<Rightarrow> Some ([], None)
            | Some c \<Rightarrow> map_option (\<lambda>(calls, c). (calls, Some c)) (kill_and_wait kill c)) = Some (calls, child)"
    and sc': "sc' = sc\<lparr>sc_child := child, sc_calls := sc_calls sc @ calls,
         sc_attr := spawn_attr_destroy (sc_attr sc), sc_actions := file_actions_destroy (sc_actions sc), sc_fds := ?d\<rparr>"
    using leave by (auto simp: leave_scope_def simp del: fold.simps split: option.splits)
  have owned: "fd_owned foreign (sc_fds sc)" using ok by (simp add: scope_ok_def)
  have d: "fd_owned foreign ?d" by (rule conjunct1 [OF fold_destroy [OF owned]])
  have "fd_of ?d x = -1" for x
    using conjunct2 [OF fold_destroy [OF owned, of "[Stderr_write, Stderr_read, Stdout_write, Stdout_read, Stdin_write, Stdin_read]" x]]
      all_ends [of x] by blast
  then have "\<not> owns x fd ?d" for x fd unfolding owns_def by simp
  with d have fds: "set (open_fds ?d) = set foreign" "stray_closes ?d = 0" unfolding fd_owned_def by blast+
  have "case child of None \<Rightarrow> sc_calls sc @ calls = []
      | Some c \<Rightarrow> c_waited c \<and> list_all (\<lambda>call. call_pid call = pid) (sc_calls sc @ calls) \<and>
          list_all (\<lambda>call. \<not> reaping call) (butlast (sc_calls sc @ calls))"
  proof (cases "sc_child sc")
    case None
    then show ?thesis using k ok by (auto simp: scope_ok_def)
  next
    case (Some c)
    then obtain c' where c': "kill_and_wait kill c = Some (calls, c')" "child = Some c'" using k by auto
    from scope_kill [OF ok Some assms(2) c'(1)] c'(2) show ?thesis by (simp add: calls_ok_def)
  qed
  then show ?thesis
    using fds ok k by (auto simp: released_def sc' scope_ok_def spawn_ok_def spawn_attr_destroy_def
        file_actions_destroy_def simp del: fold.simps split: option.splits)
qed

section \<open>Every run of the model is a run in a scope\<close>

text \<open>The system's answers behind a turn of the model, for statuses that \<open>decode\<close> reads back.\<close>

definition answers_of :: "(exit_status \<Rightarrow> int) \<Rightarrow> turn \<Rightarrow> scope_turn" where
  "answers_of encode turn =
     \<lparr>x_turn = turn,
      x_wait = (case t_wait turn of Inl e \<Rightarrow> [Wait_error e] | Inr None \<Rightarrow> [Still_running]
                | Inr (Some s) \<Rightarrow> [Reaped (encode s)]),
      x_kill = [Reaped (encode (t_kill_status turn))]\<rparr>"

lemma kill_and_wait_Reaped: "\<exists>calls c'. kill_and_wait (Reaped s # answers) c = Some (calls, c')"
  by (simp add: kill_and_wait_def)

lemma loop_turn_same_reap:
  "reap_and_time (turn\<lparr>t_wait := w, t_kill_status := k\<rparr>) st = reap_and_time turn st \<Longrightarrow>
   loop_turn n (turn\<lparr>t_wait := w, t_kill_status := k\<rparr>) st = loop_turn n turn st"
proof -
  let ?turn = "turn\<lparr>t_wait := w, t_kill_status := k\<rparr>"
  have "step_stdin n ?turn a b = step_stdin n turn a b" "step_stdout ?turn c = step_stdout turn c"
    "step_stderr ?turn d = step_stderr turn d" for a b c d
    by (rule ext, simp add: step_stdin_def step_stdout_def step_stderr_def)+
  then show "reap_and_time ?turn st = reap_and_time turn st \<Longrightarrow> loop_turn n ?turn st = loop_turn n turn st"
    by (cases "reap_and_time turn st"; cases "t_poll turn") (simp_all add: loop_turn_def)
qed

lemma scripted_wait:
  assumes decode: "\<And>s. decode (encode s) = s" and waited: "r_status st \<noteq> None \<longleftrightarrow> c_waited c"
    and live: "r_status st = None \<Longrightarrow> \<exists>s. t_wait turn = Inr s" and pid: "0 \<le> c_pid c"
  shows "\<exists>c1 calls1 c2 calls2. child_try_wait (x_wait (answers_of encode turn)) c = Some (Inr (c_waited c1), calls1, c1)
    \<and> (if \<not> c_waited c1 \<and> t_expired turn then kill_and_wait (x_kill (answers_of encode turn)) c1 else Some ([], c1))
        = Some (calls2, c2)
    \<and> c_pid c2 = c_pid c
    \<and> reap_and_time (turn\<lparr>t_wait := Inr (if c_waited c1 then Some (decode (c_status c1)) else None),
        t_kill_status := decode (c_status c2)\<rparr>) st = reap_and_time turn st
    \<and> (\<forall>st1. reap_and_time turn st = Inr st1 \<longrightarrow> (r_status st1 \<noteq> None \<longleftrightarrow> c_waited c2))"
proof -
  define c1 where "c1 = (if c_waited c then c else case t_wait turn of
      Inr (Some s) \<Rightarrow> c\<lparr>c_status := encode s, c_waited := True\<rparr> | _ \<Rightarrow> c)"
  define calls1 where "calls1 = (if c_waited c then [] else case t_wait turn of
      Inr (Some s) \<Rightarrow> [Waitpid (c_pid c) (Reaped (encode s))] | _ \<Rightarrow> [Waitpid (c_pid c) Still_running])"
  let ?late = "\<not> c_waited c1 \<and> t_expired turn"
  define c2 where "c2 = (if ?late then c1\<lparr>c_status := encode (t_kill_status turn), c_waited := True\<rparr> else c1)"
  define calls2 where "calls2 = (if ?late then [Kill (c_pid c1), Waitpid (c_pid c1) (Reaped (encode (t_kill_status turn)))] else [])"
  have pid1: "c_pid c1 = c_pid c" "c_pid c2 = c_pid c"
    by (auto simp: c1_def c2_def split: sum.splits option.splits)
  have "child_try_wait (x_wait (answers_of encode turn)) c = Some (Inr (c_waited c1), calls1, c1)"
    using live waited by (auto simp: child_try_wait_def answers_of_def c1_def calls1_def split: option.splits)
  moreover have "(if ?late then kill_and_wait (x_kill (answers_of encode turn)) c1 else Some ([], c1)) = Some (calls2, c2)"
    using pid pid1 by (simp add: kill_and_wait_def answers_of_def c2_def calls2_def)
  moreover have "reap_and_time (turn\<lparr>t_wait := Inr (if c_waited c1 then Some (decode (c_status c1)) else None),
        t_kill_status := decode (c_status c2)\<rparr>) st = reap_and_time turn st
    \<and> (\<forall>st1. reap_and_time turn st = Inr st1 \<longrightarrow> (r_status st1 \<noteq> None \<longleftrightarrow> c_waited c2))"
  proof (cases "r_status st")
    case None
    with waited live obtain s where "t_wait turn = Inr s" "\<not> c_waited c" by auto
    then show ?thesis using None
      by (cases s; cases "t_expired turn") (auto simp: reap_and_time_def try_wait_def c1_def c2_def decode)
  qed (use waited in \<open>auto simp: reap_and_time_def try_wait_def c1_def c2_def\<close>)
  ultimately show ?thesis using pid1(2) by blast
qed

lemma scope_loop_turn_returns:
  assumes decode: "\<And>s. decode (encode s) = s" and link: "linked st sc" and pid: "sc_child sc = Some c" "0 \<le> c_pid c"
    and turn: "loop_turn n turn st = Some step"
  shows "\<exists>sc' c'. scope_loop_turn decode n (answers_of encode turn) st sc = Some (step, sc') \<and>
    sc_child sc' = Some c' \<and> c_pid c' = c_pid c \<and> ((\<forall>e. step \<noteq> Fail e) \<longrightarrow> linked (after_step step st) sc')"
proof -
  let ?x = "answers_of encode turn"
  have waited: "r_status st \<noteq> None \<longleftrightarrow> c_waited c" using link pid(1) by (auto simp: linked_def)
  have x: "x_turn ?x = turn" by (simp add: answers_of_def)
  show ?thesis
  proof (cases "\<exists>e. t_wait turn = Inl e \<and> r_status st = None")
    case True
    then obtain e where e: "t_wait turn = Inl e" "r_status st = None" by blast
    then have "step = Fail (''Failed while waiting on tool process: '' @ e)"
      using turn by (simp add: loop_turn_def reap_and_time_def try_wait_def)
    then show ?thesis using e waited pid
      by (simp add: scope_loop_turn_def answers_of_def child_try_wait_def kill_and_wait_def)
  next
    case False
    then have "r_status st = None \<Longrightarrow> \<exists>s. t_wait turn = Inr s" by (cases "t_wait turn") auto
    from scripted_wait [OF decode waited this pid(2)] obtain c1 calls1 c2 calls2 where
      w: "child_try_wait (x_wait ?x) c = Some (Inr (c_waited c1), calls1, c1)"
      and k: "(if \<not> c_waited c1 \<and> t_expired turn then kill_and_wait (x_kill ?x) c1 else Some ([], c1)) = Some (calls2, c2)"
      and pid2: "c_pid c2 = c_pid c"
      and same: "reap_and_time (turn\<lparr>t_wait := Inr (if c_waited c1 then Some (decode (c_status c1)) else None),
        t_kill_status := decode (c_status c2)\<rparr>) st = reap_and_time turn st"
      and status: "\<And>st1. reap_and_time turn st = Inr st1 \<Longrightarrow> r_status st1 \<noteq> None \<longleftrightarrow> c_waited c2"
      by blast
    note lt = loop_turn_same_reap [OF same, unfolded turn]
    have run: "scope_loop_turn decode n ?x st sc = Some (step, sc\<lparr>sc_child := Some c2,
        sc_calls := sc_calls sc @ calls1 @ calls2, sc_fds := reset_closed st (after_step step st) (sc_fds sc)\<rparr>)"
      unfolding scope_loop_turn_def by (simp add: pid(1) w x k lt turn Let_def split del: if_split)
    have "linked (after_step step st) (sc\<lparr>sc_child := Some c2, sc_calls := y, sc_fds := z\<rparr>)" if ok: "\<And>e. step \<noteq> Fail e" for y z
    proof -
      obtain st1 where "reap_and_time turn st = Inr st1"
        using turn ok by (cases "reap_and_time turn st") (force simp: loop_turn_def)+
      from scope_turn_status [OF turn this ok] status [OF this] show ?thesis by (simp add: linked_def)
    qed
    with run pid2 show ?thesis by auto
  qed
qed

lemma scope_loop_returns:
  assumes decode: "\<And>s. decode (encode s) = s"
  shows "run_loop n turns st = Some r \<Longrightarrow> linked st sc \<Longrightarrow> sc_child sc = Some c \<Longrightarrow> 0 \<le> c_pid c \<Longrightarrow>
    \<exists>sc'. scope_loop decode n (map (answers_of encode) turns) st sc = Some (r, sc')"
proof (induction n turns st arbitrary: sc c rule: run_loop.induct)
  case (2 n turn turns st)
  then obtain step where step: "loop_turn n turn st = Some step" by (auto split: option.splits)
  from scope_loop_turn_returns [where decode = decode and encode = encode, OF decode "2.prems"(2,3,4) step]
  obtain sc1 c1 where one: "scope_loop_turn decode n (answers_of encode turn) st sc = Some (step, sc1)"
    "sc_child sc1 = Some c1" "c_pid c1 = c_pid c" "(\<forall>e. step \<noteq> Fail e) \<longrightarrow> linked (after_step step st) sc1" by blast
  show ?case
  proof (cases step)
    case (Continue st')
    with "2.prems"(1) step have "run_loop n turns st' = Some r" by simp
    from "2.IH" [OF step Continue this _ one(2)] one Continue "2.prems"(4) show ?thesis by simp
  qed (use "2.prems"(1) step one in auto)
qed simp

section \<open>Properties\<close>


definition demo_encode :: "exit_status \<Rightarrow> int" where
  "demo_encode s = (case s of Exited_with n \<Rightarrow> 2 * int n | Signalled n \<Rightarrow> 2 * int n + 1 | Other_status \<Rightarrow> -1)"

definition demo_decode :: "int \<Rightarrow> exit_status" where
  "demo_decode i = (if i < 0 then Other_status else if even i then Exited_with (nat (i div 2)) else Signalled (nat (i div 2)))"

lemma demo_decode_encode: "demo_decode (demo_encode s) = s"
  by (cases s) (simp_all add: demo_decode_def demo_encode_def)


text \<open>
  C28. Whatever way a tool run is left, by one of its many early returns, by an error of a system call
  in the loop, by the time limit or with an answer, it releases what it acquired: the open
  descriptors are those open before, none was closed twice; each spawn object that was initialised
  was destroyed once; a spawned child has been reaped, all calls named it, and none followed the
  reaping one. And the answer is one that \<open>run_prepared_command_tool\<close> gives.
\<close>

theorem tool_run_releases_everything:
  assumes "fresh_pipes su foreign" and "0 \<le> su_pid su"
    and "run_in_scope api decode prepared arguments su xs kill foreign = Some (answer, sc)"
  shows "released foreign (su_pid su) sc \<and>
    (\<exists>turns. run_prepared_command_tool api prepared arguments (setup_calls.truncate su) turns = Some answer)"
proof -
  obtain r sc1 where su: "scope_set_up prepared su (enter_scope foreign) = (r, sc1)" by fastforce
  note ok = set_up_ok [OF assms(1) refl su]
  have r: "set_up prepared (setup_calls.truncate su) = r"
    using scope_answers_set_up [of prepared su "enter_scope foreign"] su by simp
  show ?thesis
  proof (cases r)
    case (Inl e)
    with assms(3) su have "leave_scope kill sc1 = Some sc" "answer = Inl (make_runtime_error e)"
      by (auto simp: run_in_scope_def)
    with leave_scope_releases [of foreign "su_pid su" sc1 kill sc] ok assms(2) Inl r show ?thesis
      by (simp add: run_prepared_command_tool_def)
  next
    case (Inr u)
    let ?n = "length (json_dump api arguments @ [newline])"
    obtain r2 sc2 where loop: "scope_loop decode ?n xs run_start sc1 = Some (r2, sc2)"
      and leave: "leave_scope kill sc2 = Some sc"
      and answer: "answer = (case r2 of Inl e \<Rightarrow> Inl (make_runtime_error e)
         | Inr st \<Rightarrow> judge_output api (tool_timeout_ms (pt_config prepared)) st)"
      using assms(3) su Inr by (auto simp: run_in_scope_def split: option.splits sum.splits)
    have "linked run_start sc1" using ok Inr by (simp add: linked_def new_child_def run_start_def)
    with scope_loop_ok [OF loop conjunct1 [OF ok] _ assms(2)] obtain turns where
      "scope_ok foreign (su_pid su) sc2" "run_loop ?n turns run_start = Some r2" by blast
    moreover have "run_prepared_command_tool api prepared arguments (setup_calls.truncate su) turns = Some answer"
      using calculation(2) r Inr by (simp add: run_prepared_command_tool_def answer split: sum.splits)
    ultimately show ?thesis using leave_scope_releases [OF _ assms(2) leave] by blast
  qed
qed

text \<open>A run that fails between the spawn and the loop: the destructor kills and reaps the child.\<close>

definition demo_scope_calls :: scope_calls where
  "demo_scope_calls = \<lparr>su_pipe_error = (\<lambda>_. None), su_call_error = (\<lambda>_. None),
     su_getfl_error = (\<lambda>label. if label = ''tool stdout'' then Some ''EBADF'' else None),
     su_setfl_error = (\<lambda>_. None),
     su_fds = (\<lambda>name. if name = ''stdin'' then (3, 4) else if name = ''stdout'' then (5, 6) else (7, 8)),
     su_pid = 42\<rparr>"

theorem tool_run_releases_everything_witness:
  "\<exists>sc. run_in_scope demo_json_api (\<lambda>_. Other_status) demo_prepared JNull demo_scope_calls [] [Interrupted, Reaped 9] [0, 1, 2] =
       Some (Inl (make_runtime_error ''Failed to inspect tool stdout: EBADF''), sc)
     \<and> sc_calls sc = [Kill 42, Waitpid 42 Interrupted, Waitpid 42 (Reaped 9)] \<and> set (open_fds (sc_fds sc)) = {0, 1, 2}"
proof -
  have "\<exists>sc. run_in_scope demo_json_api (\<lambda>_. Other_status) demo_prepared JNull demo_scope_calls [] [Interrupted, Reaped 9] [0, 1, 2] =
       Some (Inl (make_runtime_error ''Failed to inspect tool stdout: EBADF''), sc)
     \<and> sc_calls sc = [Kill 42, Waitpid 42 Interrupted, Waitpid 42 (Reaped 9)]"
    by (simp add: run_in_scope_def scope_set_up_def wiring_labels_def demo_prepared_def demo_tool_def
        demo_scope_calls_def scope_pipe_def pipe_create_def scope_actions_def scope_attr_def file_actions_init_def
        spawn_attr_init_def failed_call_def scope_call_def scope_spawn_def scope_non_blocking_def
        set_non_blocking_def setup_calls.defs leave_scope_def kill_and_wait_def new_child_def enter_scope_def)
  then obtain sc where run: "run_in_scope demo_json_api (\<lambda>_. Other_status) demo_prepared JNull demo_scope_calls []
      [Interrupted, Reaped 9] [0, 1, 2] = Some (Inl (make_runtime_error ''Failed to inspect tool stdout: EBADF''), sc)"
    "sc_calls sc = [Kill 42, Waitpid 42 Interrupted, Waitpid 42 (Reaped 9)]" by blast
  have "fresh_pipes demo_scope_calls [0, 1, 2]" "0 \<le> su_pid demo_scope_calls"
    by (simp_all add: fresh_pipes_def demo_scope_calls_def)
  from tool_run_releases_everything [OF this run(1)] run show ?thesis by (auto simp: released_def)
qed

end
