(* ===== verification/Runtime.thy ===== *)
theory Runtime
  imports Chat_Service Server_Config Metrics Executor
begin

text \<open>
  \<^verbatim>\<open>src/server/runtime.hpp\<close>, \<^verbatim>\<open>runtime.cpp\<close> and the health response of \<^verbatim>\<open>health.cpp\<close>.

  \<^verbatim>\<open>ServerRuntime\<close> owns the configuration, the chat service, the metrics and the executor for
  continuations; its members are the record \<open>server_runtime\<close>, which the request handlers extend with
  what they own. The service pointer is taken to be set, as \<^verbatim>\<open>create\<close> does. \<open>submit_background\<close> meets
  the contract \<open>bounded_submission\<close> of \<open>Executor\<close> a second time. \<open>runtime_stop\<close> is the body of \<^verbatim>\<open>stop\<close>
  with the joins it waits for: the workers run what is queued (that they do is
  \<open>executor_stop_drains\<close>), here in the order of the queue.
\<close>

definition continuation_worker_count :: "nat \<Rightarrow> nat" where
  "continuation_worker_count hardware_threads =
     (if hardware_threads = 0 then 2 else min 4 (max 2 hardware_threads))"

definition continuation_queue_depth :: "u64 \<Rightarrow> u64" where
  "continuation_queue_depth request_queue_capacity =
     (let request_capacity = max 1 request_queue_capacity in max 32 (request_capacity * 2))"

record ('ag, 'ac, 'task) server_runtime =
  sr_config :: "'ac server_config"
  sr_service :: "'ag chat_service"
  sr_metrics :: server_metrics
  sr_executor :: "'task executor"
  sr_stopping :: bool

definition make_runtime ::
  "nat \<Rightarrow> ('ac \<Rightarrow> u64) \<Rightarrow> int \<Rightarrow> 'ac server_config \<Rightarrow> 'ag chat_service \<Rightarrow> ('ag, 'ac, 'task) server_runtime" where
  "make_runtime hardware_threads queue_capacity now config service =
     \<lparr>sr_config = config, sr_service = service, sr_metrics = make_metrics now,
      sr_executor = make_executor (continuation_worker_count hardware_threads)
        (unat (continuation_queue_depth (queue_capacity (sc_agent_config config)))),
      sr_stopping = False\<rparr>"

definition submit_background ::
  "'task \<Rightarrow> ('ag, 'ac, 'task, 'z) server_runtime_scheme \<Rightarrow>
     (string, unit) result \<times> ('ag, 'ac, 'task, 'z) server_runtime_scheme" where
  "submit_background task rt =
     (if sr_stopping rt then (Inl ''Server runtime is stopping'', rt)
      else case submit task (sr_executor rt) of (r, ex) \<Rightarrow> (r, rt\<lparr>sr_executor := ex\<rparr>))"

definition runtime_ready :: "'ag agent_ops \<Rightarrow> ('ag, 'ac, 'task, 'z) server_runtime_scheme \<Rightarrow> bool" where
  "runtime_ready ops rt = is_ready ops (sr_service rt)"

record health_snapshot =
  hs_ready :: bool
  hs_model_id :: string
  hs_sessions :: session_health
  hs_version :: string

definition make_health_snapshot ::
  "'ag agent_ops \<Rightarrow> string \<Rightarrow> ('ag, 'ac, 'task, 'z) server_runtime_scheme \<Rightarrow> health_snapshot" where
  "make_health_snapshot ops version rt =
     \<lparr>hs_ready = runtime_ready ops rt, hs_model_id = sc_model_id (sr_config rt),
      hs_sessions = service_session_health (sr_service rt), hs_version = version\<rparr>"

definition empty_snapshot :: metrics_snapshot where
  "empty_snapshot = \<lparr>snap_requests_total = 0, snap_requests_errors = 0, snap_requests_cancelled_total = 0,
     snap_requests_queue_rejected_total = 0, snap_stream_disconnects_total = 0,
     snap_tool_invocations_total = 0, snap_tool_failures_total = 0, snap_tool_timeouts_total = 0,
     snap_active_sessions = 0, snap_model_id = [], snap_uptime_seconds = 0\<rparr>"

definition make_metrics_snapshot ::
  "int \<Rightarrow> ('ag, 'ac, 'task, 'z) server_runtime_scheme \<Rightarrow> metrics_snapshot" where
  "make_metrics_snapshot now rt =
     (populate_snapshot (sr_metrics rt) empty_snapshot)
       \<lparr>snap_active_sessions := sh_active (service_session_health (sr_service rt)),
        snap_model_id := sc_model_id (sr_config rt),
        snap_uptime_seconds := uptime_seconds now (sr_metrics rt)\<rparr>"

text \<open>One wake-up of the reaper thread: \<open>None\<close> when it leaves its loop.\<close>

definition reaper_wake ::
  "int \<Rightarrow> ('ag, 'ac, 'task, 'z) server_runtime_scheme \<Rightarrow> ('ag, 'ac, 'task, 'z) server_runtime_scheme option" where
  "reaper_wake now rt =
     (if sr_stopping rt then None else Some (rt\<lparr>sr_service := reap_sessions now (sr_service rt)\<rparr>))"

definition runtime_stop ::
  "('task \<Rightarrow> ('ag, 'ac, 'task, 'z) server_runtime_scheme \<Rightarrow> ('ag, 'ac, 'task, 'z) server_runtime_scheme) \<Rightarrow>
     'ag agent_ops \<Rightarrow> ('ag, 'ac, 'task, 'z) server_runtime_scheme \<Rightarrow> ('ag, 'ac, 'task, 'z) server_runtime_scheme" where
  "runtime_stop run ops rt =
     (if sr_stopping rt then rt
      else
        let rt = rt\<lparr>sr_stopping := True\<rparr>;
            rt = rt\<lparr>sr_executor := executor_stop (sr_executor rt)\<rparr>;
            queued = tasks (sr_executor rt);
            rt = fold run queued (rt\<lparr>sr_executor := (sr_executor rt)\<lparr>tasks := [], workers := []\<rparr>\<rparr>)
        in rt\<lparr>sr_service := service_stop ops (sr_service rt)\<rparr>)"

section \<open>Health\<close>

definition make_health_response :: "json_api \<Rightarrow> health_snapshot \<Rightarrow> http_response" where
  "make_health_response api snapshot =
     (let sessions = hs_sessions snapshot;
          body = json_object
            [(''status'', JString (if hs_ready snapshot then ''ok'' else ''starting'')),
             (''ready'', JBool (hs_ready snapshot)),
             (''model'', json_object [(''id'', JString (hs_model_id snapshot))]),
             (''sessions'', json_object
               [(''enabled'', JBool (sh_enabled sessions)), (''active'', JUInt (sh_active sessions)),
                (''max_sessions'', JUInt (sh_max_sessions sessions)),
                (''idle_ttl_seconds'', JUInt (sh_idle_ttl_seconds sessions))]),
             (''version'', JString (hs_version snapshot))]
      in \<lparr>resp_status = (if hs_ready snapshot then 200 else 503),
          resp_content_type = Some ''application/json'', resp_body = json_dump api body, resp_headers = []\<rparr>)"

text \<open>The handler of \<^verbatim>\<open>/healthz\<close>: \<open>None\<close> when the runtime is gone.\<close>

definition health_route ::
  "json_api \<Rightarrow> 'ag agent_ops \<Rightarrow> string \<Rightarrow> ('ag, 'ac, 'task, 'z) server_runtime_scheme option \<Rightarrow> http_response" where
  "health_route api ops version runtime =
     (case runtime of
        None \<Rightarrow> make_health_response api
          \<lparr>hs_ready = False, hs_model_id = [],
           hs_sessions = \<lparr>sh_enabled = False, sh_active = 0, sh_max_sessions = 0, sh_idle_ttl_seconds = 0\<rparr>,
           hs_version = version\<rparr>
      | Some rt \<Rightarrow> make_health_response api (make_health_snapshot ops version rt))"

section \<open>Submission\<close>

lemma submit_background_simps [simp]:
  "sr_service (snd (submit_background task rt)) = sr_service rt"
  "sr_metrics (snd (submit_background task rt)) = sr_metrics rt"
  "sr_config (snd (submit_background task rt)) = sr_config rt"
  "sr_stopping (snd (submit_background task rt)) = sr_stopping rt"
  "server_runtime.more (snd (submit_background task rt)) = server_runtime.more rt"
  by (simp_all add: submit_background_def split: prod.split)

lemma submit_background_Inl: "submit_background task rt = (Inl e, rt') \<Longrightarrow> rt' = rt"
  by (auto simp: submit_background_def submit_def split: if_splits)

lemma submit_background_Inr:
  "submit_background task rt = (Inr u, rt') \<Longrightarrow>
   rt' = rt\<lparr>sr_executor := (sr_executor rt)\<lparr>tasks := tasks (sr_executor rt) @ [task]\<rparr>\<rparr>"
  by (auto simp: submit_background_def submit_def split: if_splits)

interpretation runtime_queue: bounded_submission
  "\<lambda>rt. max_pending_tasks (sr_executor rt)" "\<lambda>rt. tasks (sr_executor rt)"
  "\<lambda>rt. sr_stopping rt \<or> stopping (sr_executor rt)" submit_background
  by unfold_locales (auto simp: submit_background_def submit_def)

lemma continuation_queue_depth_bounds:
  "32 \<le> continuation_queue_depth c"
  "0 < c \<Longrightarrow> unat c < 2 ^ 63 \<Longrightarrow> unat (continuation_queue_depth c) = max 32 (2 * unat c)"
proof -
  show "32 \<le> continuation_queue_depth c" by (simp add: continuation_queue_depth_def Let_def)
  assume c: "0 < c" "unat c < 2 ^ 63"
  then have "max 1 c = c" by (simp add: max_def word_less_nat_alt word_le_nat_alt)
  moreover have "unat (c * 2) = 2 * unat c"
    using c(2) unat_mult_lem [of c 2] by simp
  ultimately show "unat (continuation_queue_depth c) = max 32 (2 * unat c)"
    by (simp add: continuation_queue_depth_def Let_def max_def word_le_nat_alt)
qed

section \<open>Properties\<close>


end
