(* ===== verification/Startup.thy ===== *)
theory Startup
  imports Runtime Command_Tools
begin

text \<open>
  Start-up: \<^verbatim>\<open>ZooChatService::create\<close> with its helpers (\<^verbatim>\<open>chat_service.cpp\<close>), \<^verbatim>\<open>ServerRuntime::create\<close>
  (\<^verbatim>\<open>runtime.cpp\<close>) and \<^verbatim>\<open>main.cpp\<close>.

  Creating an agent and registering a tool with it are calls of the library, the record
  \<open>agent_factory\<close>; their errors are the texts \<^verbatim>\<open>to_string\<close> gives. The members of zoo's agent
  configuration the server reads are the functions \<open>af_max_history\<close> and \<open>af_queue_capacity\<close>.
\<close>

record ('ag, 'ac) agent_factory =
  af_create :: "model_config \<Rightarrow> 'ac \<Rightarrow> generation_options \<Rightarrow> (string, 'ag) result"
  af_register_tool :: "registered_tool \<Rightarrow> 'ag \<Rightarrow> (string, 'ag) result"
  af_ops :: "'ag agent_ops"
  af_max_history :: "'ac \<Rightarrow> nat"
  af_queue_capacity :: "'ac \<Rightarrow> u64"

record 'ag configured_agent =
  cg_agent :: 'ag
  cg_request_system_prompt :: string
  cg_tool_definitions :: "tool_definition list"

fun configure_tools ::
  "('ag, 'ac) agent_factory \<Rightarrow> registered_tool list \<Rightarrow> 'ag configured_agent \<Rightarrow> (string, 'ag configured_agent) result" where
  "configure_tools af [] configured = Inr configured"
| "configure_tools af (tool # rest) configured =
     (case af_register_tool af tool (cg_agent configured) of
        Inl e \<Rightarrow> Inl (''Failed to register tool '' @ quoted (td_name (rg_definition tool)) @ '': '' @ e)
      | Inr a \<Rightarrow> configure_tools af rest
          (configured\<lparr>cg_agent := a,
             cg_tool_definitions := cg_tool_definitions configured @ [rg_definition tool]\<rparr>))"

definition create_configured_agent ::
  "('ag, 'ac) agent_factory \<Rightarrow> model_config \<Rightarrow> 'ac \<Rightarrow> generation_options \<Rightarrow> string \<Rightarrow> registered_tool list \<Rightarrow>
     (string, 'ag configured_agent) result" where
  "create_configured_agent af mc ac gen_options system_prompt provider =
     (case af_create af mc ac gen_options of
        Inl e \<Rightarrow> Inl (''Failed to create zoo::Agent: '' @ e)
      | Inr a \<Rightarrow>
          let a = (if system_prompt \<noteq> [] then ag_set_system_prompt (af_ops af) system_prompt a else a)
          in configure_tools af provider
               \<lparr>cg_agent = a, cg_request_system_prompt = system_prompt, cg_tool_definitions = []\<rparr>)"

definition create_chat_service ::
  "('ag, 'ac) agent_factory \<Rightarrow> 'ac server_config \<Rightarrow> registered_tool list \<Rightarrow> (string, 'ag chat_service) result" where
  "create_chat_service af config provider =
     (let gen_options = sc_default_generation config;
          gen_options = (if provider \<noteq> [] then gen_options\<lparr>go_record_tool_trace := True\<rparr> else gen_options)
      in bind_result (create_configured_agent af (sc_model_config config) (sc_agent_config config)
           gen_options (sc_prompt config) provider) (\<lambda>shared.
         let store = make_session_store (sc_model_id config) (sessions config) (cg_request_system_prompt shared)
                       (af_max_history af (sc_agent_config config))
         in Inr (make_chat_service (sc_model_id config) (mc_context_size (sc_model_config config))
              (cg_request_system_prompt shared) (cg_tool_definitions shared) (Some (cg_agent shared)) store
              gen_options)))"

definition runtime_create ::
  "('ag, 'ac) agent_factory \<Rightarrow> file_system \<Rightarrow> string list \<Rightarrow> nat \<Rightarrow> int \<Rightarrow> 'ac server_config \<Rightarrow>
     (string, ('ag, 'ac, 'task) server_runtime) result" where
  "runtime_create af fs environ hardware_threads now config =
     bind_result (make_command_tool_provider fs environ (tools config)) (\<lambda>provider.
     bind_result (create_chat_service af config provider) (\<lambda>service.
     Inr (make_runtime hardware_threads (af_queue_capacity af) now config service)))"

text \<open>
  \<^verbatim>\<open>main\<close>: exit status and what is printed. Loading the file, the warning, the creation of the
  runtime and running the server are its calls.
\<close>

definition server_main ::
  "string \<Rightarrow> (string \<Rightarrow> (string, 'config) result) \<Rightarrow> ('config \<Rightarrow> string option) \<Rightarrow>
     ('config \<Rightarrow> (string, 'runtime) result) \<Rightarrow> ('runtime \<Rightarrow> int \<times> 'final) \<Rightarrow> string list \<Rightarrow>
     int \<times> string list \<times> 'final option" where
  "server_main version load warn create run argv =
     (if length argv = 2 \<and> argv ! 1 = ''--version'' then (0, [''zoo-keeper-server '' @ version], None)
      else if length argv \<noteq> 2 then (1, [''Usage: zoo_keeper_server <config.json>''], None)
      else case load (argv ! 1) of
             Inl e \<Rightarrow> (1, [''Config load failed: '' @ e], None)
           | Inr config \<Rightarrow>
               let warning = (case warn config of None \<Rightarrow> [] | Some w \<Rightarrow> [w])
               in (case create config of
                     Inl e \<Rightarrow> (1, warning @ [''Config bootstrap failed: '' @ e], None)
                   | Inr runtime \<Rightarrow> (case run runtime of (status, final) \<Rightarrow> (status, warning, Some final))))"

section \<open>What start-up establishes\<close>

lemma configure_tools_Inr:
  "configure_tools af provider configured = Inr result \<Longrightarrow>
   cg_request_system_prompt result = cg_request_system_prompt configured \<and>
   cg_tool_definitions result = cg_tool_definitions configured @ map rg_definition provider"
  by (induction provider arbitrary: configured) (auto split: sum.splits)

lemma configure_tools_Inl:
  "configure_tools af provider configured = Inl e \<Longrightarrow>
   \<exists>tool \<in> set provider. \<exists>reason.
     e = ''Failed to register tool '' @ quoted (td_name (rg_definition tool)) @ '': '' @ reason"
  by (induction provider arbitrary: configured) (auto split: sum.splits)

lemma provider_definitions:
  "make_command_tool_provider fs environ ts = Inr provider \<Longrightarrow>
   map rg_definition provider =
     map (\<lambda>tool. \<lparr>td_name = tool_name tool, td_description = tool_description tool,
                 parameters_schema = tool_parameters_schema tool\<rparr>) ts"
  by (induction ts arbitrary: provider) (auto simp: result_simps)

lemma create_chat_service_Inr:
  assumes "create_chat_service af config provider = Inr service"
  shows "\<exists>a options. service = make_chat_service (sc_model_id config) (mc_context_size (sc_model_config config))
      (sc_prompt config) (map rg_definition provider) (Some a)
      (make_session_store (sc_model_id config) (sessions config) (sc_prompt config)
        (af_max_history af (sc_agent_config config))) options
    \<and> options = (if provider \<noteq> [] then (sc_default_generation config)\<lparr>go_record_tool_trace := True\<rparr>
                  else sc_default_generation config)"
proof -
  let ?options = "if provider \<noteq> [] then (sc_default_generation config)\<lparr>go_record_tool_trace := True\<rparr>
                  else sc_default_generation config"
  obtain shared where shared: "create_configured_agent af (sc_model_config config) (sc_agent_config config)
       ?options (sc_prompt config) provider = Inr shared"
    and service: "service = make_chat_service (sc_model_id config) (mc_context_size (sc_model_config config))
      (cg_request_system_prompt shared) (cg_tool_definitions shared) (Some (cg_agent shared))
      (make_session_store (sc_model_id config) (sessions config) (cg_request_system_prompt shared)
        (af_max_history af (sc_agent_config config))) ?options"
    using assms by (auto simp: create_chat_service_def Let_def result_simps)
  from shared have "cg_request_system_prompt shared = sc_prompt config"
      "cg_tool_definitions shared = map rg_definition provider"
    by (auto simp: create_configured_agent_def Let_def split: sum.splits dest: configure_tools_Inr)
  with service show ?thesis by (intro exI [of _ "cg_agent shared"] exI [of _ ?options]) simp
qed

section \<open>Properties\<close>

text \<open>
  A runtime that start-up returns serves the configured model: every configured tool is offered,
  in the order of the configuration; with tools, their trace is recorded whatever the configured
  default says; no session is open, no task queued, nothing counted; the agent's history holds
  the configured prompt and nothing else; and no request is refused for a lack of place before
  at least 32 tasks are waiting.
\<close>

theorem created_runtime_serves_configuration:
  assumes "runtime_create af fs environ hardware_threads now config = Inr rt"
  shows "let service = sr_service rt in
    sv_tool_metadata service =
      map (\<lambda>tool. \<lparr>td_name = tool_name tool, td_description = tool_description tool,
                  parameters_schema = tool_parameters_schema tool\<rparr>) (tools config)
    \<and> (go_record_tool_trace (sv_default_generation service) \<longleftrightarrow>
        tools config \<noteq> [] \<or> go_record_tool_trace (sc_default_generation config))
    \<and> sv_agent_history service =
        (if sc_prompt config = [] then [] else [system_message (sc_prompt config)])
    \<and> sh_active (service_session_health service) = 0
    \<and> tasks (sr_executor rt) = [] \<and> \<not> sr_stopping rt
    \<and> 32 \<le> max_pending_tasks (sr_executor rt)
    \<and> length (workers (sr_executor rt)) \<in> {2..4}"
proof -
  obtain provider service where provider: "make_command_tool_provider fs environ (tools config) = Inr provider"
    and service: "create_chat_service af config provider = Inr service"
    and rt: "rt = make_runtime hardware_threads (af_queue_capacity af) now config service"
    using assms by (auto simp: runtime_create_def result_simps)
  note definitions = provider_definitions [OF provider]
  then have "length provider = length (tools config)" using map_eq_imp_length_eq by blast
  then have empty: "provider = [] \<longleftrightarrow> tools config = []" by auto
  have depth: "32 \<le> unat (continuation_queue_depth c)" for c
    using continuation_queue_depth_bounds(1) [of c] by (simp add: word_le_nat_alt)
  then have "0 < unat (continuation_queue_depth c)" for c by (metis less_le_trans zero_less_numeral)
  with depth have depth: "0 < unat (continuation_queue_depth c)" "32 \<le> unat (continuation_queue_depth c)" for c
    by blast+
  from create_chat_service_Inr [OF service] definitions show ?thesis
    unfolding rt using empty depth
    by (auto simp: make_runtime_def make_chat_service_def Let_def service_session_health_def store_health_def
        make_session_store_def make_executor_def continuation_worker_count_def)
qed

definition demo_model :: model_config where
  "demo_model = \<lparr>mc_model_path = ''m.gguf'', mc_context_size = 4096, mc_n_gpu_layers = 0, mc_use_mmap = True,
     mc_use_mlock = False\<rparr>"

definition demo_config :: "nat server_config" where
  "demo_config = \<lparr>bind_address = ''127.0.0.1'', port = 8080, sc_model_id = ''m'', api_key = Some ''k'',
     http = \<lparr>client_max_body_size_bytes = 1048576, client_max_memory_body_size_bytes = 65536,
       idle_connection_timeout_seconds = 60, cors_allow_origins = []\<rparr>,
     sessions = \<lparr>max_sessions = 2, idle_ttl_seconds = 900\<rparr>, tools = [], sc_model_config = demo_model,
     sc_agent_config = 7, sc_default_generation = demo_options, auto_configure_model = False,
     sc_prompt = ''Be brief.''\<rparr>"

definition demo_factory :: "(u64 \<times> u64 list, nat) agent_factory" where
  "demo_factory = \<lparr>af_create = (\<lambda>_ _ _. Inr (50, [])), af_register_tool = (\<lambda>_ a. Inr a), af_ops = demo_ops,
     af_max_history = id, af_queue_capacity = of_nat\<rparr>"

definition demo_start_fs :: file_system where
  "demo_start_fs = \<lparr>fs_current_path = ''/'', fs_executable = (\<lambda>_. True), fs_weakly_canonical = (\<lambda>p. p),
     fs_is_directory = (\<lambda>_. Some True)\<rparr>"

theorem created_runtime_serves_configuration_witness:
  "\<exists>rt :: (u64 \<times> u64 list, nat, nat) server_runtime.
     runtime_create demo_factory demo_start_fs [] 8 0 demo_config = Inr rt \<and>
     sv_agent_history (sr_service rt) = [system_message ''Be brief.''] \<and> 32 \<le> max_pending_tasks (sr_executor rt)"
proof -
  obtain rt :: "(u64 \<times> u64 list, nat, nat) server_runtime" where
    rt: "runtime_create demo_factory demo_start_fs [] 8 0 demo_config = Inr rt"
    by (simp add: runtime_create_def create_chat_service_def create_configured_agent_def demo_factory_def
        demo_config_def Let_def)
  from created_runtime_serves_configuration [OF this] rt show ?thesis
    by (auto simp: Let_def demo_config_def)
qed

text \<open>
  When start-up fails, the message names the step: the first tool whose command cannot be prepared
  (no agent is created then), the creation of the agent, or the first tool the agent refuses.
\<close>

theorem failed_start_names_the_step:
  assumes "runtime_create af fs environ hardware_threads now config = Inl e"
  shows "(\<exists>tool reason. tool \<in> set (tools config) \<and>
            build_prepared_command_tool fs environ tool = Inl reason \<and>
            e = ''Invalid tool '' @ quoted (tool_name tool) @ '': '' @ reason) \<or>
         (\<exists>reason. e = ''Failed to create zoo::Agent: '' @ reason) \<or>
         (\<exists>tool reason. tool \<in> set (tools config) \<and>
            e = ''Failed to register tool '' @ quoted (tool_name tool) @ '': '' @ reason)"
proof -
  have prepared: "make_command_tool_provider fs environ ts = Inl e \<Longrightarrow>
      \<exists>tool reason. tool \<in> set ts \<and> build_prepared_command_tool fs environ tool = Inl reason \<and>
        e = ''Invalid tool '' @ quoted (tool_name tool) @ '': '' @ reason" for ts
    by (induction ts) (auto simp: result_simps map_error_def split: sum.splits)
  from assms consider "make_command_tool_provider fs environ (tools config) = Inl e"
    | provider where "make_command_tool_provider fs environ (tools config) = Inr provider"
        "create_chat_service af config provider = Inl e"
    by (auto simp: runtime_create_def result_simps)
  then show ?thesis
  proof cases
    case 1
    with prepared show ?thesis by blast
  next
    case 2
    from 2(2) have "(\<exists>reason. e = ''Failed to create zoo::Agent: '' @ reason) \<or>
        (\<exists>configured. configure_tools af provider configured = Inl e)"
      by (auto simp: create_chat_service_def create_configured_agent_def Let_def result_simps split: sum.splits)
    moreover have "\<exists>tool' \<in> set (tools config). tool_name tool' = td_name (rg_definition tool)"
      if "tool \<in> set provider" for tool
    proof -
      have "rg_definition tool \<in> set (map rg_definition provider)" using that by simp
      then show ?thesis unfolding provider_definitions [OF 2(1)] by auto
    qed
    ultimately show ?thesis by (metis configure_tools_Inl)
  qed
qed

end
