(* ===== verification/Http_Server.thy ===== *)
theory Http_Server
  imports Runtime "HOL-Library.Sublist"
begin

text \<open>
  What \<^verbatim>\<open>http_server.cpp\<close> adds to the handlers, the cross-origin header and the order of shutting
  down, and the test page of \<^verbatim>\<open>test_ui.cpp\<close>.

  The framework is a parameter: its run loop is a function of the runtime. The test page puts JSON
  inside a script element, so \<open>escape_script_json\<close> rewrites every \<open></\<close>; the code searches and
  replaces in place, with \<open>str_find\<close> for \<^verbatim>\<open>std::string::find\<close>, and is shown to be a single pass.
  Both parts of the page are generated at build time and are arguments.
\<close>

section \<open>Cross-origin requests\<close>

fun cors_loop :: "string list \<Rightarrow> string \<Rightarrow> string option" where
  "cors_loop [] origin = None"
| "cors_loop (allowed # rest) origin =
     (if allowed = ''*'' then Some ''*''
      else if allowed = origin then Some origin
      else cors_loop rest origin)"

definition add_header :: "string \<Rightarrow> string \<Rightarrow> http_response \<Rightarrow> http_response" where
  "add_header name value resp = resp\<lparr>resp_headers := resp_headers resp @ [(name, value)]\<rparr>"

text \<open>The advice runs after every handler, when some origin is configured; an absent header is empty.\<close>

definition cors_advice :: "'ac server_config \<Rightarrow> string \<Rightarrow> http_response \<Rightarrow> http_response" where
  "cors_advice config origin resp =
     (if cors_allow_origins (http config) = [] \<or> origin = [] then resp
      else case cors_loop (cors_allow_origins (http config)) origin of
             None \<Rightarrow> resp
           | Some value \<Rightarrow> add_header ''Access-Control-Allow-Origin'' value resp)"

lemma find_SomeD: "find P xs = Some x \<Longrightarrow> x \<in> set xs \<and> P x"
  by (induction xs) (auto split: if_splits)

lemma cors_loop_eq:
  "cors_loop allowed origin =
     (case find (\<lambda>a. a = ''*'' \<or> a = origin) allowed of
        None \<Rightarrow> None | Some a \<Rightarrow> Some (if a = ''*'' then ''*'' else origin))"
  by (induction allowed) auto

section \<open>Running the server\<close>

text \<open>
  \<^verbatim>\<open>HttpServer::run\<close>: \<open>loop\<close> is the framework's run, which returns when a signal has told it to
  quit; then the runtime is stopped. The result is the exit status.
\<close>

definition http_server_run ::
  "('task \<Rightarrow> ('ag, 'ac, 'task, 'z) server_runtime_scheme \<Rightarrow> ('ag, 'ac, 'task, 'z) server_runtime_scheme) \<Rightarrow>
     'ag agent_ops \<Rightarrow>
     (('ag, 'ac, 'task, 'z) server_runtime_scheme \<Rightarrow> ('ag, 'ac, 'task, 'z) server_runtime_scheme) \<Rightarrow>
     ('ag, 'ac, 'task, 'z) server_runtime_scheme option \<Rightarrow>
     int \<times> ('ag, 'ac, 'task, 'z) server_runtime_scheme option" where
  "http_server_run run ops loop runtime =
     (case runtime of
        None \<Rightarrow> (1, None)
      | Some rt \<Rightarrow> (0, Some (runtime_stop run ops (loop rt))))"

section \<open>The test page\<close>

definition str_find :: "string \<Rightarrow> string \<Rightarrow> nat \<Rightarrow> nat option" where
  "str_find needle s pos = find (\<lambda>i. take (length needle) (drop i s) = needle) [pos..<Suc (length s)]"

definition escaped_close :: string where
  "escaped_close = [CHR ''<'', CHR 0x5C, CHR ''/'']"

lemma str_find_Some:
  assumes "str_find needle s pos = Some i"
  shows "pos \<le> i" and "take (length needle) (drop i s) = needle"
    and "\<forall>j. pos \<le> j \<and> j < i \<longrightarrow> take (length needle) (drop j s) \<noteq> needle"
proof -
  from assms obtain k where k: "k < length [pos..<Suc (length s)]" "i = [pos..<Suc (length s)] ! k"
      "take (length needle) (drop i s) = needle"
      "\<forall>j < k. take (length needle) (drop ([pos..<Suc (length s)] ! j) s) \<noteq> needle"
    by (auto simp: str_find_def find_Some_iff simp del: upt_Suc)
  then have i: "i = pos + k" by (simp del: upt_Suc)
  then show "pos \<le> i" by simp
  show "take (length needle) (drop i s) = needle" by (rule k(3))
  show "\<forall>j. pos \<le> j \<and> j < i \<longrightarrow> take (length needle) (drop j s) \<noteq> needle"
  proof (intro allI impI)
    fix j assume "pos \<le> j \<and> j < i"
    then have "j - pos < k" "[pos..<Suc (length s)] ! (j - pos) = j"
      using i k(1) by (auto simp del: upt_Suc)
    with k(4) show "take (length needle) (drop j s) \<noteq> needle" by metis
  qed
qed

lemma str_find_close:
  assumes "str_find ''</'' s pos = Some i"
  shows "pos \<le> i \<and> Suc i < length s"
proof -
  have "length (take (length ''</'') (drop i s)) = 2" using str_find_Some(2) [OF assms] by simp
  with str_find_Some(1) [OF assms] show ?thesis by simp
qed

function escape_script_loop :: "string \<Rightarrow> nat \<Rightarrow> string" where
  "escape_script_loop json pos =
     (case str_find ''</'' json pos of
        None \<Rightarrow> json
      | Some i \<Rightarrow> escape_script_loop (take i json @ escaped_close @ drop (i + 2) json) (i + 3))"
  by pat_completeness auto

termination
proof (relation "measure (\<lambda>(json, pos). length json - pos)")
  fix json :: string and pos i
  assume "str_find ''</'' json pos = Some i"
  from str_find_close [OF this]
  show "((take i json @ escaped_close @ drop (i + 2) json, i + 3), json, pos)
    \<in> measure (\<lambda>(json, pos). length json - pos)"
    by (simp add: escaped_close_def) arith
qed simp

declare escape_script_loop.simps [simp del]

definition escape_script_json :: "string \<Rightarrow> string" where
  "escape_script_json json = escape_script_loop json 0"

definition test_ui_body :: "json_api \<Rightarrow> string \<Rightarrow> string \<Rightarrow> health_snapshot \<Rightarrow> string" where
  "test_ui_body api html_prefix html_suffix snapshot =
     html_prefix @ escape_script_json (json_dump api (json_object
       [(''health'', json_object
          [(''ready'', JBool (hs_ready snapshot)),
           (''model'', json_object [(''id'', JString (hs_model_id snapshot))]),
           (''sessions'', json_object
             [(''enabled'', JBool (sh_enabled (hs_sessions snapshot))),
              (''active'', JUInt (sh_active (hs_sessions snapshot))),
              (''max_sessions'', JUInt (sh_max_sessions (hs_sessions snapshot))),
              (''idle_ttl_seconds'', JUInt (sh_idle_ttl_seconds (hs_sessions snapshot)))])])])) @ html_suffix"

definition make_test_ui_response :: "json_api \<Rightarrow> string \<Rightarrow> string \<Rightarrow> health_snapshot \<Rightarrow> http_response" where
  "make_test_ui_response api html_prefix html_suffix snapshot =
     \<lparr>resp_status = 200, resp_content_type = Some ''text/html; charset=utf-8'',
      resp_body = test_ui_body api html_prefix html_suffix snapshot,
      resp_headers = [(''Cache-Control'', ''no-store'')]\<rparr>"

definition test_ui_route ::
  "json_api \<Rightarrow> 'ag agent_ops \<Rightarrow> string \<Rightarrow> string \<Rightarrow> string \<Rightarrow> ('ag, 'ac, 'task, 'z) server_runtime_scheme option \<Rightarrow>
     http_response" where
  "test_ui_route api ops version html_prefix html_suffix runtime =
     make_test_ui_response api html_prefix html_suffix
       (case runtime of
          None \<Rightarrow> \<lparr>hs_ready = False, hs_model_id = [],
                   hs_sessions = \<lparr>sh_enabled = False, sh_active = 0, sh_max_sessions = 0, sh_idle_ttl_seconds = 0\<rparr>,
                   hs_version = version\<rparr>
        | Some rt \<Rightarrow> make_health_snapshot ops version rt)"

section \<open>The escaping is one pass\<close>

fun escape_close :: "string \<Rightarrow> string" where
  "escape_close [] = []"
| "escape_close [c] = [c]"
| "escape_close (c # d # s) =
     (if c = CHR ''<'' \<and> d = CHR ''/'' then escaped_close @ escape_close s else c # escape_close (d # s))"

lemma escape_close_none:
  "\<forall>j. take 2 (drop j s) \<noteq> ''</'' \<Longrightarrow> escape_close s = s"
proof (induction s rule: escape_close.induct)
  case (3 c d s)
  from 3(3) have "take 2 (drop 0 (c # d # s)) \<noteq> ''</''" by blast
  moreover have "\<forall>j. take 2 (drop j (d # s)) \<noteq> ''</''"
    using 3(3) by (metis drop_Suc_Cons)
  ultimately show ?case using 3(2) by auto
qed simp_all

lemma escape_close_first:
  assumes "take 2 (drop i s) = ''</''" and "\<forall>j < i. take 2 (drop j s) \<noteq> ''</''"
  shows "escape_close s = take i s @ escaped_close @ escape_close (drop (i + 2) s)"
  using assms
proof (induction i arbitrary: s)
  case 0
  then show ?case by (cases s rule: escape_close.cases) auto
next
  case (Suc i)
  then obtain c s' where s: "s = c # s'" by (cases s) auto
  from s Suc.prems(1) have first: "take 2 (drop i s') = ''</''" by simp
  have "take 2 (drop j s') \<noteq> ''</''" if "j < i" for j
    using Suc.prems(2) that s by (metis Suc_mono drop_Suc_Cons)
  with first have ih: "escape_close s' = take i s' @ escaped_close @ escape_close (drop (i + 2) s')"
    by (intro Suc.IH) simp_all
  have "take 2 s \<noteq> ''</''" using Suc.prems(2) by (metis drop0 zero_less_Suc)
  moreover obtain d s'' where "s' = d # s''" using first by (cases s') auto
  ultimately have "escape_close s = c # escape_close s'" using s by auto
  with ih s show ?case by simp
qed

lemma escape_script_loop_eq:
  "pos \<le> length json \<Longrightarrow> escape_script_loop json pos = take pos json @ escape_close (drop pos json)"
proof (induction json pos rule: escape_script_loop.induct)
  case (1 json pos)
  show ?case
  proof (cases "str_find ''</'' json pos")
    case None
    have "take 2 (drop j (drop pos json)) \<noteq> ''</''" for j
    proof (cases "pos + j \<le> length json")
      case True
      then have "pos + j \<in> set [pos..<Suc (length json)]" by (simp only: set_upt) simp
      with None have "take (length ''</'') (drop (pos + j) json) \<noteq> ''</''"
        unfolding str_find_def find_None_iff by blast
      then show ?thesis by (simp add: add.commute numeral_2_eq_2)
    qed simp
    then have "escape_close (drop pos json) = drop pos json" by (intro escape_close_none allI)
    with None show ?thesis by (simp add: escape_script_loop.simps)
  next
    case (Some i)
    note found = str_find_Some [OF Some] and bound = str_find_close [OF Some]
    let ?json = "take i json @ escaped_close @ drop (i + 2) json"
    have first: "escape_close (drop pos json) =
        take (i - pos) (drop pos json) @ escaped_close @ escape_close (drop (i - pos + 2) (drop pos json))"
      using found bound by (intro escape_close_first) (auto simp: numeral_2_eq_2)
    have before: "take i json = take pos json @ take (i - pos) (drop pos json)"
      using bound by (metis le_add_diff_inverse take_add)
    have after: "drop (i - pos + 2) (drop pos json) = drop (i + 2) json" using bound by simp
    have "take pos json @ escape_close (drop pos json) =
        take i json @ escaped_close @ escape_close (drop (i + 2) json)"
      by (simp only: first before after append_assoc)
    also have "\<dots> = take (i + 3) ?json @ escape_close (drop (i + 3) ?json)"
      using bound by (simp add: escaped_close_def min_def)
    also have "\<dots> = escape_script_loop ?json (i + 3)"
    proof -
      have "i + 3 \<le> length ?json" using bound by (simp add: escaped_close_def) arith
      from 1(1) [OF Some this] show ?thesis by (rule sym)
    qed
    finally show ?thesis using Some by (simp add: escape_script_loop.simps)
  qed
qed

lemma escape_close_Nil [simp]: "escape_close s = [] \<longleftrightarrow> s = []"
  by (induction s rule: escape_close.induct) (auto simp: escaped_close_def)

lemma hd_escape_close: "s \<noteq> [] \<Longrightarrow> hd (escape_close s) = hd s"
  by (induction s rule: escape_close.induct) (auto simp: escaped_close_def)

lemma no_close_Cons:
  "\<not> sublist ''</'' (c # s) \<longleftrightarrow> \<not> sublist ''</'' s \<and> \<not> (c = CHR ''<'' \<and> s \<noteq> [] \<and> hd s = CHR ''/'')"
  by (cases s) (auto simp: sublist_Cons_right)

lemma escape_close_safe: "\<not> sublist ''</'' (escape_close s)"
proof (induction s rule: escape_close.induct)
  case (3 c d s)
  then show ?case
    using hd_escape_close [of "d # s"] by (auto simp: escaped_close_def no_close_Cons)
qed (auto simp: no_close_Cons)

section \<open>Properties\<close>

text \<open>
  C40. The search-and-replace of the test page ends on every input, equals one left-to-right pass, and
  its result contains no \<open></\<close>, so no value in the JSON, a model name for instance, closes the
  script element it is written into.
\<close>

theorem script_json_cannot_close_element:
  "escape_script_json json = escape_close json \<and> \<not> sublist ''</'' (escape_script_json json)"
  using escape_close_safe [of json] by (simp add: escape_script_json_def escape_script_loop_eq)

text \<open>
  The cross-origin header. A response gets it exactly when the request names an origin and that
  origin or \<open>*\<close> is configured; its value is the request's own origin or \<open>*\<close>, \<open>*\<close> only when it is
  configured; nothing else of the response changes.
\<close>

theorem cors_header_exact:
  "let allowed = cors_allow_origins (http config);
       granted = drop (length (resp_headers resp)) (resp_headers (cors_advice config origin resp))
   in (granted \<noteq> [] \<longleftrightarrow> origin \<noteq> [] \<and> (origin \<in> set allowed \<or> ''*'' \<in> set allowed))
    \<and> set granted \<subseteq> {(''Access-Control-Allow-Origin'', v) |v. v \<in> set allowed \<and> (v = origin \<or> v = ''*'')}
    \<and> length granted \<le> 1
    \<and> (cors_advice config origin resp)\<lparr>resp_headers := resp_headers resp\<rparr> = resp"
proof -
  let ?allowed = "cors_allow_origins (http config)"
  consider "origin = []" | "origin \<noteq> []" "find (\<lambda>a. a = ''*'' \<or> a = origin) ?allowed = None"
    | a where "origin \<noteq> []" "find (\<lambda>a. a = ''*'' \<or> a = origin) ?allowed = Some a"
    by (cases "find (\<lambda>a. a = ''*'' \<or> a = origin) ?allowed") auto
  then show ?thesis
  proof cases
    case 1
    then show ?thesis by (simp add: cors_advice_def Let_def)
  next
    case 2
    then have "\<forall>a \<in> set ?allowed. \<not> (a = ''*'' \<or> a = origin)" by (auto simp: find_None_iff)
    with 2 show ?thesis by (auto simp: cors_advice_def cors_loop_eq Let_def)
  next
    case 3
    from find_SomeD [OF 3(2)] have a: "a \<in> set ?allowed" "a = ''*'' \<or> a = origin" by simp_all
    then have "?allowed \<noteq> []" by auto
    then have "cors_advice config origin resp =
        add_header ''Access-Control-Allow-Origin'' (if a = ''*'' then ''*'' else origin) resp"
      using 3 by (simp add: cors_advice_def cors_loop_eq)
    with a 3(1) show ?thesis by (auto simp: add_header_def Let_def)
  qed
qed

end
