(* ===== verification/Controller.thy ===== *)
theory Controller
  imports Runtime Stream_Session Disconnect
begin

text \<open>
  The request controllers: \<^verbatim>\<open>completion_controller.cpp\<close> and the functions \<^verbatim>\<open>start_*\<close> of
  \<^verbatim>\<open>api_routes.cpp\<close>.

  A controller starts a request on the chat service and answers its client at once, if the result
  is there, or leaves a task with the executor that will. The record \<open>server\<close> extends the runtime
  with what the controllers own: the event-stream sessions, the disconnect registry and the log of
  answers given. A client is a number; \<open>reply\<close> is the call of the client's callback, which
  \<^verbatim>\<open>with_metrics\<close> has wrapped. A task is the data its lambda captures, and \<open>run_task\<close> its body; what
  the futures of the library finally hold are the fields \<open>en_completions\<close> and \<open>en_extractions\<close> of the
  environment, and \<^verbatim>\<open>ResponseStream::send\<close> is \<open>en_accepts\<close>.

  The lambda is built by moving the pending request and the callback into it before the executor is
  asked, so when the executor refuses, both are moved-from objects. The language leaves a moved-from
  \<^verbatim>\<open>std::function\<close> unspecified; the parameter \<open>moved\<close> says what it holds, and calling an empty one
  throws \<^verbatim>\<open>std::bad_function_call\<close>, the outcome \<open>Bad_function_call\<close>. The refused task is destroyed
  before the submission returns, and with it the last owner of the lease.
\<close>

datatype disconnect_action = Drop_chat nat u64 | Drop_extraction nat u64

datatype 'c task =
    Answer_completion nat "completion_result pending"
  | Answer_extraction nat "extraction_result pending"
  | Finish_chat nat "('c \<times> u64) option" "completion_result pending"
  | Finish_extraction nat "('c \<times> u64) option" "extraction_result pending"

record ('ag, 'ac, 'c) server = "('ag, 'ac, 'c task) server_runtime" +
  cl_sent :: "(nat \<times> http_response) list"
  cl_chats :: "nat \<Rightarrow> chat_stream"
  cl_extractions :: "nat \<Rightarrow> stream_session"
  cl_registry :: "('c, disconnect_action) disconnect_registry"

record 'ag environment =
  en_ops :: "'ag agent_ops"
  en_api :: json_api
  en_status :: "tool_invocation_status \<Rightarrow> string"
  en_validator :: role_validator
  en_accepts :: "nat \<Rightarrow> wire"
  en_completions :: "u64 \<Rightarrow> completion_result runtime_result"
  en_extractions :: "u64 \<Rightarrow> extraction_result runtime_result"

datatype moved_function = Left_empty | Left_intact

datatype outcome = Returned | Bad_function_call

text \<open>The clock readings of finalising: the store's touch on commit and on release.\<close>

record finish_readings =
  fk_commit :: int
  fk_release :: int

section \<open>Answers\<close>

definition reply :: "nat \<Rightarrow> http_response \<Rightarrow> ('ag, 'ac, 'c) server \<Rightarrow> ('ag, 'ac, 'c) server" where
  "reply client resp srv =
     srv\<lparr>sr_metrics := with_metrics resp (sr_metrics srv), cl_sent := cl_sent srv @ [(client, resp)]\<rparr>"

definition reply_error :: "'ag environment \<Rightarrow> nat \<Rightarrow> api_error \<Rightarrow> ('ag, 'ac, 'c) server \<Rightarrow> ('ag, 'ac, 'c) server" where
  "reply_error env client e srv = reply client (make_error_response (en_api env) e) srv"

text \<open>A start that failed: a full queue is counted, and the error is the answer.\<close>

definition reply_start_error ::
  "'ag environment \<Rightarrow> nat \<Rightarrow> api_error \<Rightarrow> ('ag, 'ac, 'c) server \<Rightarrow> ('ag, 'ac, 'c) server" where
  "reply_start_error env client e srv =
     (let srv = (if err_code e = Some ''queue_full''
                 then srv\<lparr>sr_metrics := increment_queue_rejected (sr_metrics srv)\<rparr> else srv)
      in reply_error env client e srv)"

definition server_busy_error :: api_error where
  "server_busy_error =
     service_unavailable_error ''Server continuation executor is saturated'' (Some ''server_busy'')"

definition release_pending :: "finish_readings \<Rightarrow> release_action \<Rightarrow> ('ag, 'ac, 'c) server \<Rightarrow> ('ag, 'ac, 'c) server" where
  "release_pending fk lease srv = srv\<lparr>sr_service := run_release (fk_release fk) lease (sr_service srv)\<rparr>"

definition finalize_completion ::
  "finish_readings \<Rightarrow> completion_result pending \<Rightarrow> completion_result runtime_result \<Rightarrow>
     ('ag, 'ac, 'c) server \<Rightarrow> ('ag, 'ac, 'c) server" where
  "finalize_completion fk p result srv =
     (let srv = srv\<lparr>sr_service := observe (fk_commit fk) (pd_on_result p) result (sr_service srv)\<rparr>
      in release_pending fk (pd_lease p) srv)"

definition finalize_extraction ::
  "finish_readings \<Rightarrow> extraction_result pending \<Rightarrow> extraction_result runtime_result \<Rightarrow>
     ('ag, 'ac, 'c) server \<Rightarrow> ('ag, 'ac, 'c) server" where
  "finalize_extraction fk p result srv =
     (let srv = srv\<lparr>sr_service := observe_extraction (fk_commit fk) (pd_on_result p) result (sr_service srv)\<rparr>
      in release_pending fk (pd_lease p) srv)"

text \<open>The branches on the result, the same in the immediate and in the deferred answer.\<close>

definition answer_completion ::
  "'ag environment \<Rightarrow> finish_readings \<Rightarrow> nat \<Rightarrow> completion_result pending \<Rightarrow> completion_result runtime_result \<Rightarrow>
     ('ag, 'ac, 'c) server \<Rightarrow> ('ag, 'ac, 'c) server" where
  "answer_completion env fk client p result srv =
     (case result of
        Inl e \<Rightarrow>
          let srv = srv\<lparr>sr_metrics := increment_runtime_error_metrics e (sr_metrics srv)\<rparr>;
              srv = finalize_completion fk p result srv
          in reply_error env client (map_runtime_error_to_api_error e) srv
      | Inr r \<Rightarrow>
          let srv = srv\<lparr>sr_metrics := increment_tool_metrics (cr_tool_invocations r) (sr_metrics srv)\<rparr>;
              srv = finalize_completion fk p result srv
          in reply client (make_chat_completion_response (en_api env) (en_status env)
               (pd_id p) (pd_created p) (pd_model p) r) srv)"

definition answer_extraction ::
  "'ag environment \<Rightarrow> finish_readings \<Rightarrow> nat \<Rightarrow> extraction_result pending \<Rightarrow> extraction_result runtime_result \<Rightarrow>
     ('ag, 'ac, 'c) server \<Rightarrow> ('ag, 'ac, 'c) server" where
  "answer_extraction env fk client p result srv =
     (case result of
        Inl e \<Rightarrow>
          let srv = srv\<lparr>sr_metrics := increment_runtime_error_metrics e (sr_metrics srv)\<rparr>;
              srv = finalize_extraction fk p result srv
          in reply_error env client (map_runtime_error_to_api_error e) srv
      | Inr r \<Rightarrow>
          let srv = srv\<lparr>sr_metrics := increment_tool_metrics (er_tool_invocations r) (sr_metrics srv)\<rparr>;
              srv = finalize_extraction fk p result srv
          in reply client (make_extraction_response (en_api env) (en_status env)
               (pd_id p) (pd_created p) (pd_model p) r) srv)"

text \<open>
  After a refused submission. The task is gone, its lease released; then the moved-from objects
  are used: first \<^verbatim>\<open>pending->cancel\<close>, then the lease pointer, which is null, then the callback.
\<close>

definition refused ::
  "'ag environment \<Rightarrow> moved_function \<Rightarrow> nat \<Rightarrow> u64 \<Rightarrow> ('ag, 'ac, 'c) server \<Rightarrow> outcome \<times> ('ag, 'ac, 'c) server" where
  "refused env moved client cancel srv =
     (case moved of
        Left_empty \<Rightarrow> (Bad_function_call, srv)
      | Left_intact \<Rightarrow>
          let srv = srv\<lparr>sr_service := run_cancel (en_ops env) cancel (sr_service srv)\<rparr>
          in (Returned, reply_error env client server_busy_error srv))"

section \<open>Requests without a stream\<close>

text \<open>\<^verbatim>\<open>get\<close> of a handle that was just found ready does not block; the last branch is never taken.\<close>

definition start_non_stream_completion ::
  "'ag environment \<Rightarrow> moved_function \<Rightarrow> clock_readings \<Rightarrow> finish_readings \<Rightarrow> nat \<Rightarrow> chat_completion_request \<Rightarrow>
     ('ag, 'ac, 'c) server \<Rightarrow> outcome \<times> ('ag, 'ac, 'c) server" where
  "start_non_stream_completion env moved ck fk client request srv =
     (let (pending, service) = start_completion (en_ops env) ck request (sr_service srv);
          srv = srv\<lparr>sr_service := service\<rparr>
      in case pending of
           Inl e \<Rightarrow> (Returned, reply_start_error env client e srv)
         | Inr p \<Rightarrow>
             if completion_wait_for (pd_handle p) = Ready then
               (case completion_get (pd_handle p) of
                  Some (result, h) \<Rightarrow> (Returned, answer_completion env fk client p result srv)
                | None \<Rightarrow> (Returned, srv))
             else
               (case submit_background (Answer_completion client p) srv of
                  (Inr _, srv) \<Rightarrow> (Returned, srv)
                | (Inl _, srv) \<Rightarrow> refused env moved client (pd_cancel p) (release_pending fk (pd_lease p) srv)))"

definition start_agent_chat_request ::
  "'ag environment \<Rightarrow> moved_function \<Rightarrow> clock_readings \<Rightarrow> finish_readings \<Rightarrow> nat \<Rightarrow> agent_chat_request \<Rightarrow>
     ('ag, 'ac, 'c) server \<Rightarrow> outcome \<times> ('ag, 'ac, 'c) server" where
  "start_agent_chat_request env moved ck fk client request srv =
     (let (pending, service) = start_agent_chat (en_ops env) (en_validator env) ck request (sr_service srv);
          srv = srv\<lparr>sr_service := service\<rparr>
      in case pending of
           Inl e \<Rightarrow> (Returned, reply_start_error env client e srv)
         | Inr p \<Rightarrow>
             if completion_wait_for (pd_handle p) = Ready then
               (case completion_get (pd_handle p) of
                  Some (result, h) \<Rightarrow> (Returned, answer_completion env fk client p result srv)
                | None \<Rightarrow> (Returned, srv))
             else
               (case submit_background (Answer_completion client p) srv of
                  (Inr _, srv) \<Rightarrow> (Returned, srv)
                | (Inl _, srv) \<Rightarrow> refused env moved client (pd_cancel p) (release_pending fk (pd_lease p) srv)))"

definition start_non_stream_extraction ::
  "'ag environment \<Rightarrow> moved_function \<Rightarrow> clock_readings \<Rightarrow> finish_readings \<Rightarrow> nat \<Rightarrow> extraction_request \<Rightarrow>
     ('ag, 'ac, 'c) server \<Rightarrow> outcome \<times> ('ag, 'ac, 'c) server" where
  "start_non_stream_extraction env moved ck fk client request srv =
     (let (pending, service) = start_extraction (en_ops env) ck request (sr_service srv);
          srv = srv\<lparr>sr_service := service\<rparr>
      in case pending of
           Inl e \<Rightarrow> (Returned, reply_start_error env client e srv)
         | Inr p \<Rightarrow>
             if extraction_wait_for (pd_handle p) = Ready then
               (case extraction_get (pd_handle p) of
                  Some (result, h) \<Rightarrow> (Returned, answer_extraction env fk client p result srv)
                | None \<Rightarrow> (Returned, srv))
             else
               (case submit_background (Answer_extraction client p) srv of
                  (Inr _, srv) \<Rightarrow> (Returned, srv)
                | (Inl _, srv) \<Rightarrow> refused env moved client (pd_cancel p) (release_pending fk (pd_lease p) srv)))"

section \<open>Streamed requests\<close>

text \<open>
  An operation on a client's session; when it ran the cancel callback, the callback has cancelled
  the request on the agent.
\<close>

definition on_chat ::
  "'ag environment \<Rightarrow> nat \<Rightarrow> u64 \<Rightarrow> (chat_stream \<Rightarrow> chat_stream) \<Rightarrow> ('ag, 'ac, 'c) server \<Rightarrow> ('ag, 'ac, 'c) server" where
  "on_chat env client cancel f srv =
     (let s = cl_chats srv client; s' = f s;
          srv = srv\<lparr>cl_chats := (cl_chats srv)(client := s')\<rparr>
      in if cancels_run s' \<noteq> cancels_run s
         then srv\<lparr>sr_service := run_cancel (en_ops env) cancel (sr_service srv)\<rparr> else srv)"

definition on_extraction ::
  "'ag environment \<Rightarrow> nat \<Rightarrow> u64 \<Rightarrow> (stream_session \<Rightarrow> stream_session) \<Rightarrow> ('ag, 'ac, 'c) server \<Rightarrow> ('ag, 'ac, 'c) server" where
  "on_extraction env client cancel f srv =
     (let s = cl_extractions srv client; s' = f s;
          srv = srv\<lparr>cl_extractions := (cl_extractions srv)(client := s')\<rparr>
      in if cancels_run s' \<noteq> cancels_run s
         then srv\<lparr>sr_service := run_cancel (en_ops env) cancel (sr_service srv)\<rparr> else srv)"

definition watch_connection ::
  "'c option \<Rightarrow> disconnect_action \<Rightarrow> ('ag, 'ac, 'c) server \<Rightarrow> ('c \<times> u64) option \<times> ('ag, 'ac, 'c) server" where
  "watch_connection connection action srv =
     (case connection of
        None \<Rightarrow> (None, srv)
      | Some c \<Rightarrow> (case track c (Some action) (cl_registry srv) of
                    (callback_id, r) \<Rightarrow> (Some (c, callback_id), srv\<lparr>cl_registry := r\<rparr>)))"

text \<open>Clearing the callback: \<open>alive\<close> says whether the weak pointer to the connection still locks.\<close>

definition unwatch_connection ::
  "('c \<Rightarrow> bool) \<Rightarrow> ('c \<times> u64) option \<Rightarrow> ('ag, 'ac, 'c) server \<Rightarrow> ('ag, 'ac, 'c) server" where
  "unwatch_connection alive watch srv =
     (case watch of
        None \<Rightarrow> srv
      | Some (c, callback_id) \<Rightarrow> if alive c then srv\<lparr>cl_registry := clear c callback_id (cl_registry srv)\<rparr> else srv)"

text \<open>\<open>early\<close> are the tokens the agent's thread delivers before the metadata is set.\<close>

definition start_stream_completion ::
  "'ag environment \<Rightarrow> moved_function \<Rightarrow> clock_readings \<Rightarrow> finish_readings \<Rightarrow> ('c \<Rightarrow> bool) \<Rightarrow> nat \<Rightarrow> 'c option \<Rightarrow>
     string list \<Rightarrow> chat_completion_request \<Rightarrow> ('ag, 'ac, 'c) server \<Rightarrow> outcome \<times> ('ag, 'ac, 'c) server" where
  "start_stream_completion env moved ck fk alive client connection early request srv =
     (let accepts = en_accepts env client;
          session = fold (push_token accepts) early new_chat_stream;
          (pending, service) = start_completion (en_ops env) ck request (sr_service srv);
          srv = srv\<lparr>sr_service := service\<rparr>
      in case pending of
           Inl e \<Rightarrow> (Returned, reply_start_error env client e srv)
         | Inr p \<Rightarrow>
             let session = set_metadata accepts (pd_id p) (pd_created p) (pd_model p) session;
                 session = set_cancel_callback session
             in if completion_wait_for (pd_handle p) = Ready then
                  (case completion_get (pd_handle p) of
                     None \<Rightarrow> (Returned, srv)
                   | Some (Inl e, h) \<Rightarrow> (Returned, answer_completion env fk client p (Inl e) srv)
                   | Some (Inr r, h) \<Rightarrow>
                       let srv = srv\<lparr>sr_metrics := increment_tool_metrics (cr_tool_invocations r) (sr_metrics srv)\<rparr>;
                           session = finish_success accepts r session;
                           srv = finalize_completion fk p (Inr r) srv
                       in (Returned, reply client make_stream_response
                            (srv\<lparr>cl_chats := (cl_chats srv)(client := session)\<rparr>)))
                else
                  let srv = srv\<lparr>cl_chats := (cl_chats srv)(client := session)\<rparr>;
                      (watch, srv) = watch_connection connection (Drop_chat client (pd_cancel p)) srv
                  in (case submit_background (Finish_chat client watch p) srv of
                        (Inr _, srv) \<Rightarrow> (Returned, reply client make_stream_response srv)
                      | (Inl _, srv) \<Rightarrow>
                          refused env moved client (pd_cancel p)
                            (unwatch_connection alive watch (release_pending fk (pd_lease p) srv))))"

definition start_stream_extraction ::
  "'ag environment \<Rightarrow> moved_function \<Rightarrow> clock_readings \<Rightarrow> finish_readings \<Rightarrow> ('c \<Rightarrow> bool) \<Rightarrow> nat \<Rightarrow> 'c option \<Rightarrow>
     string list \<Rightarrow> extraction_request \<Rightarrow> ('ag, 'ac, 'c) server \<Rightarrow> outcome \<times> ('ag, 'ac, 'c) server" where
  "start_stream_extraction env moved ck fk alive client connection early request srv =
     (let accepts = en_accepts env client;
          session = fold (extraction_push_token (en_api env) accepts) early new_stream;
          (pending, service) = start_extraction (en_ops env) ck request (sr_service srv);
          srv = srv\<lparr>sr_service := service\<rparr>
      in case pending of
           Inl e \<Rightarrow> (Returned, reply_start_error env client e srv)
         | Inr p \<Rightarrow>
             let session = extraction_set_metadata (en_api env) accepts (pd_id p) (pd_created p) (pd_model p) session;
                 session = set_cancel_callback session
             in if extraction_wait_for (pd_handle p) = Ready then
                  (case extraction_get (pd_handle p) of
                     None \<Rightarrow> (Returned, srv)
                   | Some (Inl e, h) \<Rightarrow> (Returned, answer_extraction env fk client p (Inl e) srv)
                   | Some (Inr r, h) \<Rightarrow>
                       let srv = srv\<lparr>sr_metrics := increment_tool_metrics (er_tool_invocations r) (sr_metrics srv)\<rparr>;
                           session = extraction_finish_success (en_api env) (en_status env) accepts r session;
                           srv = finalize_extraction fk p (Inr r) srv
                       in (Returned, reply client make_stream_response
                            (srv\<lparr>cl_extractions := (cl_extractions srv)(client := session)\<rparr>)))
                else
                  let srv = srv\<lparr>cl_extractions := (cl_extractions srv)(client := session)\<rparr>;
                      (watch, srv) = watch_connection connection (Drop_extraction client (pd_cancel p)) srv
                  in (case submit_background (Finish_extraction client watch p) srv of
                        (Inr _, srv) \<Rightarrow> (Returned, reply client make_stream_response srv)
                      | (Inl _, srv) \<Rightarrow>
                          refused env moved client (pd_cancel p)
                            (unwatch_connection alive watch (release_pending fk (pd_lease p) srv))))"

section \<open>Tasks\<close>

text \<open>\<^verbatim>\<open>pending.handle.get()\<close> in a task waits for the future; what it then holds is the argument.\<close>

definition deliver :: "'r runtime_result \<Rightarrow> 'r handle \<Rightarrow> 'r handle" where
  "deliver r h = h\<lparr>handle_state := map_option (\<lambda>s. s\<lparr>future := Some r\<rparr>) (handle_state h)\<rparr>"

definition finish_chat_stream ::
  "'ag environment \<Rightarrow> finish_readings \<Rightarrow> nat \<Rightarrow> completion_result pending \<Rightarrow> completion_result runtime_result \<Rightarrow>
     ('ag, 'ac, 'c) server \<Rightarrow> ('ag, 'ac, 'c) server" where
  "finish_chat_stream env fk client p result srv =
     (case result of
        Inl e \<Rightarrow>
          let srv = srv\<lparr>sr_metrics := increment_runtime_error_metrics e (sr_metrics srv)\<rparr>;
              srv = on_chat env client (pd_cancel p)
                (finish_error (en_accepts env client) (en_api env) (map_runtime_error_to_api_error e)) srv
          in finalize_completion fk p result srv
      | Inr r \<Rightarrow>
          let srv = srv\<lparr>sr_metrics := increment_tool_metrics (cr_tool_invocations r) (sr_metrics srv)\<rparr>;
              srv = on_chat env client (pd_cancel p) (finish_success (en_accepts env client) r) srv
          in finalize_completion fk p result srv)"

definition finish_extraction_stream ::
  "'ag environment \<Rightarrow> finish_readings \<Rightarrow> nat \<Rightarrow> extraction_result pending \<Rightarrow> extraction_result runtime_result \<Rightarrow>
     ('ag, 'ac, 'c) server \<Rightarrow> ('ag, 'ac, 'c) server" where
  "finish_extraction_stream env fk client p result srv =
     (case result of
        Inl e \<Rightarrow>
          let srv = srv\<lparr>sr_metrics := increment_runtime_error_metrics e (sr_metrics srv)\<rparr>;
              srv = on_extraction env client (pd_cancel p)
                (extraction_finish_error (en_api env) (en_accepts env client) (map_runtime_error_to_api_error e)) srv
          in finalize_extraction fk p result srv
      | Inr r \<Rightarrow>
          let srv = srv\<lparr>sr_metrics := increment_tool_metrics (er_tool_invocations r) (sr_metrics srv)\<rparr>;
              srv = on_extraction env client (pd_cancel p)
                (extraction_finish_success (en_api env) (en_status env) (en_accepts env client) r) srv
          in finalize_extraction fk p result srv)"

fun run_task ::
  "'ag environment \<Rightarrow> finish_readings \<Rightarrow> ('c \<Rightarrow> bool) \<Rightarrow> 'c task \<Rightarrow> ('ag, 'ac, 'c) server \<Rightarrow> ('ag, 'ac, 'c) server" where
  "run_task env fk alive (Answer_completion client p) srv =
     (case completion_get (deliver (en_completions env (pd_cancel p)) (pd_handle p)) of
        None \<Rightarrow> srv | Some (result, h) \<Rightarrow> answer_completion env fk client p result srv)"
| "run_task env fk alive (Answer_extraction client p) srv =
     (case extraction_get (deliver (en_extractions env (pd_cancel p)) (pd_handle p)) of
        None \<Rightarrow> srv | Some (result, h) \<Rightarrow> answer_extraction env fk client p result srv)"
| "run_task env fk alive (Finish_chat client watch p) srv =
     (case completion_get (deliver (en_completions env (pd_cancel p)) (pd_handle p)) of
        None \<Rightarrow> srv
      | Some (result, h) \<Rightarrow> finish_chat_stream env fk client p result (unwatch_connection alive watch srv))"
| "run_task env fk alive (Finish_extraction client watch p) srv =
     (case extraction_get (deliver (en_extractions env (pd_cancel p)) (pd_handle p)) of
        None \<Rightarrow> srv
      | Some (result, h) \<Rightarrow> finish_extraction_stream env fk client p result (unwatch_connection alive watch srv))"

section \<open>Disconnects\<close>

text \<open>The callback tracked for a connection: close the session, cancel the request, count.\<close>

fun run_disconnect ::
  "'ag environment \<Rightarrow> disconnect_action \<Rightarrow> ('ag, 'ac, 'c) server \<Rightarrow> ('ag, 'ac, 'c) server" where
  "run_disconnect env (Drop_chat client cancel) srv =
     (let srv = on_chat env client cancel close_stream srv;
          srv = srv\<lparr>sr_service := run_cancel (en_ops env) cancel (sr_service srv)\<rparr>
      in srv\<lparr>sr_metrics := increment_stream_disconnects (sr_metrics srv)\<rparr>)"
| "run_disconnect env (Drop_extraction client cancel) srv =
     (let srv = on_extraction env client cancel close_stream srv;
          srv = srv\<lparr>sr_service := run_cancel (en_ops env) cancel (sr_service srv)\<rparr>
      in srv\<lparr>sr_metrics := increment_stream_disconnects (sr_metrics srv)\<rparr>)"

text \<open>The server's connection callback.\<close>

definition connection_event ::
  "'ag environment \<Rightarrow> 'c option \<Rightarrow> ('c \<Rightarrow> bool) \<Rightarrow> ('ag, 'ac, 'c) server \<Rightarrow> ('ag, 'ac, 'c) server" where
  "connection_event env connection disconnected srv =
     (case handle_connection_event connection disconnected (cl_registry srv) of
        (actions, r) \<Rightarrow> fold (\<lambda>(i, a). run_disconnect env a) actions (srv\<lparr>cl_registry := r\<rparr>))"

end
