(* ===== verification/Routes.thy ===== *)
theory Routes
  imports Controller Auth Api_Json
begin

text \<open>
  The handlers that \<^verbatim>\<open>register_api_routes\<close> (\<^verbatim>\<open>api_routes.cpp\<close>) and \<^verbatim>\<open>register_chat_completion_route\<close>
  (\<^verbatim>\<open>completion_controller.cpp\<close>) register, one definition for each.

  Every handler opens in the same way: lock the weak pointer to the runtime, check the key, wrap
  the callback in the metrics. That opening is \<open>api_handler\<close>; its argument is what follows. A
  handler finds the runtime (\<open>Some srv\<close>) or finds it destroyed (\<open>None\<close>), and then answers without
  touching any state. Matching a path and a method to a handler is the framework's; \<open>route\<close> names
  the handlers with the path parameters they take, and \<open>registration\<close> the pattern and the method
  each is registered with. The record \<open>call\<close> holds what a call of a handler finds outside the
  server: the clock, the connection and the scheduling of the agent's thread.
\<close>

record http_request =
  rq_authorization :: string
  rq_body :: string

record 'c call =
  ca_client :: nat
  ca_connection :: "'c option"
  ca_alive :: "'c \<Rightarrow> bool"
  ca_early :: "string list"
  ca_moved :: moved_function
  ca_clock :: clock_readings
  ca_finish :: finish_readings
  ca_now :: int
  ca_steady :: int

text \<open>What the runtime's description reads of zoo's types, and \<^verbatim>\<open>zoo::role_to_string\<close>.\<close>

record 'ac zoo_view =
  zv_role_name :: "message_role \<Rightarrow> string"
  zv_max_history_messages :: "'ac \<Rightarrow> json"
  zv_request_queue_capacity :: "'ac \<Rightarrow> json"
  zv_max_tool_iterations :: "'ac \<Rightarrow> json"
  zv_max_tool_retries :: "'ac \<Rightarrow> json"
  zv_double :: "32 word \<Rightarrow> 64 word"

datatype ('ag, 'ac, 'c) served = Runtime_gone http_response | Served outcome "('ag, 'ac, 'c) server"

section \<open>The common opening\<close>

definition api_handler ::
  "'ag environment \<Rightarrow> 'c call \<Rightarrow> http_request \<Rightarrow>
     (('ag, 'ac, 'c) server \<Rightarrow> outcome \<times> ('ag, 'ac, 'c) server) \<Rightarrow> ('ag, 'ac, 'c) server option \<Rightarrow>
     ('ag, 'ac, 'c) served" where
  "api_handler env ca rq body runtime =
     (case runtime of
        None \<Rightarrow> Runtime_gone (make_error_response (en_api env) (not_ready_error ''not_ready''))
      | Some srv \<Rightarrow>
          (case check_auth (api_key (sr_config srv)) (rq_authorization rq) of
             Some auth_err \<Rightarrow> Served Returned (reply_error env (ca_client ca) auth_err srv)
           | None \<Rightarrow> (case body srv of (out, srv) \<Rightarrow> Served out srv)))"

text \<open>The two ways a synchronous handler ends: the error of an operation, or its result.\<close>

definition reply_result ::
  "'ag environment \<Rightarrow> 'c call \<Rightarrow> ('r \<Rightarrow> http_response) \<Rightarrow> 'r api_result \<times> 'ag chat_service \<Rightarrow>
     ('ag, 'ac, 'c) server \<Rightarrow> outcome \<times> ('ag, 'ac, 'c) server" where
  "reply_result env ca ok result srv =
     (case result of
        (Inl e, service) \<Rightarrow> (Returned, reply_error env (ca_client ca) e (srv\<lparr>sr_service := service\<rparr>))
      | (Inr r, service) \<Rightarrow> (Returned, reply (ca_client ca) (ok r) (srv\<lparr>sr_service := service\<rparr>)))"

text \<open>A parsed body, or the parser's error as the answer.\<close>

definition with_parsed ::
  "'ag environment \<Rightarrow> 'c call \<Rightarrow> 'r api_result \<Rightarrow>
     ('r \<Rightarrow> ('ag, 'ac, 'c) server \<Rightarrow> outcome \<times> ('ag, 'ac, 'c) server) \<Rightarrow>
     ('ag, 'ac, 'c) server \<Rightarrow> outcome \<times> ('ag, 'ac, 'c) server" where
  "with_parsed env ca parsed k srv =
     (case parsed of
        Inl e \<Rightarrow> (Returned, reply_error env (ca_client ca) e srv)
      | Inr r \<Rightarrow> k r srv)"

section \<open>Models, tools and sessions\<close>

definition models_route ::
  "'ag environment \<Rightarrow> 'c call \<Rightarrow> http_request \<Rightarrow> ('ag, 'ac, 'c) server option \<Rightarrow> ('ag, 'ac, 'c) served" where
  "models_route env ca rq = api_handler env ca rq (\<lambda>srv.
     (Returned, reply (ca_client ca) (make_models_response (en_api env) (sv_model_id (sr_service srv))) srv))"

definition tools_route ::
  "'ag environment \<Rightarrow> 'c call \<Rightarrow> http_request \<Rightarrow> ('ag, 'ac, 'c) server option \<Rightarrow> ('ag, 'ac, 'c) served" where
  "tools_route env ca rq = api_handler env ca rq (\<lambda>srv.
     (Returned, reply (ca_client ca) (make_tools_response (en_api env) (sv_tool_metadata (sr_service srv))) srv))"

definition create_session_route ::
  "'ag environment \<Rightarrow> 'c call \<Rightarrow> http_request \<Rightarrow> ('ag, 'ac, 'c) server option \<Rightarrow> ('ag, 'ac, 'c) served" where
  "create_session_route env ca rq = api_handler env ca rq (\<lambda>srv.
     with_parsed env ca (parse_session_create_request (en_api env) (rq_body rq)) (\<lambda>request srv.
       reply_result env ca (\<lambda>session. make_session_response (en_api env) session 201)
         (service_create_session (en_ops env) request (ca_now ca) (sr_service srv)) srv) srv)"

definition get_session_route ::
  "'ag environment \<Rightarrow> 'c call \<Rightarrow> http_request \<Rightarrow> string \<Rightarrow> ('ag, 'ac, 'c) server option \<Rightarrow> ('ag, 'ac, 'c) served" where
  "get_session_route env ca rq session_id = api_handler env ca rq (\<lambda>srv.
     reply_result env ca (\<lambda>session. make_session_response (en_api env) session 200)
       (service_get_session session_id (ca_now ca) (sr_service srv)) srv)"

definition delete_session_route ::
  "'ag environment \<Rightarrow> 'c call \<Rightarrow> http_request \<Rightarrow> string \<Rightarrow> ('ag, 'ac, 'c) server option \<Rightarrow> ('ag, 'ac, 'c) served" where
  "delete_session_route env ca rq session_id = api_handler env ca rq (\<lambda>srv.
     reply_result env ca (\<lambda>_. make_no_content_response)
       (service_delete_session (en_ops env) session_id (sr_service srv)) srv)"

section \<open>Generations\<close>

definition chat_completion_route ::
  "'ag environment \<Rightarrow> 'c call \<Rightarrow> http_request \<Rightarrow> ('ag, 'ac, 'c) server option \<Rightarrow> ('ag, 'ac, 'c) served" where
  "chat_completion_route env ca rq = api_handler env ca rq
     (with_parsed env ca (parse_chat_completion_request (en_api env) (en_validator env) (rq_body rq)) (\<lambda>request srv.
       if \<not> cc_stream request
       then start_non_stream_completion env (ca_moved ca) (ca_clock ca) (ca_finish ca) (ca_client ca) request srv
       else start_stream_completion env (ca_moved ca) (ca_clock ca) (ca_finish ca) (ca_alive ca) (ca_client ca)
              (ca_connection ca) (ca_early ca) request srv))"

definition extraction_route ::
  "'ag environment \<Rightarrow> 'c call \<Rightarrow> http_request \<Rightarrow> ('ag, 'ac, 'c) server option \<Rightarrow> ('ag, 'ac, 'c) served" where
  "extraction_route env ca rq = api_handler env ca rq
     (with_parsed env ca (parse_extraction_request (en_api env) (en_validator env) (rq_body rq)) (\<lambda>request srv.
       if \<not> ex_stream request
       then start_non_stream_extraction env (ca_moved ca) (ca_clock ca) (ca_finish ca) (ca_client ca) request srv
       else start_stream_extraction env (ca_moved ca) (ca_clock ca) (ca_finish ca) (ca_alive ca) (ca_client ca)
              (ca_connection ca) (ca_early ca) request srv))"

definition agent_chat_route ::
  "'ag environment \<Rightarrow> 'c call \<Rightarrow> http_request \<Rightarrow> ('ag, 'ac, 'c) server option \<Rightarrow> ('ag, 'ac, 'c) served" where
  "agent_chat_route env ca rq = api_handler env ca rq
     (with_parsed env ca (parse_agent_chat_request (en_api env) (en_validator env) (rq_body rq))
       (start_agent_chat_request env (ca_moved ca) (ca_clock ca) (ca_finish ca) (ca_client ca)))"

definition cancel_route ::
  "'ag environment \<Rightarrow> 'c call \<Rightarrow> http_request \<Rightarrow> string \<Rightarrow> ('ag, 'ac, 'c) server option \<Rightarrow> ('ag, 'ac, 'c) served" where
  "cancel_route env ca rq request_id = api_handler env ca rq (\<lambda>srv.
     reply_result env ca (\<lambda>_. make_accepted_response (en_api env)
         (json_object [(''id'', JString request_id), (''cancelled'', JBool True)]))
       (cancel_request (en_ops env) request_id (sr_service srv)) srv)"

section \<open>The retained agent\<close>

definition history_response :: "'ag environment \<Rightarrow> 'ac zoo_view \<Rightarrow> agent_history_snapshot \<Rightarrow> http_response" where
  "history_response env zv history =
     make_json_response (en_api env) (make_agent_history_body (zv_role_name zv) history) 200"

definition get_history_route ::
  "'ag environment \<Rightarrow> 'ac zoo_view \<Rightarrow> 'c call \<Rightarrow> http_request \<Rightarrow> ('ag, 'ac, 'c) server option \<Rightarrow> ('ag, 'ac, 'c) served" where
  "get_history_route env zv ca rq = api_handler env ca rq (\<lambda>srv.
     reply_result env ca (history_response env zv)
       (get_agent_history (en_ops env) (sr_service srv), sr_service srv) srv)"

definition replace_history_route ::
  "'ag environment \<Rightarrow> 'ac zoo_view \<Rightarrow> 'c call \<Rightarrow> http_request \<Rightarrow> ('ag, 'ac, 'c) server option \<Rightarrow> ('ag, 'ac, 'c) served" where
  "replace_history_route env zv ca rq = api_handler env ca rq
     (with_parsed env ca (parse_agent_history_request (en_api env) (en_validator env) (rq_body rq)) (\<lambda>messages srv.
       reply_result env ca (history_response env zv)
         (replace_agent_history (en_ops env) messages (sr_service srv)) srv))"

definition clear_history_route ::
  "'ag environment \<Rightarrow> 'c call \<Rightarrow> http_request \<Rightarrow> ('ag, 'ac, 'c) server option \<Rightarrow> ('ag, 'ac, 'c) served" where
  "clear_history_route env ca rq = api_handler env ca rq (\<lambda>srv.
     reply_result env ca (\<lambda>_. make_no_content_response)
       (clear_agent_history (en_ops env) (sr_service srv)) srv)"

definition swap_history_route ::
  "'ag environment \<Rightarrow> 'ac zoo_view \<Rightarrow> 'c call \<Rightarrow> http_request \<Rightarrow> ('ag, 'ac, 'c) server option \<Rightarrow> ('ag, 'ac, 'c) served" where
  "swap_history_route env zv ca rq = api_handler env ca rq
     (with_parsed env ca (parse_agent_history_request (en_api env) (en_validator env) (rq_body rq)) (\<lambda>messages srv.
       reply_result env ca (history_response env zv)
         (swap_agent_history (en_ops env) messages (sr_service srv)) srv))"

definition append_message_route ::
  "'ag environment \<Rightarrow> 'ac zoo_view \<Rightarrow> 'c call \<Rightarrow> http_request \<Rightarrow> ('ag, 'ac, 'c) server option \<Rightarrow> ('ag, 'ac, 'c) served" where
  "append_message_route env zv ca rq = api_handler env ca rq
     (with_parsed env ca (parse_agent_history_message_request (en_api env) (en_validator env) (rq_body rq)) (\<lambda>message srv.
       reply_result env ca (history_response env zv)
         (append_agent_history_message (en_ops env) (en_validator env) message (sr_service srv)) srv))"

definition prompt_response :: "'ag environment \<Rightarrow> string \<Rightarrow> http_response" where
  "prompt_response env prompt =
     make_json_response (en_api env) (json_object [(''system_prompt'', JString prompt)]) 200"

definition get_prompt_route ::
  "'ag environment \<Rightarrow> 'c call \<Rightarrow> http_request \<Rightarrow> ('ag, 'ac, 'c) server option \<Rightarrow> ('ag, 'ac, 'c) served" where
  "get_prompt_route env ca rq = api_handler env ca rq (\<lambda>srv.
     reply_result env ca (prompt_response env) (get_system_prompt (sr_service srv), sr_service srv) srv)"

definition set_prompt_route ::
  "'ag environment \<Rightarrow> 'c call \<Rightarrow> http_request \<Rightarrow> ('ag, 'ac, 'c) server option \<Rightarrow> ('ag, 'ac, 'c) served" where
  "set_prompt_route env ca rq = api_handler env ca rq
     (with_parsed env ca (parse_system_prompt_request (en_api env) (rq_body rq)) (\<lambda>prompt srv.
       reply_result env ca (prompt_response env)
         (set_system_prompt (en_ops env) prompt (sr_service srv)) srv))"

section \<open>The runtime's description and the metrics\<close>

text \<open>
  The service keeps copies of the model and agent configuration it was created with, which are
  the runtime's (\<^verbatim>\<open>ServerRuntime::create\<close>); they are read there.
\<close>

definition make_runtime_body :: "'ag environment \<Rightarrow> 'ac zoo_view \<Rightarrow> ('ag, 'ac, 'c) server \<Rightarrow> json" where
  "make_runtime_body env zv srv =
     (let service = sr_service srv; config = sr_config srv;
          mc = sc_model_config config; ac = sc_agent_config config;
          gen = sv_default_generation service; sampling = go_sampling gen;
          float = (\<lambda>f. JFloat (zv_double zv f))
      in json_object
        [(''ready'', JBool (runtime_ready (en_ops env) srv)),
         (''model_id'', JString (sv_model_id service)),
         (''model_config'', json_object
           [(''model_path'', JString (mc_model_path mc)), (''context_size'', JInt (mc_context_size mc)),
            (''n_gpu_layers'', JInt (mc_n_gpu_layers mc)), (''use_mmap'', JBool (mc_use_mmap mc)),
            (''use_mlock'', JBool (mc_use_mlock mc)),
            (''auto_configure_model'', JBool (auto_configure_model config))]),
         (''agent_config'', json_object
           [(''max_history_messages'', zv_max_history_messages zv ac),
            (''request_queue_capacity'', zv_request_queue_capacity zv ac),
            (''max_tool_iterations'', zv_max_tool_iterations zv ac),
            (''max_tool_retries'', zv_max_tool_retries zv ac)]),
         (''default_generation'', json_object
           [(''max_tokens'', JInt (go_max_tokens gen)),
            (''stop_sequences'', JArray (map JString (go_stop_sequences gen))),
            (''record_tool_trace'', JBool (go_record_tool_trace gen)),
            (''sampling'', json_object
              [(''temperature'', float (sp_temperature sampling)), (''top_p'', float (sp_top_p sampling)),
               (''top_k'', JInt (sp_top_k sampling)), (''repeat_penalty'', float (sp_repeat_penalty sampling)),
               (''repeat_last_n'', JInt (sp_repeat_last_n sampling)), (''seed'', JInt (sp_seed sampling))])]),
         (''tool_count'', JUInt (length (sv_tool_metadata service))),
         (''tools'', JArray (map (\<lambda>tool. json_object
           [(''type'', JString ''function''),
            (''function'', json_object
              [(''name'', JString (td_name tool)), (''description'', JString (td_description tool)),
               (''parameters'', parameters_schema tool)])]) (sv_tool_metadata service))),
         (''sessions'', json_object
           [(''enabled'', JBool (sessions_enabled (sessions config))),
            (''max_sessions'', JUInt (max_sessions (sessions config))),
            (''idle_ttl_seconds'', JUInt (idle_ttl_seconds (sessions config))),
            (''active'', JUInt (sh_active (service_session_health service)))])])"

definition runtime_route ::
  "'ag environment \<Rightarrow> 'ac zoo_view \<Rightarrow> 'c call \<Rightarrow> http_request \<Rightarrow> ('ag, 'ac, 'c) server option \<Rightarrow> ('ag, 'ac, 'c) served" where
  "runtime_route env zv ca rq = api_handler env ca rq (\<lambda>srv.
     (Returned, reply (ca_client ca) (make_json_response (en_api env) (make_runtime_body env zv srv) 200) srv))"

definition metrics_route ::
  "'ag environment \<Rightarrow> 'c call \<Rightarrow> http_request \<Rightarrow> ('ag, 'ac, 'c) server option \<Rightarrow> ('ag, 'ac, 'c) served" where
  "metrics_route env ca rq = api_handler env ca rq (\<lambda>srv.
     (Returned, reply (ca_client ca)
        (make_json_response (en_api env) (metrics_to_json (make_metrics_snapshot (ca_steady ca) srv)) 200) srv))"

section \<open>All routes\<close>

datatype route =
    Models | Tools | Create_session | Get_session string | Delete_session string
  | Chat_completions | Extractions | Agent_chat | Cancel string
  | Get_history | Replace_history | Clear_history | Swap_history | Append_message
  | Get_prompt | Set_prompt | Runtime_info | Metrics_info

datatype http_method = Get | Post | Put | Delete | Options

fun registration :: "route \<Rightarrow> string \<times> http_method" where
  "registration Models = (''/v1/models'', Get)"
| "registration Tools = (''/v1/tools'', Get)"
| "registration Create_session = (''/v1/sessions'', Post)"
| "registration (Get_session _) = (''/v1/sessions/{session-id}'', Get)"
| "registration (Delete_session _) = (''/v1/sessions/{session-id}'', Delete)"
| "registration Chat_completions = (''/v1/chat/completions'', Post)"
| "registration Extractions = (''/v1/extractions'', Post)"
| "registration Agent_chat = (''/v1/agent/chat'', Post)"
| "registration (Cancel _) = (''/v1/requests/{request-id}/cancel'', Post)"
| "registration Get_history = (''/v1/agent/history'', Get)"
| "registration Replace_history = (''/v1/agent/history'', Put)"
| "registration Clear_history = (''/v1/agent/history'', Delete)"
| "registration Swap_history = (''/v1/agent/history:swap'', Post)"
| "registration Append_message = (''/v1/agent/history/messages'', Post)"
| "registration Get_prompt = (''/v1/agent/system-prompt'', Get)"
| "registration Set_prompt = (''/v1/agent/system-prompt'', Put)"
| "registration Runtime_info = (''/v1/runtime'', Get)"
| "registration Metrics_info = (''/metrics'', Get)"

fun serve ::
  "'ag environment \<Rightarrow> 'ac zoo_view \<Rightarrow> 'c call \<Rightarrow> http_request \<Rightarrow> route \<Rightarrow> ('ag, 'ac, 'c) server option \<Rightarrow>
     ('ag, 'ac, 'c) served" where
  "serve env zv ca rq Models = models_route env ca rq"
| "serve env zv ca rq Tools = tools_route env ca rq"
| "serve env zv ca rq Create_session = create_session_route env ca rq"
| "serve env zv ca rq (Get_session i) = get_session_route env ca rq i"
| "serve env zv ca rq (Delete_session i) = delete_session_route env ca rq i"
| "serve env zv ca rq Chat_completions = chat_completion_route env ca rq"
| "serve env zv ca rq Extractions = extraction_route env ca rq"
| "serve env zv ca rq Agent_chat = agent_chat_route env ca rq"
| "serve env zv ca rq (Cancel i) = cancel_route env ca rq i"
| "serve env zv ca rq Get_history = get_history_route env zv ca rq"
| "serve env zv ca rq Replace_history = replace_history_route env zv ca rq"
| "serve env zv ca rq Clear_history = clear_history_route env ca rq"
| "serve env zv ca rq Swap_history = swap_history_route env zv ca rq"
| "serve env zv ca rq Append_message = append_message_route env zv ca rq"
| "serve env zv ca rq Get_prompt = get_prompt_route env ca rq"
| "serve env zv ca rq Set_prompt = set_prompt_route env ca rq"
| "serve env zv ca rq Runtime_info = runtime_route env zv ca rq"
| "serve env zv ca rq Metrics_info = metrics_route env ca rq"

text \<open>The answer to a preflight request, registered when some origin is allowed.\<close>

definition options_route :: http_response where
  "options_route =
     make_no_content_response\<lparr>resp_headers :=
       [(''Access-Control-Allow-Methods'', ''GET, POST, DELETE, OPTIONS''),
        (''Access-Control-Allow-Headers'', ''Authorization, Content-Type''),
        (''Access-Control-Max-Age'', ''86400'')]\<rparr>"

definition registers_options :: "'ac server_config \<Rightarrow> bool" where
  "registers_options config \<longleftrightarrow> cors_allow_origins (http config) \<noteq> []"

end
