(* ===== verification/Request_Lifecycle.thy ===== *)
theory Request_Lifecycle
  imports Routes
begin

text \<open>
  The life of a request: from the handler to the answer.

  The first half collects what each operation of \<open>Controller\<close> leaves unchanged and what it sends.
  \<open>server_reaches\<close> then describes every history of a server: requests are served, workers run
  tasks, the agent's thread delivers tokens, connections go away, the reaper wakes and the server
  is told to stop, in any order. One step is one handler or one task; what the parts inside a step
  do under finer interleavings is in \<open>Session_Threads\<close>, \<open>Executor\<close>, \<open>Stream_Session\<close> and \<open>Disconnect\<close>.
\<close>

named_theorems server_simps \<open>effects of the controllers on the server's components\<close>

section \<open>What an answer is\<close>

definition completion_answer ::
  "'ag environment \<Rightarrow> completion_result pending \<Rightarrow> completion_result runtime_result \<Rightarrow> http_response" where
  "completion_answer env p result =
     (case result of
        Inl e \<Rightarrow> make_error_response (en_api env) (map_runtime_error_to_api_error e)
      | Inr r \<Rightarrow> make_chat_completion_response (en_api env) (en_status env) (pd_id p) (pd_created p) (pd_model p) r)"

definition extraction_answer ::
  "'ag environment \<Rightarrow> extraction_result pending \<Rightarrow> extraction_result runtime_result \<Rightarrow> http_response" where
  "extraction_answer env p result =
     (case result of
        Inl e \<Rightarrow> make_error_response (en_api env) (map_runtime_error_to_api_error e)
      | Inr r \<Rightarrow> make_extraction_response (en_api env) (en_status env) (pd_id p) (pd_created p) (pd_model p) r)"

text \<open>The result a task finds: that of its future, or the error of a handle that is spent.\<close>

definition task_completion :: "'ag environment \<Rightarrow> completion_result pending \<Rightarrow> completion_result runtime_result" where
  "task_completion env p = fst (the (completion_get (deliver (en_completions env (pd_cancel p)) (pd_handle p))))"

definition task_extraction :: "'ag environment \<Rightarrow> extraction_result pending \<Rightarrow> extraction_result runtime_result" where
  "task_extraction env p = fst (the (extraction_get (deliver (en_extractions env (pd_cancel p)) (pd_handle p))))"

lemma completion_get_delivered:
  "\<exists>h'. completion_get (deliver (en_completions env (pd_cancel p)) (pd_handle p)) = Some (task_completion env p, h')"
  by (auto simp: task_completion_def completion_get_def deliver_def split: option.split)

lemma extraction_get_delivered:
  "\<exists>h'. extraction_get (deliver (en_extractions env (pd_cancel p)) (pd_handle p)) = Some (task_extraction env p, h')"
  by (auto simp: task_extraction_def extraction_get_def deliver_def split: option.split)

text \<open>Running a task, with the waiting resolved.\<close>

lemma run_task_simps [server_simps]:
  "run_task env fk alive (Answer_completion client p) srv =
     answer_completion env fk client p (task_completion env p) srv"
  "run_task env fk alive (Answer_extraction client q) srv =
     answer_extraction env fk client q (task_extraction env q) srv"
  "run_task env fk alive (Finish_chat client watch p) srv =
     finish_chat_stream env fk client p (task_completion env p) (unwatch_connection alive watch srv)"
  "run_task env fk alive (Finish_extraction client watch q) srv =
     finish_extraction_stream env fk client q (task_extraction env q) (unwatch_connection alive watch srv)"
  using completion_get_delivered [of env p] extraction_get_delivered [of env q] by auto

declare run_task.simps [simp del]

section \<open>Effects on the components\<close>

text \<open>
  A server step that neither answers nor touches the queue: \<open>quiet srv srv'\<close>. It may change the
  service, the streams, the registry and the counters that do not count answers.
\<close>

definition quiet :: "('ag, 'ac, 'c) server \<Rightarrow> ('ag, 'ac, 'c) server \<Rightarrow> bool" where
  "quiet srv srv' \<longleftrightarrow>
     cl_sent srv' = cl_sent srv \<and> tasks (sr_executor srv') = tasks (sr_executor srv) \<and>
     max_pending_tasks (sr_executor srv') = max_pending_tasks (sr_executor srv) \<and>
     m_requests_total (sr_metrics srv') = m_requests_total (sr_metrics srv) \<and>
     m_requests_errors (sr_metrics srv') = m_requests_errors (sr_metrics srv)"

lemma quiet_refl [simp]: "quiet srv srv"
  by (simp add: quiet_def)

lemma quiet_trans: "quiet a b \<Longrightarrow> quiet b c \<Longrightarrow> quiet a c"
  by (simp add: quiet_def)

lemma quiet_updates [simp]:
  "quiet srv (srv'\<lparr>sr_service := v\<rparr>) = quiet srv srv'"
  "quiet srv (srv'\<lparr>cl_chats := w\<rparr>) = quiet srv srv'"
  "quiet srv (srv'\<lparr>cl_extractions := x\<rparr>) = quiet srv srv'"
  "quiet srv (srv'\<lparr>cl_registry := y\<rparr>) = quiet srv srv'"
  "quiet srv (srv'\<lparr>sr_stopping := b\<rparr>) = quiet srv srv'"
  by (simp_all add: quiet_def)

lemma tool_metrics_answers [simp]:
  "m_requests_total (increment_tool_metrics invs m) = m_requests_total m"
  "m_requests_errors (increment_tool_metrics invs m) = m_requests_errors m"
  by (induction invs arbitrary: m) (auto simp: increment_defs Let_def)

lemma quiet_metrics [simp]:
  "quiet srv (srv'\<lparr>sr_metrics := increment_tool_metrics invs (sr_metrics srv')\<rparr>) = quiet srv srv'"
  "quiet srv (srv'\<lparr>sr_metrics := increment_runtime_error_metrics e (sr_metrics srv')\<rparr>) = quiet srv srv'"
  "quiet srv (srv'\<lparr>sr_metrics := increment_queue_rejected (sr_metrics srv')\<rparr>) = quiet srv srv'"
  "quiet srv (srv'\<lparr>sr_metrics := increment_stream_disconnects (sr_metrics srv')\<rparr>) = quiet srv srv'"
  "quiet srv (srv'\<lparr>sr_service := v, sr_metrics := increment_stream_disconnects (sr_metrics srv')\<rparr>) = quiet srv srv'"
  "quiet srv (srv'\<lparr>sr_service := v, sr_metrics := increment_tool_metrics invs (sr_metrics srv')\<rparr>) = quiet srv srv'"
  by (simp_all add: quiet_def increment_runtime_error_metrics_def increment_defs)

lemma quiet_release [simp]: "quiet srv (release_pending fk lease srv') = quiet srv srv'"
  by (simp add: release_pending_def)

lemma quiet_finalize [simp]:
  "quiet srv (finalize_completion fk p result srv') = quiet srv srv'"
  "quiet srv (finalize_extraction fk q result' srv') = quiet srv srv'"
  by (simp_all add: finalize_completion_def finalize_extraction_def)

lemma quiet_on_stream [simp]:
  "quiet srv (on_chat env client cancel f srv') = quiet srv srv'"
  "quiet srv (on_extraction env client cancel g srv') = quiet srv srv'"
  by (simp_all add: on_chat_def on_extraction_def Let_def)

lemma quiet_watch [simp]:
  "quiet srv (snd (watch_connection connection action srv')) = quiet srv srv'"
  "quiet srv (unwatch_connection alive watch srv') = quiet srv srv'"
  by (auto simp: watch_connection_def unwatch_connection_def split: option.split prod.split)

lemma quiet_finish [simp]:
  "quiet srv (finish_chat_stream env fk client p result srv') = quiet srv srv'"
  "quiet srv (finish_extraction_stream env fk client q result' srv') = quiet srv srv'"
  by (simp_all add: finish_chat_stream_def finish_extraction_stream_def Let_def split: sum.split)

lemma quiet_disconnect [simp]: "quiet srv (run_disconnect env action srv') = quiet srv srv'"
  by (cases action) (simp_all add: Let_def)

lemma quiet_disconnects: "quiet srv srv' \<Longrightarrow> quiet srv (fold (\<lambda>(i, a). run_disconnect env a) actions srv')"
  by (induction actions arbitrary: srv') auto

lemma quiet_connection_event [simp]: "quiet srv (connection_event env connection gone srv)"
  by (auto simp: connection_event_def split: prod.split intro: quiet_disconnects)

section \<open>Counted answers\<close>

text \<open>
  One answer: after possibly some quiet work, \<open>resp\<close> is sent to the client and counted.
\<close>

definition answered :: "nat \<Rightarrow> http_response \<Rightarrow> ('ag, 'ac, 'c) server \<Rightarrow> ('ag, 'ac, 'c) server \<Rightarrow> bool" where
  "answered client resp srv srv' \<longleftrightarrow> (\<exists>mid. quiet srv mid \<and> quiet (reply client resp mid) srv')"

lemma answered_reply: "quiet srv mid \<Longrightarrow> answered client resp srv (reply client resp mid)"
  by (auto simp: answered_def)

lemma answered_reply_error:
  "quiet srv mid \<Longrightarrow> answered client (make_error_response (en_api env) e) srv (reply_error env client e mid)"
  by (simp add: reply_error_def answered_reply)

lemma answered_reply_start_error:
  "quiet srv mid \<Longrightarrow> answered client (make_error_response (en_api env) e) srv (reply_start_error env client e mid)"
  by (simp add: reply_start_error_def Let_def answered_reply_error)

lemma answered_completion:
  "quiet srv mid \<Longrightarrow>
   answered client (completion_answer env p result) srv (answer_completion env fk client p result mid)"
  by (cases result)
    (simp_all add: answer_completion_def completion_answer_def Let_def answered_reply answered_reply_error)

lemma answered_extraction:
  "quiet srv mid \<Longrightarrow>
   answered client (extraction_answer env p result) srv (answer_extraction env fk client p result mid)"
  by (cases result)
    (simp_all add: answer_extraction_def extraction_answer_def Let_def answered_reply answered_reply_error)

lemma answeredD:
  assumes "answered client resp srv srv'"
  shows "cl_sent srv' = cl_sent srv @ [(client, resp)]"
    and "tasks (sr_executor srv') = tasks (sr_executor srv)"
    and "m_requests_total (sr_metrics srv') = m_requests_total (sr_metrics srv) + 1"
    and "m_requests_errors (sr_metrics srv') =
      (if 400 \<le> resp_status resp then m_requests_errors (sr_metrics srv) + 1 else m_requests_errors (sr_metrics srv))"
  using assms
  by (auto simp: answered_def quiet_def reply_def with_metrics_def increment_defs Let_def)

text \<open>Or the request is left with a task that will answer it.\<close>

definition deferred :: "'c task \<Rightarrow> ('ag, 'ac, 'c) server \<Rightarrow> ('ag, 'ac, 'c) server \<Rightarrow> bool" where
  "deferred task srv srv' \<longleftrightarrow>
     (\<exists>mid. quiet srv mid \<and>
       srv' = mid\<lparr>sr_executor := (sr_executor mid)\<lparr>tasks := tasks (sr_executor mid) @ [task]\<rparr>\<rparr>)"

lemma deferredD:
  assumes "deferred task srv srv'"
  shows "cl_sent srv' = cl_sent srv"
    and "tasks (sr_executor srv') = tasks (sr_executor srv) @ [task]"
    and "m_requests_total (sr_metrics srv') = m_requests_total (sr_metrics srv)"
    and "m_requests_errors (sr_metrics srv') = m_requests_errors (sr_metrics srv)"
  using assms by (auto simp: deferred_def quiet_def)

lemma submit_background_cases:
  obtains e where "submit_background task srv = (Inl e, srv)"
  | "submit_background task srv =
      (Inr (), srv\<lparr>sr_executor := (sr_executor srv)\<lparr>tasks := tasks (sr_executor srv) @ [task]\<rparr>\<rparr>)"
proof (cases "submit_background task srv")
  case (Pair r srv')
  then show ?thesis
  proof (cases r)
    case (Inl e)
    with Pair submit_background_Inl [of task srv e srv'] show ?thesis using that(1) by simp
  next
    case (Inr u)
    with Pair submit_background_Inr [of task srv u srv'] show ?thesis using that(2) by simp
  qed
qed

section \<open>What a handler does\<close>

fun task_client :: "'c task \<Rightarrow> nat list" where
  "task_client (Answer_completion client p) = [client]"
| "task_client (Answer_extraction client p) = [client]"
| "task_client (Finish_chat client watch p) = []"
| "task_client (Finish_extraction client watch p) = []"

definition waiting :: "('ag, 'ac, 'c) server \<Rightarrow> nat list" where
  "waiting srv = concat (map task_client (tasks (sr_executor srv)))"

definition handled :: "nat \<Rightarrow> outcome \<Rightarrow> ('ag, 'ac, 'c) server \<Rightarrow> ('ag, 'ac, 'c) server \<Rightarrow> bool" where
  "handled client out srv srv' \<longleftrightarrow>
     (case out of
        Bad_function_call \<Rightarrow> quiet srv srv'
      | Returned \<Rightarrow>
          (\<exists>resp. answered client resp srv srv') \<or>
          (\<exists>task. task_client task = [client] \<and> deferred task srv srv') \<or>
          (\<exists>task resp mid. task_client task = [] \<and> deferred task srv mid \<and> answered client resp mid srv'))"

lemma handled_answered: "answered client resp srv srv' \<Longrightarrow> handled client Returned srv srv'"
  by (auto simp: handled_def)

lemma handled_deferred:
  "quiet srv mid \<Longrightarrow> task_client task = [client] \<Longrightarrow>
   handled client Returned srv
     (mid\<lparr>sr_executor := (sr_executor mid)\<lparr>tasks := tasks (sr_executor mid) @ [task]\<rparr>\<rparr>)"
  by (auto simp: handled_def deferred_def)

lemma handled_stream:
  assumes "quiet srv mid" and "task_client task = []"
  shows "handled client Returned srv
     (reply client resp (mid\<lparr>sr_executor := (sr_executor mid)\<lparr>tasks := tasks (sr_executor mid) @ [task]\<rparr>\<rparr>))"
proof -
  let ?mid = "mid\<lparr>sr_executor := (sr_executor mid)\<lparr>tasks := tasks (sr_executor mid) @ [task]\<rparr>\<rparr>"
  have "deferred task srv ?mid" using assms(1) by (auto simp: deferred_def)
  moreover have "answered client resp ?mid (reply client resp ?mid)" by (intro answered_reply) simp
  ultimately show ?thesis using assms(2) by (fastforce simp: handled_def)
qed

lemma handled_refused:
  "quiet srv mid \<Longrightarrow> refused env moved client cancel mid = (out, srv') \<Longrightarrow> handled client out srv srv'"
  by (auto simp: refused_def handled_def split: moved_function.splits
      intro!: exI answered_reply_error)

lemma handled_reply_start_error:
  "quiet srv mid \<Longrightarrow> handled client Returned srv (reply_start_error env client e mid)"
  by (rule handled_answered [OF answered_reply_start_error])

lemma handled_reply: "quiet srv mid \<Longrightarrow> handled client Returned srv (reply client resp mid)"
  by (rule handled_answered [OF answered_reply])

lemma ready_completion: "completion_wait_for h = Ready \<Longrightarrow> \<exists>r h'. completion_get h = Some (r, h')"
  by (auto simp: completion_wait_for_def completion_get_def split: option.splits if_splits)

lemma ready_extraction: "extraction_wait_for h = Ready \<Longrightarrow> \<exists>r h'. extraction_get h = Some (r, h')"
  by (auto simp: extraction_wait_for_def extraction_get_def split: option.splits if_splits)

lemma handled_completion_answer:
  "quiet srv mid \<Longrightarrow> handled client Returned srv (answer_completion env fk client p result mid)"
  by (rule handled_answered [OF answered_completion])

lemma handled_extraction_answer:
  "quiet srv mid \<Longrightarrow> handled client Returned srv (answer_extraction env fk client p result mid)"
  by (rule handled_answered [OF answered_extraction])

lemma handled_background:
  assumes "(case submit_background task mid of
      (Inr _, srv) \<Rightarrow> (Returned, srv)
    | (Inl _, srv) \<Rightarrow> refused env moved client cancel (release_pending fk lease srv)) = (out, srv')"
    and "quiet srv mid" and "task_client task = [client]"
  shows "handled client out srv srv'"
proof (cases rule: submit_background_cases [of task mid])
  case (1 e)
  with assms(1) have "refused env moved client cancel (release_pending fk lease mid) = (out, srv')" by simp
  then show ?thesis by (rule handled_refused [rotated]) (simp add: assms(2))
next
  case 2
  with assms(1) handled_deferred [OF assms(2,3)] show ?thesis by auto
qed

text \<open>The shape the controllers without a stream share.\<close>

lemma handled_start:
  assumes "(case begun of
      Inl e \<Rightarrow> (Returned, reply_start_error env client e mid)
    | Inr p \<Rightarrow>
        if wait p = Ready then
          (case get p of Some (result, h) \<Rightarrow> (Returned, answer p result mid) | None \<Rightarrow> (Returned, mid))
        else
          (case submit_background (task p) mid of
             (Inr _, srv) \<Rightarrow> (Returned, srv)
           | (Inl _, srv) \<Rightarrow> refused env moved client (cancel p) (release_pending fk (lease p) srv))) = (out, srv')"
    and "quiet srv mid"
    and ready: "\<And>p. wait p = Ready \<Longrightarrow> \<exists>r h. get p = Some (r, h)"
    and answer: "\<And>p r. handled client Returned srv (answer p r mid)"
    and task: "\<And>p. task_client (task p) = [client]"
  shows "handled client out srv srv'"
proof (cases begun)
  case (Inl e)
  with assms(1) handled_reply_start_error [OF assms(2)] show ?thesis by auto
next
  case (Inr p)
  show ?thesis
  proof (cases "wait p = Ready")
    case True
    with ready [OF True] answer [of p] Inr assms(1) show ?thesis by auto
  next
    case False
    with Inr assms(1) have "(case submit_background (task p) mid of
        (Inr _, srv) \<Rightarrow> (Returned, srv)
      | (Inl _, srv) \<Rightarrow> refused env moved client (cancel p) (release_pending fk (lease p) srv)) = (out, srv')"
      by simp
    from handled_background [OF this assms(2) task] show ?thesis .
  qed
qed

lemma handled_start_non_stream_completion:
  assumes "start_non_stream_completion env moved ck fk client request srv = (out, srv')"
  shows "handled client out srv srv'"
proof -
  obtain begun service where s: "start_completion (en_ops env) ck request (sr_service srv) = (begun, service)"
    by fastforce
  show ?thesis
    using assms unfolding start_non_stream_completion_def Let_def s prod.case
    by (rule handled_start) (simp_all add: ready_completion handled_completion_answer)
qed

lemma handled_start_agent_chat:
  assumes "start_agent_chat_request env moved ck fk client request srv = (out, srv')"
  shows "handled client out srv srv'"
proof -
  obtain begun service where s: "start_agent_chat (en_ops env) (en_validator env) ck request (sr_service srv) = (begun, service)"
    by fastforce
  show ?thesis
    using assms unfolding start_agent_chat_request_def Let_def s prod.case
    by (rule handled_start) (simp_all add: ready_completion handled_completion_answer)
qed

lemma handled_start_non_stream_extraction:
  assumes "start_non_stream_extraction env moved ck fk client request srv = (out, srv')"
  shows "handled client out srv srv'"
proof -
  obtain begun service where s: "start_extraction (en_ops env) ck request (sr_service srv) = (begun, service)"
    by fastforce
  show ?thesis
    using assms unfolding start_non_stream_extraction_def Let_def s prod.case
    by (rule handled_start) (simp_all add: ready_extraction handled_extraction_answer)
qed

text \<open>The shape the two streamed ones share.\<close>

lemma handled_stream_background:
  assumes "(case submit_background task mid of
      (Inr _, srv) \<Rightarrow> (Returned, reply client resp srv)
    | (Inl _, srv) \<Rightarrow> refused env moved client cancel (unwatch_connection alive watch (release_pending fk lease srv)))
      = (out, srv')"
    and "quiet srv mid" and "task_client task = []"
  shows "handled client out srv srv'"
proof (cases rule: submit_background_cases [of task mid])
  case (1 e)
  with assms(1) have "refused env moved client cancel
      (unwatch_connection alive watch (release_pending fk lease mid)) = (out, srv')" by simp
  then show ?thesis by (rule handled_refused [rotated]) (simp add: assms(2))
next
  case 2
  with assms(1) handled_stream [OF assms(2,3)] show ?thesis by auto
qed

lemma handled_start_stream_completion:
  assumes "start_stream_completion env moved ck fk alive client connection early request srv = (out, srv')"
  shows "handled client out srv srv'"
proof -
  obtain begun service where s: "start_completion (en_ops env) ck request (sr_service srv) = (begun, service)"
    by fastforce
  show ?thesis
  proof (cases begun)
    case (Inl e)
    with assms s show ?thesis
      by (auto simp: start_stream_completion_def Let_def intro: handled_reply_start_error)
  next
    case (Inr p)
    show ?thesis
    proof (cases "completion_wait_for (pd_handle p) = Ready")
      case True
      then obtain r h where "completion_get (pd_handle p) = Some (r, h)" using ready_completion by blast
      with True assms s Inr show ?thesis
        by (cases r) (auto simp: start_stream_completion_def Let_def
            intro!: handled_completion_answer handled_reply)
    next
      case False
      obtain watch mid where w: "watch_connection connection (Drop_chat client (pd_cancel p))
          (srv\<lparr>sr_service := service, cl_chats := (cl_chats srv)(client :=
             set_cancel_callback (set_metadata (en_accepts env client) (pd_id p) (pd_created p) (pd_model p)
               (fold (push_token (en_accepts env client)) early new_chat_stream)))\<rparr>) = (watch, mid)"
        by fastforce
      then have "quiet srv mid"
        by (metis quiet_refl quiet_updates(1,2) quiet_watch(1) snd_conv)
      with False assms s Inr w show ?thesis
        by (intro handled_stream_background [where mid = mid and task = "Finish_chat client watch p"])
          (simp_all add: start_stream_completion_def Let_def)
    qed
  qed
qed

lemma handled_start_stream_extraction:
  assumes "start_stream_extraction env moved ck fk alive client connection early request srv = (out, srv')"
  shows "handled client out srv srv'"
proof -
  obtain begun service where s: "start_extraction (en_ops env) ck request (sr_service srv) = (begun, service)"
    by fastforce
  show ?thesis
  proof (cases begun)
    case (Inl e)
    with assms s show ?thesis
      by (auto simp: start_stream_extraction_def Let_def intro: handled_reply_start_error)
  next
    case (Inr p)
    show ?thesis
    proof (cases "extraction_wait_for (pd_handle p) = Ready")
      case True
      then obtain r h where "extraction_get (pd_handle p) = Some (r, h)" using ready_extraction by blast
      with True assms s Inr show ?thesis
        by (cases r) (auto simp: start_stream_extraction_def Let_def
            intro!: handled_extraction_answer handled_reply)
    next
      case False
      obtain watch mid where w: "watch_connection connection (Drop_extraction client (pd_cancel p))
          (srv\<lparr>sr_service := service, cl_extractions := (cl_extractions srv)(client :=
             set_cancel_callback (extraction_set_metadata (en_api env) (en_accepts env client)
               (pd_id p) (pd_created p) (pd_model p)
               (fold (extraction_push_token (en_api env) (en_accepts env client)) early new_stream)))\<rparr>) = (watch, mid)"
        by fastforce
      then have "quiet srv mid"
        by (metis quiet_refl quiet_updates(1,3) quiet_watch(1) snd_conv)
      with False assms s Inr w show ?thesis
        by (intro handled_stream_background [where mid = mid and task = "Finish_extraction client watch p"])
          (simp_all add: start_stream_extraction_def Let_def)
    qed
  qed
qed

section \<open>Every route\<close>

lemma handled_reply_error:
  "quiet srv mid \<Longrightarrow> handled client Returned srv (reply_error env client e mid)"
  by (rule handled_answered [OF answered_reply_error])

lemma handled_reply_result:
  "reply_result env ca ok result srv = (out, srv') \<Longrightarrow> handled (ca_client ca) out srv srv'"
  by (auto simp: reply_result_def split: prod.splits sum.splits intro!: handled_reply handled_reply_error)

lemma handled_with_parsed:
  assumes "with_parsed env ca parsed k srv = (out, srv')"
    and "\<And>r. parsed = Inr r \<Longrightarrow> k r srv = (out, srv') \<Longrightarrow> handled (ca_client ca) out srv srv'"
  shows "handled (ca_client ca) out srv srv'"
  using assms by (auto simp: with_parsed_def split: sum.splits intro!: handled_reply_error)

lemma handled_api_handler:
  assumes "api_handler env ca rq body (Some srv) = Served out srv'"
    and "\<And>out srv'. body srv = (out, srv') \<Longrightarrow> handled (ca_client ca) out srv srv'"
  shows "handled (ca_client ca) out srv srv'"
  using assms by (auto simp: api_handler_def split: option.splits prod.splits intro!: handled_reply_error)

lemmas route_defs = models_route_def tools_route_def create_session_route_def get_session_route_def
  delete_session_route_def chat_completion_route_def extraction_route_def agent_chat_route_def cancel_route_def
  get_history_route_def replace_history_route_def clear_history_route_def swap_history_route_def
  append_message_route_def get_prompt_route_def set_prompt_route_def runtime_route_def metrics_route_def

lemma serve_is_api_handler:
  "\<exists>body. serve env zv ca rq route = api_handler env ca rq body \<and>
    (\<forall>srv out srv'. body srv = (out, srv') \<longrightarrow> handled (ca_client ca) out srv srv')"
  by (cases route)
    (auto simp: route_defs intro!: exI handled_reply
      elim!: handled_with_parsed
      dest: handled_reply_result handled_start_non_stream_completion handled_start_stream_completion
        handled_start_non_stream_extraction handled_start_stream_extraction handled_start_agent_chat
      split: if_splits)

lemma handled_serve:
  assumes "serve env zv ca rq route (Some srv) = Served out srv'"
  shows "handled (ca_client ca) out srv srv'"
proof -
  obtain body where "serve env zv ca rq route = api_handler env ca rq body"
    and "\<And>out srv'. body srv = (out, srv') \<Longrightarrow> handled (ca_client ca) out srv srv'"
    using serve_is_api_handler [of env zv ca rq route] by auto
  then show ?thesis using handled_api_handler [of env ca rq body srv out srv'] assms by simp
qed

section \<open>Histories of a server\<close>

text \<open>
  \<open>server_reaches env zv srv0 requests lost srv\<close>: from \<open>srv0\<close> the server can reach \<open>srv\<close>, having been
  asked \<open>requests\<close> (the clients in the order of their requests); \<open>lost\<close> are the clients whose handler
  threw. A worker takes the first task of the queue, also after the runtime was told to stop.
\<close>

inductive server_reaches ::
  "'ag environment \<Rightarrow> 'ac zoo_view \<Rightarrow> ('ag, 'ac, 'c) server \<Rightarrow> nat list \<Rightarrow> nat list \<Rightarrow> ('ag, 'ac, 'c) server \<Rightarrow> bool"
  for env zv srv0
where
  reaches_start: "server_reaches env zv srv0 [] [] srv0"
| reaches_request: "server_reaches env zv srv0 requests lost srv \<Longrightarrow>
    serve env zv ca rq route (Some srv) = Served out srv' \<Longrightarrow>
    lost' = (if out = Returned then lost else lost @ [ca_client ca]) \<Longrightarrow>
    server_reaches env zv srv0 (requests @ [ca_client ca]) lost' srv'"
| reaches_task: "server_reaches env zv srv0 requests lost srv \<Longrightarrow>
    tasks (sr_executor srv) = task # rest \<Longrightarrow>
    srv' = run_task env fk alive task (srv\<lparr>sr_executor := (sr_executor srv)\<lparr>tasks := rest\<rparr>\<rparr>) \<Longrightarrow>
    server_reaches env zv srv0 requests lost srv'"
| reaches_chat: "server_reaches env zv srv0 requests lost srv \<Longrightarrow>
    f \<in> {push_token (en_accepts env client) token, attach_stream (en_accepts env client)} \<Longrightarrow>
    server_reaches env zv srv0 requests lost (on_chat env client cancel f srv)"
| reaches_extraction: "server_reaches env zv srv0 requests lost srv \<Longrightarrow>
    g \<in> {extraction_push_token (en_api env) (en_accepts env client) token, attach_stream (en_accepts env client)} \<Longrightarrow>
    server_reaches env zv srv0 requests lost (on_extraction env client cancel g srv)"
| reaches_connection: "server_reaches env zv srv0 requests lost srv \<Longrightarrow>
    server_reaches env zv srv0 requests lost (connection_event env connection gone srv)"
| reaches_reaper: "server_reaches env zv srv0 requests lost srv \<Longrightarrow> reaper_wake now srv = Some srv' \<Longrightarrow>
    server_reaches env zv srv0 requests lost srv'"
| reaches_stopping: "server_reaches env zv srv0 requests lost srv \<Longrightarrow>
    server_reaches env zv srv0 requests lost
      (srv\<lparr>sr_stopping := True, sr_executor := executor_stop (sr_executor srv)\<rparr>)"

text \<open>The answers given and still owed, and the two counters that count answers.\<close>

definition accounted :: "nat list \<Rightarrow> nat list \<Rightarrow> ('ag, 'ac, 'c) server \<Rightarrow> bool" where
  "accounted requests lost srv \<longleftrightarrow>
     mset (map fst (cl_sent srv)) + mset (waiting srv) + mset lost = mset requests"

definition counted :: "('ag, 'ac, 'c) server \<Rightarrow> bool" where
  "counted srv \<longleftrightarrow>
     m_requests_total (sr_metrics srv) = of_nat (length (cl_sent srv)) \<and>
     m_requests_errors (sr_metrics srv) =
       of_nat (length (filter (\<lambda>(client, resp). 400 \<le> resp_status resp) (cl_sent srv)))"

lemma quiet_accounted: "quiet srv srv' \<Longrightarrow> accounted rs ls srv' = accounted rs ls srv"
  by (simp add: quiet_def accounted_def waiting_def)

lemma quiet_counted: "quiet srv srv' \<Longrightarrow> counted srv' = counted srv"
  by (simp add: quiet_def counted_def)

lemma answered_counted: "answered client resp srv srv' \<Longrightarrow> counted srv \<Longrightarrow> counted srv'"
  by (auto simp: counted_def answeredD split: if_splits)

lemma deferred_counted: "deferred task srv srv' \<Longrightarrow> counted srv' = counted srv"
  by (simp add: counted_def deferredD)

lemma handled_counted: "handled client out srv srv' \<Longrightarrow> counted srv \<Longrightarrow> counted srv'"
  by (auto simp: handled_def quiet_counted deferred_counted split: outcome.splits intro: answered_counted)

lemma handled_accounted:
  "handled client out srv srv' \<Longrightarrow> accounted rs ls srv \<Longrightarrow>
   accounted (rs @ [client]) (if out = Returned then ls else ls @ [client]) srv'"
  by (auto simp: handled_def accounted_def quiet_def waiting_def answeredD deferredD split: outcome.splits)

text \<open>What a task sends.\<close>

fun task_answer :: "'ag environment \<Rightarrow> 'c task \<Rightarrow> (nat \<times> http_response) list" where
  "task_answer env (Answer_completion client p) = [(client, completion_answer env p (task_completion env p))]"
| "task_answer env (Answer_extraction client p) = [(client, extraction_answer env p (task_extraction env p))]"
| "task_answer env (Finish_chat client watch p) = []"
| "task_answer env (Finish_extraction client watch p) = []"

lemma fst_task_answer [simp]: "map fst (task_answer env task) = task_client task"
  by (cases task) simp_all

lemma run_task_sends:
  "(\<exists>client resp. task_answer env task = [(client, resp)] \<and> answered client resp srv (run_task env fk alive task srv)) \<or>
   (task_answer env task = [] \<and> quiet srv (run_task env fk alive task srv))"
  by (cases task) (auto simp: server_simps intro: answered_completion answered_extraction)

lemma run_task_effect:
  "cl_sent (run_task env fk alive task srv) = cl_sent srv @ task_answer env task"
  "tasks (sr_executor (run_task env fk alive task srv)) = tasks (sr_executor srv)"
  using run_task_sends [of env task srv fk alive] by (auto simp: answeredD quiet_def)

lemma run_task_counted: "counted srv \<Longrightarrow> counted (run_task env fk alive task srv)"
  using run_task_sends [of env task srv fk alive] by (auto simp: quiet_counted intro: answered_counted)

lemma reaches_invariant:
  assumes "server_reaches env zv srv0 requests lost srv" and "accounted [] [] srv0" and "counted srv0"
  shows "accounted requests lost srv \<and> counted srv"
  using assms
proof (induction rule: server_reaches.induct)
  case (reaches_request requests lost srv ca rq route out srv' lost')
  with handled_serve [OF reaches_request.hyps(2)] show ?case
    by (auto intro: handled_counted simp: handled_accounted [of _ Returned] split: if_splits
        dest: handled_accounted)
next
  case (reaches_task requests lost srv task rest srv' fk alive)
  let ?srv = "srv\<lparr>sr_executor := (sr_executor srv)\<lparr>tasks := rest\<rparr>\<rparr>"
  have "counted ?srv" using reaches_task by (simp add: counted_def)
  then have "counted srv'" unfolding reaches_task.hyps(3) by (rule run_task_counted)
  moreover have "accounted requests lost srv'"
    using reaches_task by (simp add: accounted_def waiting_def run_task_effect add.assoc)
  ultimately show ?case by simp
next
  case (reaches_reaper requests lost srv now srv')
  then have "quiet srv srv'" by (auto simp: reaper_wake_def split: if_splits)
  with reaches_reaper show ?case by (simp add: quiet_accounted quiet_counted)
next
  case (reaches_stopping requests lost srv)
  then show ?case by (simp add: accounted_def counted_def waiting_def executor_stop_def)
next
  case (reaches_chat requests lost srv f client token cancel)
  then have "quiet srv (on_chat env client cancel f srv)" by simp
  with reaches_chat show ?case by (simp only: quiet_accounted quiet_counted)
next
  case (reaches_extraction requests lost srv g client token cancel)
  then have "quiet srv (on_extraction env client cancel g srv)" by simp
  with reaches_extraction show ?case by (simp only: quiet_accounted quiet_counted)
next
  case (reaches_connection requests lost srv connection gone)
  have "quiet srv (connection_event env connection gone srv)" by simp
  with reaches_connection show ?case by (simp only: quiet_accounted quiet_counted)
qed simp

end
