(* ===== verification/Server_Runs.thy ===== *)
theory Server_Runs
  imports Request_Lifecycle
begin

text \<open>
  What the server as a whole promises: the properties that span the routes, the controllers, the
  runtime, the streams and the registry. They rest on the lemmas of \<open>Request_Lifecycle\<close> and on the
  interpretations \<open>runtime_queue\<close> (the bounded queue) and \<open>chat_tokens\<close> (the event stream).
\<close>

section \<open>A small server for the witnesses\<close>

definition demo_server_config :: "nat server_config" where
  "demo_server_config = \<lparr>bind_address = ''127.0.0.1'', port = 8080, sc_model_id = ''m'', api_key = Some ''k'',
     http = \<lparr>client_max_body_size_bytes = 1048576, client_max_memory_body_size_bytes = 65536,
       idle_connection_timeout_seconds = 60, cors_allow_origins = []\<rparr>,
     sessions = \<lparr>max_sessions = 2, idle_ttl_seconds = 900\<rparr>, tools = [],
     sc_model_config = \<lparr>mc_model_path = ''m.gguf'', mc_context_size = 4096, mc_n_gpu_layers = 0,
       mc_use_mmap = True, mc_use_mlock = False\<rparr>,
     sc_agent_config = 7, sc_default_generation = demo_options, auto_configure_model = False,
     sc_prompt = ''Be brief.''\<rparr>"

definition demo_server :: "nat \<Rightarrow> (u64 \<times> u64 list, nat, nat) server" where
  "demo_server depth = \<lparr>sr_config = demo_server_config, sr_service = demo_service, sr_metrics = make_metrics 0,
     sr_executor = \<lparr>max_pending_tasks = depth, tasks = [], workers = [Waiting, Waiting], stopping = False\<rparr>,
     sr_stopping = False, cl_sent = [], cl_chats = (\<lambda>_. new_chat_stream), cl_extractions = (\<lambda>_. new_stream),
     cl_registry = empty_registry\<rparr>"

definition demo_env :: "(u64 \<times> u64 list) environment" where
  "demo_env = \<lparr>en_ops = demo_ops, en_api = demo_api JNull, en_status = (\<lambda>_. ''ok''), en_validator = demo_validator,
     en_accepts = (\<lambda>_. accepts_all), en_completions = (\<lambda>_. Inr demo_completion),
     en_extractions = (\<lambda>_. Inr demo_extraction)\<rparr>"

definition demo_finish :: finish_readings where
  "demo_finish = \<lparr>fk_commit = 110, fk_release = 111\<rparr>"

section \<open>Authorization\<close>

text \<open>
  C8. Whatever the route, a request without the right key only gets an error: when a key is configured
  and the header is not \<open>Bearer \<close> followed by it, the answer has status 401, the request is counted
  as an error, and no part of the server, the service, the queue, the streams or the registry, has
  changed. When the runtime is gone the answer is 503 and there is no state at all.
\<close>

theorem unauthorized_requests_change_nothing:
  assumes "api_key (sr_config srv) = Some key" and "rq_authorization rq \<noteq> kBearerPrefix @ key"
  shows "\<exists>resp. serve env zv ca rq route (Some srv) = Served Returned (reply (ca_client ca) resp srv)
      \<and> resp_status resp = 401
      \<and> m_requests_errors (sr_metrics (reply (ca_client ca) resp srv)) = m_requests_errors (sr_metrics srv) + 1
    \<and> (\<exists>resp. serve env zv ca rq route None = Runtime_gone resp \<and> resp_status resp = 503)"
proof -
  let ?resp = "make_error_response (en_api env) (auth_error ''Invalid API key'' (Some ''invalid_api_key''))"
  obtain body where "serve env zv ca rq route = api_handler env ca rq body"
    using serve_is_api_handler [of env zv ca rq route] by auto
  then have
    "serve env zv ca rq route (Some srv) = Served Returned (reply (ca_client ca) ?resp srv)"
    "serve env zv ca rq route None = Runtime_gone (make_error_response (en_api env) (not_ready_error ''not_ready''))"
    using assms by (simp_all add: api_handler_def check_auth_Some reply_error_def)
  moreover have "resp_status ?resp = 401"
      "resp_status (make_error_response (en_api env) (not_ready_error ''not_ready'')) = 503"
    by (simp_all add: make_error_response_def make_json_response_def auth_error_def not_ready_error_def
        service_unavailable_error_def)
  ultimately show ?thesis
    by (intro exI [of _ ?resp]) (simp add: reply_def with_metrics_def increment_defs Let_def)
qed

definition demo_call :: "nat call" where
  "demo_call = \<lparr>ca_client = 7, ca_connection = Some 3, ca_alive = (\<lambda>_. True), ca_early = [],
     ca_moved = Left_empty, ca_clock = demo_clock, ca_finish = demo_finish, ca_now = 100, ca_steady = 5\<rparr>"

definition demo_view :: "nat zoo_view" where
  "demo_view = \<lparr>zv_role_name = (\<lambda>_. ''user''), zv_max_history_messages = JUInt, zv_request_queue_capacity = JUInt,
     zv_max_tool_iterations = JUInt, zv_max_tool_retries = JUInt, zv_double = ucast\<rparr>"

theorem unauthorized_requests_change_nothing_witness:
  "\<exists>resp. serve demo_env demo_view demo_call \<lparr>rq_authorization = ''Bearer wrong'', rq_body = ''body''\<rparr>
      (Delete_session ''sess-1'') (Some (demo_server 1)) = Served Returned (reply 7 resp (demo_server 1))
    \<and> resp_status resp = 401"
  using unauthorized_requests_change_nothing
    [of "demo_server 1" "''k''" "\<lparr>rq_authorization = ''Bearer wrong'', rq_body = ''body''\<rparr>"
        demo_env demo_view demo_call "Delete_session ''sess-1''"]
  by (auto simp: demo_server_def demo_server_config_def kBearerPrefix_def demo_call_def)

section \<open>Every request is answered\<close>


text \<open>
  C10. In every such history the two counters of answers are exact (as 64-bit numbers): the requests
  counted are the answers sent, and the errors those with a status of 400 or more.
\<close>

theorem request_counters_exact:
  assumes "server_reaches env zv srv0 requests lost srv"
    and "cl_sent srv0 = []" and "tasks (sr_executor srv0) = []"
    and "m_requests_total (sr_metrics srv0) = 0" and "m_requests_errors (sr_metrics srv0) = 0"
  shows "m_requests_total (sr_metrics srv) = of_nat (length (cl_sent srv))
    \<and> m_requests_errors (sr_metrics srv) =
        of_nat (length (filter (\<lambda>(client, resp). 400 \<le> resp_status resp) (cl_sent srv)))"
proof -
  have "accounted [] [] srv0" "counted srv0"
    using assms(2-) by (simp_all add: accounted_def counted_def waiting_def)
  from reaches_invariant [OF assms(1) this] show ?thesis by (simp add: counted_def)
qed

lemma demo_reaches: "\<exists>srv. server_reaches demo_env demo_view (demo_server 1) [7] [] srv"
proof -
  let ?rq = "\<lparr>rq_authorization = [], rq_body = ''body''\<rparr>"
  have "serve demo_env demo_view demo_call ?rq Models (Some (demo_server 1)) =
      Served Returned (reply_error demo_env 7 (auth_error ''Invalid API key'' (Some ''invalid_api_key'')) (demo_server 1))"
    by (simp add: models_route_def api_handler_def check_auth_Some demo_server_def demo_server_config_def
        demo_call_def kBearerPrefix_def)
  from reaches_request [OF reaches_start this refl] show ?thesis by (auto simp: demo_call_def)
qed


theorem request_counters_exact_witness:
  "\<exists>srv. server_reaches demo_env demo_view (demo_server 1) [7] [] srv
     \<and> m_requests_total (sr_metrics srv) = of_nat (length (cl_sent srv))"
proof -
  obtain srv where srv: "server_reaches demo_env demo_view (demo_server 1) [7] [] srv" using demo_reaches ..
  from request_counters_exact [OF srv] srv show ?thesis
    by (auto simp: demo_server_def make_metrics_def)
qed

section \<open>One completion\<close>

lemma sr_service_answer_completion [server_simps]:
  "sr_service (answer_completion env fk client p result srv) =
     run_release (fk_release fk) (pd_lease p) (observe (fk_commit fk) (pd_on_result p) result (sr_service srv))"
  by (cases result) (simp_all add: answer_completion_def finalize_completion_def release_pending_def
      reply_error_def reply_def Let_def)

lemma submit_background_accepts:
  "\<not> sr_stopping srv \<Longrightarrow> \<not> stopping (sr_executor srv) \<Longrightarrow>
   length (tasks (sr_executor srv)) < max_pending_tasks (sr_executor srv) \<Longrightarrow>
   submit_background task srv =
     (Inr (), srv\<lparr>sr_executor := (sr_executor srv)\<lparr>tasks := tasks (sr_executor srv) @ [task]\<rparr>\<rparr>)"
  by (simp add: submit_background_def submit_def)



section \<open>A saturated executor\<close>

text \<open>
  C11. When the queue is full and the result is not there yet, the handler loses the request. The refused
  task took the callback and the cancel function with it, so using them throws (on a library that
  leaves a moved-from function empty): no answer is sent or counted here, whatever the framework makes
  of the exception, no task will send one, and the generation is not cancelled, though its lease is
  released. Were the functions still whole, the
  client would get the error \<open>server_busy\<close> and the generation would be cancelled, as is meant.
\<close>

theorem saturated_executor_loses_answer:
  assumes full: "max_pending_tasks (sr_executor srv) \<le> length (tasks (sr_executor srv))"
    and begun: "start_completion (en_ops env) ck request (sr_service srv) = (Inr p, service)"
    and later: "completion_wait_for (pd_handle p) = Timeout"
  shows "let (out, srv') = start_non_stream_completion env Left_empty ck fk client request srv;
             (out_meant, meant) = start_non_stream_completion env Left_intact ck fk client request srv
         in out = Bad_function_call \<and> cl_sent srv' = cl_sent srv \<and> sr_metrics srv' = sr_metrics srv
          \<and> waiting srv' = waiting srv
          \<and> sr_service srv' = run_release (fk_release fk) (pd_lease p) service
          \<and> out_meant = Returned
          \<and> cl_sent meant = cl_sent srv @ [(client, make_error_response (en_api env) server_busy_error)]
          \<and> sr_service meant = run_cancel (en_ops env) (pd_cancel p) (sr_service srv')"
proof -
  let ?mid = "srv\<lparr>sr_service := service\<rparr>"
  have "\<exists>e. fst (submit_background (Answer_completion client p) ?mid) = Inl e"
    using full by (simp add: submit_background_def submit_def)
  then obtain e where "submit_background (Answer_completion client p) ?mid = (Inl e, ?mid)"
    using submit_background_Inl [of "Answer_completion client p" ?mid] by (metis prod.collapse)
  with begun later
  have "start_non_stream_completion env moved ck fk client request srv =
      refused env moved client (pd_cancel p) (release_pending fk (pd_lease p) ?mid)" for moved
    by (simp add: start_non_stream_completion_def)
  then show ?thesis
    by (simp add: refused_def release_pending_def reply_error_def reply_def waiting_def Let_def)
qed

theorem saturated_executor_loses_answer_witness:
  "fst (start_non_stream_completion demo_env Left_empty demo_clock demo_finish 7 demo_request (demo_server 0))
     = Bad_function_call
   \<and> fst (start_non_stream_completion demo_env Left_intact demo_clock demo_finish 7 demo_request (demo_server 0))
     = Returned"
proof -
  have begun: "start_completion (en_ops demo_env) demo_clock demo_request (sr_service (demo_server 0))
      = (Inr demo_started, demo_service1)"
    using demo_start by (simp add: demo_env_def demo_server_def)
  have "completion_wait_for (pd_handle demo_started) = Timeout"
    by (simp add: demo_started_def completion_wait_for_def make_completion_handle_def)
  from saturated_executor_loses_answer [OF _ begun this, of demo_finish 7] show ?thesis
    by (auto simp: demo_server_def split: prod.splits)
qed

section \<open>Shutting down\<close>

lemma run_tasks_effect:
  "cl_sent (fold (run_task env fk alive) queue srv) = cl_sent srv @ concat (map (task_answer env) queue)"
  "tasks (sr_executor (fold (run_task env fk alive) queue srv)) = tasks (sr_executor srv)"
  by (induction queue arbitrary: srv) (simp_all add: run_task_effect)

lemma run_task_stopping [simp]: "sr_stopping (run_task env fk alive task srv) = sr_stopping srv"
proof (cases task)
  case (Answer_completion client p)
  then show ?thesis
    by (cases "task_completion env p")
      (simp_all add: server_simps answer_completion_def finalize_completion_def release_pending_def
        reply_error_def reply_def Let_def)
next
  case (Answer_extraction client p)
  then show ?thesis
    by (cases "task_extraction env p")
      (simp_all add: server_simps answer_extraction_def finalize_extraction_def release_pending_def
        reply_error_def reply_def Let_def)
next
  case (Finish_chat client watch p)
  then show ?thesis
    by (cases "task_completion env p")
      (simp_all add: server_simps finish_chat_stream_def finalize_completion_def release_pending_def
        on_chat_def unwatch_connection_def Let_def split: option.split prod.split)
next
  case (Finish_extraction client watch p)
  then show ?thesis
    by (cases "task_extraction env p")
      (simp_all add: server_simps finish_extraction_stream_def finalize_extraction_def release_pending_def
        on_extraction_def unwatch_connection_def Let_def split: option.split prod.split)
qed

lemma run_tasks_stopping: "sr_stopping (fold (run_task env fk alive) queue srv) = sr_stopping srv"
  by (induction queue arbitrary: srv) simp_all


definition demo_waiting_server :: "(u64 \<times> u64 list, nat, nat) server" where
  "demo_waiting_server = (demo_server 2)\<lparr>sr_executor := (sr_executor (demo_server 2))
     \<lparr>tasks := [Answer_completion 7 demo_started, Answer_completion 9 demo_started]\<rparr>\<rparr>"


end
