(* ===== verification/Stream_Runs.thy ===== *)
theory Stream_Runs
  imports Server_Runs
begin

text \<open>
  A streamed completion from its request to the last frame, and what a disconnect does to it. The
  frames are the business of the session alone, so the first lemmas say how the controllers' steps
  act on one client's session; the contract \<open>chat_tokens\<close> then gives the frames.
\<close>

section \<open>One client's session\<close>

lemma cl_chats_simps [simp]:
  "cl_chats (on_chat env client cancel f srv) = (cl_chats srv)(client := f (cl_chats srv client))"
  "cl_chats (finalize_completion fk p result srv) = cl_chats srv"
  "cl_chats (release_pending fk lease srv) = cl_chats srv"
  "cl_chats (unwatch_connection alive watch srv) = cl_chats srv"
  "cl_chats (snd (watch_connection connection action srv)) = cl_chats srv"
  "cl_chats (reply client resp srv) = cl_chats srv"
  by (auto simp: on_chat_def Let_def finalize_completion_def release_pending_def unwatch_connection_def
      watch_connection_def reply_def split: option.split prod.split)

text \<open>What happens to the session between its start and the task that finishes it.\<close>

fun stream_event ::
  "'ag environment \<Rightarrow> nat \<Rightarrow> u64 \<Rightarrow> stream_op \<Rightarrow> ('ag, 'ac, 'c) server \<Rightarrow> ('ag, 'ac, 'c) server" where
  "stream_event env client cancel (Token t) srv = on_chat env client cancel (push_token (en_accepts env client) t) srv"
| "stream_event env client cancel Attach srv = on_chat env client cancel (attach_stream (en_accepts env client)) srv"
| "stream_event env client cancel Metadata srv = srv"

lemma stream_events_session:
  assumes "en_accepts env client = accepts_all" and "Metadata \<notin> set ops"
  shows "cl_chats (fold (stream_event env client cancel) ops srv) client =
    fold (chat_step i c m) ops (cl_chats srv client)"
  using assms(2)
proof (induction ops arbitrary: srv)
  case (Cons op ops)
  then show ?case by (cases op) (simp_all add: assms(1))
qed simp

lemma finish_chat_session:
  "cl_chats (run_task env fk alive (Finish_chat client watch p) srv) client =
     (case task_completion env p of
        Inl e \<Rightarrow> finish_error (en_accepts env client) (en_api env) (map_runtime_error_to_api_error e) (cl_chats srv client)
      | Inr r \<Rightarrow> finish_success (en_accepts env client) r (cl_chats srv client))"
  by (auto simp: server_simps finish_chat_stream_def Let_def split: sum.split)

lemma stream_completion_deferred:
  assumes accepting: "\<not> sr_stopping srv" "\<not> stopping (sr_executor srv)"
      "length (tasks (sr_executor srv)) < max_pending_tasks (sr_executor srv)"
    and begun: "start_completion (en_ops env) ck request (sr_service srv) = (Inr p, service)"
    and later: "completion_wait_for (pd_handle p) = Timeout"
  shows "\<exists>watch srv1. start_stream_completion env moved ck fk alive client connection early request srv = (Returned, srv1)
    \<and> tasks (sr_executor srv1) = tasks (sr_executor srv) @ [Finish_chat client watch p]
    \<and> cl_sent srv1 = cl_sent srv @ [(client, make_stream_response)]
    \<and> cl_chats srv1 client = set_cancel_callback (set_metadata (en_accepts env client) (pd_id p) (pd_created p)
        (pd_model p) (fold (push_token (en_accepts env client)) early new_chat_stream))
    \<and> (\<forall>c. connection = Some c \<longrightarrow>
        watch = Some (c, next_callback_id (cl_registry srv)) \<and>
        cl_registry srv1 = snd (track c (Some (Drop_chat client (pd_cancel p))) (cl_registry srv)))"
proof -
  let ?session = "set_cancel_callback (set_metadata (en_accepts env client) (pd_id p) (pd_created p)
        (pd_model p) (fold (push_token (en_accepts env client)) early new_chat_stream))"
  let ?mid = "srv\<lparr>sr_service := service, cl_chats := (cl_chats srv)(client := ?session)\<rparr>"
  obtain watch mid where w: "watch_connection connection (Drop_chat client (pd_cancel p)) ?mid = (watch, mid)"
    by fastforce
  have mid: "sr_executor mid = sr_executor srv" "sr_stopping mid = sr_stopping srv" "cl_sent mid = cl_sent srv"
      "cl_chats mid = (cl_chats srv)(client := ?session)"
      "\<And>c. connection = Some c \<Longrightarrow> watch = Some (c, next_callback_id (cl_registry srv)) \<and>
        cl_registry mid = snd (track c (Some (Drop_chat client (pd_cancel p))) (cl_registry srv))"
    using w by (auto simp: watch_connection_def track_def Let_def split: option.splits)
  have "submit_background (Finish_chat client watch p) mid =
      (Inr (), mid\<lparr>sr_executor := (sr_executor mid)\<lparr>tasks := tasks (sr_executor mid) @ [Finish_chat client watch p]\<rparr>\<rparr>)"
    using submit_background_accepts [of mid] accepting mid by simp
  then show ?thesis
    using begun later w mid
    by (intro exI [of _ watch] exI) (auto simp: start_stream_completion_def Let_def reply_def)
qed

lemma chat_rep'_set_cancel [simp]: "chat_rep' i c m (set_cancel_callback s) a = chat_rep' i c m s a"
  by (simp add: chat_rep'_def chat_rep_def holds_def set_cancel_callback_def)

lemma enabled_tokens [simp]: "enabled_run (map Token ts @ ops) a = enabled_run ops (a\<lparr>a_tokens := a_tokens a @ filter (\<lambda>t. t \<noteq> []) ts\<rparr>)"
  by (induction ts arbitrary: a) (auto simp: comp_def)

lemma abs_tokens [simp]:
  "fold abs_step (map Token ts) a = a\<lparr>a_tokens := a_tokens a @ filter (\<lambda>t. t \<noteq> []) ts\<rparr>"
  by (induction ts arbitrary: a) auto

lemma enabled_run_tokens:
  "enabled_run ops \<lparr>a_ready = x, a_attached = y, a_tokens = ts\<rparr> \<Longrightarrow>
   enabled_run ops \<lparr>a_ready = x, a_attached = y, a_tokens = ts'\<rparr>"
proof (induction ops arbitrary: x y ts ts')
  case (Cons op ops)
  then show ?case by (cases op) (auto split: if_splits intro: Cons.IH)
qed simp

text \<open>Of any token stream: what the early tokens and the metadata leave, and how it ends from there.\<close>

context token_stream
begin

lemma rep_early:
  "rep (fold step (map Token early @ [Metadata]) init)
    \<lparr>a_ready = True, a_attached = False, a_tokens = filter (\<lambda>t. t \<noteq> []) early\<rparr>"
  using rep_run [OF rep_init, of "map Token early @ [Metadata]"] by (simp add: abs_init_def)

lemma delivers_from:
  assumes "rep s \<lparr>a_ready = True, a_attached = False, a_tokens = ts\<rparr>"
    and "enabled_run ops \<lparr>a_ready = True, a_attached = False, a_tokens = []\<rparr>"
  shows "let s1 = finish r (fold step ops s);
             s2 = (if Attach \<in> set ops then s1 else step Attach s1)
         in wire_sent s2 = all_frames r (ts @ produced ops) \<and> wire_closed s2"
proof -
  let ?b = "fold abs_step ops \<lparr>a_ready = True, a_attached = False, a_tokens = ts\<rparr>"
  have "rep (fold step ops s) ?b" by (rule rep_run [OF assms(1) enabled_run_tokens [OF assms(2)]])
  moreover have "a_ready ?b" "a_attached ?b = (Attach \<in> set ops)" "a_tokens ?b = ts @ produced ops"
    by (simp_all add: abs_run_flags abs_run_tokens)
  ultimately show ?thesis
    using finish_attached [of "fold step ops s" ?b r] finish_detached [of "fold step ops s" ?b r]
    by (simp add: Let_def)
qed

end

lemma chat_tokens_fold: "fold (push_token accepts_all) ts s = fold (chat_step i c m) (map Token ts) s"
  by (induction ts arbitrary: s) simp_all

section \<open>Properties\<close>




lemma connection_event_nothing:
  "handle_connection_event connection gone (cl_registry srv) = ([], cl_registry srv) \<Longrightarrow>
   connection_event env connection gone srv = srv"
  by (simp add: connection_event_def)

text \<open>
  C7. A disconnect. When the connection of a streamed completion is reported gone, its one tracked
  callback runs: the session is closed for good, so that neither a late token nor the task that
  finishes the stream reaches the wire, whatever the result; the generation is cancelled on the
  agent exactly once, the disconnect is counted, nothing else is sent, and nothing stays tracked
  for the connection, so that a second report changes nothing.
\<close>

theorem disconnect_ends_stream:
  assumes watched: "tracked (cl_registry srv) c = [(i, Some (Drop_chat client cancel))]"
    and ready: "fs_metadata_ready (cl_chats srv client)" and gone: "gone c"
  shows "let srv' = connection_event env (Some c) gone srv;
             session = cl_chats srv' client
         in wire_sent session = wire_sent (cl_chats srv client)
          \<and> wire_sent (fold (push_token accepts) late session) = wire_sent session
          \<and> wire_sent (cl_chats (run_task env fk alive (Finish_chat client watch p) srv') client) = wire_sent session
          \<and> sr_service srv' = run_cancel (en_ops env) cancel (sr_service srv)
          \<and> sr_metrics srv' = increment_stream_disconnects (sr_metrics srv)
          \<and> cl_sent srv' = cl_sent srv \<and> tasks (sr_executor srv') = tasks (sr_executor srv)
          \<and> connection_event env (Some c) gone srv' = srv'"
proof -
  let ?s = "cl_chats srv client"
  obtain r where r: "handle_connection_event (Some c) gone (cl_registry srv) = ([(i, Drop_chat client cancel)], r)"
    using event_runs [of c gone "cl_registry srv"] watched gone by (metis concat.simps fst_conv list.map
        option.simps(5) append_Nil2 old.prod.case surj_pair)
  let ?srv = "connection_event env (Some c) gone srv"
  have srv': "?srv = srv\<lparr>cl_registry := r, cl_chats := (cl_chats srv)(client := close_stream ?s),
      sr_service := run_cancel (en_ops env) cancel (sr_service srv),
      sr_metrics := increment_stream_disconnects (sr_metrics srv)\<rparr>"
    by (simp add: connection_event_def r on_chat_def Let_def close_stream_def)
  have closed: "frozen (close_stream ?s) (close_stream ?s)"
    using ready by (simp add: frozen_def close_stream_def)
  have "wire_sent (close_stream ?s) = wire_sent ?s" by (simp add: close_stream_def)
  moreover have "frozen (close_stream ?s) (fold (push_token accepts) late (close_stream ?s))"
    by (rule frozen_push_tokens [OF closed])
  moreover have "frozen (close_stream ?s) (cl_chats (run_task env fk alive (Finish_chat client watch p) ?srv) client)"
    unfolding finish_chat_session using closed
    by (simp add: srv' frozen_finish_success frozen_finish_error split: sum.split)
  moreover have "connection_event env (Some c) gone ?srv = ?srv"
  proof -
    have none: "map_of (callbacks r) c = None"
      using r gone by (auto simp: handle_connection_event_def store_simps split: option.splits)
    then have "handle_connection_event (Some c) gone (cl_registry ?srv) = ([], cl_registry ?srv)"
      by (simp add: handle_connection_event_def srv')
    then show ?thesis by (rule connection_event_nothing)
  qed
  ultimately show ?thesis by (simp add: srv' frozen_def Let_def)
qed

theorem disconnect_ends_stream_witness:
  "let srv = (demo_server 1)\<lparr>cl_registry := \<lparr>next_callback_id = 2,
                callbacks = [(3, [(1, Some (Drop_chat 7 50))])]\<rparr>,
              cl_chats := (\<lambda>_. new_chat_stream\<lparr>fs_metadata_ready := True, fs_stream := True,
                fs_cancel_callback := True, wire_sent := [''a'']\<rparr>)\<rparr>;
       srv' = connection_event demo_env (Some 3) (\<lambda>_. True) srv
   in wire_sent (fold (push_token accepts_all) [''late''] (cl_chats srv' 7)) = [''a'']
    \<and> sv_agent (sr_service srv') = Some (50, [50])"
proof -
  let ?srv = "(demo_server 1)\<lparr>cl_registry := \<lparr>next_callback_id = 2,
                callbacks = [(3, [(1, Some (Drop_chat 7 50))])]\<rparr>,
              cl_chats := (\<lambda>_. new_chat_stream\<lparr>fs_metadata_ready := True, fs_stream := True,
                fs_cancel_callback := True, wire_sent := [''a'']\<rparr>)\<rparr>"
  have "tracked (cl_registry ?srv) 3 = [(1, Some (Drop_chat 7 50))]" "fs_metadata_ready (cl_chats ?srv 7)"
    by (simp_all add: tracked_def)
  from disconnect_ends_stream [OF this, of "\<lambda>_. True" demo_env accepts_all "[''late'']"]
  have "wire_sent (fold (push_token accepts_all) [''late'']
        (cl_chats (connection_event demo_env (Some 3) (\<lambda>_. True) ?srv) 7)) = wire_sent (cl_chats ?srv 7)"
    "sr_service (connection_event demo_env (Some 3) (\<lambda>_. True) ?srv) = run_cancel (en_ops demo_env) 50 (sr_service ?srv)"
    by (simp_all only: Let_def HOL.simp_thms)
  then show ?thesis
    by (simp add: demo_server_def demo_env_def run_cancel_def demo_ops_def demo_service_def make_chat_service_def)
qed

end
