(* ===== verification/Service_Threads.thy ===== *)
theory Service_Threads
  imports Session_Threads Chat_Service
begin

text \<open>
  The chat service under concurrency. Any number of threads run the operations of
  \<^verbatim>\<open>chat_service.cpp\<close>; a step is one critical section or one atomic operation of one thread:
  taking an identifier, a section of the session store, a call of the agent, a change of the
  table of tracked session requests or of the table of cancellers, a change of the retained
  history. Between its steps a thread keeps its local variables (its program point).

  \<open>simulates_session_threads\<close> shows that the service's use of its store is a run of the store's
  own threads (\<open>Session_Threads\<close>), whose theorems therefore hold in every run of the service.
  The properties are about what is left behind when requests end, in every interleaving.
\<close>

section \<open>Program points\<close>

datatype service_request =
    Chat_request chat_completion_request
  | Extraction_request extraction_request
  | Agent_request agent_chat_request

fun request_session :: "service_request \<Rightarrow> string option" where
  "request_session (Chat_request q) = cc_session_id q"
| "request_session (Extraction_request q) = ex_session_id q"
| "request_session (Agent_request q) = None"

fun request_model :: "service_request \<Rightarrow> string" where
  "request_model (Chat_request q) = cc_model q"
| "request_model (Extraction_request q) = ex_model q"
| "request_model (Agent_request q) = ac_model q"

text \<open>The request handed to \<^verbatim>\<open>begin_request\<close>: an extraction is rewritten as a completion.\<close>

fun begin_form :: "service_request \<Rightarrow> chat_completion_request" where
  "begin_form (Chat_request q) = q"
| "begin_form (Extraction_request q) =
     \<lparr>cc_model = ex_model q, cc_messages = ex_messages q, cc_stream = False,
      cc_session_id = ex_session_id q, cc_overrides = no_overrides\<rparr>"
| "begin_form (Agent_request q) =
     \<lparr>cc_model = ac_model q, cc_messages = [ac_message q], cc_stream = False,
      cc_session_id = None, cc_overrides = no_overrides\<rparr>"

fun public_id :: "service_request \<Rightarrow> u64 \<Rightarrow> string" where
  "public_id (Extraction_request q) n = extraction_name n"
| "public_id _ n = completion_name n"

text \<open>
  The messages of a request without a session: the system prompt is read under its mutex, or the
  retained history is read and the message validated under its own. \<open>None\<close> is a refusal.
\<close>

fun stateless_messages ::
  "role_validator \<Rightarrow> service_request \<Rightarrow> 'ag chat_service \<Rightarrow> chat_message list option" where
  "stateless_messages vrs (Chat_request q) sv = Some (prepare_messages (sv_request_system_prompt sv) q)"
| "stateless_messages vrs (Extraction_request q) sv =
     Some (prepare_extraction_messages (sv_request_system_prompt sv) q)"
| "stateless_messages vrs (Agent_request q) sv =
     (case validate_message_sequence vrs (sv_agent_history sv) (msg_role (ac_message q)) of
        Inl e \<Rightarrow> None
      | Inr _ \<Rightarrow> Some (sv_agent_history sv @ [ac_message q]))"

text \<open>The call of the agent; the answer is the request id of the handle.\<close>

fun call_agent ::
  "'ag agent_ops \<Rightarrow> service_request \<Rightarrow> chat_message list \<Rightarrow> 'ag chat_service \<Rightarrow> u64 \<times> 'ag chat_service" where
  "call_agent ops (Chat_request q) messages sv =
     map_prod handle_id id (agent_complete ops messages (merge_chat_overrides (sv_default_generation sv) q) sv)"
| "call_agent ops (Extraction_request q) messages sv =
     map_prod handle_id id
       (agent_extract ops (ex_schema q) messages (merge_extraction_overrides (sv_default_generation sv) q) sv)"
| "call_agent ops (Agent_request q) messages sv =
     map_prod handle_id id (agent_complete ops messages (merge_agent_overrides (sv_default_generation sv) q) sv)"

fun request_observer :: "service_request \<Rightarrow> observer" where
  "request_observer (Agent_request q) = Append_to_history (ac_message q)"
| "request_observer _ = No_observer"

record session_job =
  job_request :: service_request
  job_session :: string
  job_message :: chat_message
  job_id :: u64

abbreviation job_name :: "session_job \<Rightarrow> string" where
  "job_name j \<equiv> public_id (job_request j) (job_id j)"

datatype service_pc =
    Resting
  \<comment> \<open>a request on a session\<close>
  | Taken service_request u64
  | Looked session_job nat
  | Begun session_job "chat_message list"
  | Called session_job u64
  | Tracked session_job u64
  | Running session_job u64
  | Untracking session_job u64 "string runtime_result"
  | Committing_at session_job u64 "string runtime_result" nat
  | Observed session_job u64
  | Unregistered session_job u64
  | Untracked session_job
  | Freeing session_job nat
  \<comment> \<open>a request without a session\<close>
  | Prepared service_request "chat_message list"
  | Asked service_request u64
  | Numbered service_request u64 u64
  | Serving service_request u64 u64
  | Served service_request u64 u64
  \<comment> \<open>cancelling, deleting, setting the prompt, stopping\<close>
  | Cancelling u64
  | Erased string nat
  | Closed string
  | Prompting string
  | Prompted string
  | Shutting "(string \<times> nat) list"
  | Shut

record 'ag service_sys =
  svc :: "'ag chat_service"
  svc_pcs :: "nat \<Rightarrow> service_pc"

definition go :: "'ag service_sys \<Rightarrow> nat \<Rightarrow> service_pc \<Rightarrow> 'ag chat_service \<Rightarrow> 'ag service_sys" where
  "go s i pc sv = s\<lparr>svc := sv, svc_pcs := (svc_pcs s)(i := pc)\<rparr>"

abbreviation with_store :: "'ag chat_service \<Rightarrow> session_store \<Rightarrow> 'ag chat_service" where
  "with_store sv st \<equiv> sv\<lparr>sv_session_store := st\<rparr>"

text \<open>Operations that are one critical section.\<close>

datatype service_section =
    Create_session session_create_request int
  | Get_session string int
  | Reap int
  | Clear_history
  | Replace_history "chat_message list"
  | Swap_history "chat_message list"
  | Append_history chat_message

fun run_section ::
  "'ag agent_ops \<Rightarrow> role_validator \<Rightarrow> service_section \<Rightarrow> 'ag chat_service \<Rightarrow> 'ag chat_service" where
  "run_section ops vrs (Create_session q now) sv = snd (service_create_session ops q now sv)"
| "run_section ops vrs (Get_session k now) sv = snd (service_get_session k now sv)"
| "run_section ops vrs (Reap now) sv = reap_sessions now sv"
| "run_section ops vrs Clear_history sv = snd (clear_agent_history ops sv)"
| "run_section ops vrs (Replace_history ms) sv = snd (replace_agent_history ops ms sv)"
| "run_section ops vrs (Swap_history ms) sv = snd (swap_agent_history ops ms sv)"
| "run_section ops vrs (Append_history m) sv = snd (append_agent_history_message ops vrs m sv)"

section \<open>Steps\<close>

text \<open>
  \<open>service_step ops vrs i s t\<close>: thread \<open>i\<close> takes one step. Requests, clock readings and results
  are arbitrary; a step whose operation is refused goes back to \<open>Resting\<close>.
\<close>

inductive service_step ::
  "'ag agent_ops \<Rightarrow> role_validator \<Rightarrow> nat \<Rightarrow> 'ag service_sys \<Rightarrow> 'ag service_sys \<Rightarrow> bool"
  for ops vrs i s where
  take_id: "svc_pcs s i = Resting \<Longrightarrow> is_ready ops (svc s) \<Longrightarrow> request_session q \<noteq> None \<Longrightarrow>
     take_completion_id (svc s) = (r, sv) \<Longrightarrow> service_step ops vrs i s (go s i (Taken q r) sv)"
| begin_invalid: "svc_pcs s i = Taken q r \<Longrightarrow>
     begin_validate (begin_form q) (sv_session_store (svc s)) = Inl e \<Longrightarrow>
     service_step ops vrs i s (go s i Resting (svc s))"
| begin_unknown: "svc_pcs s i = Taken q r \<Longrightarrow>
     begin_validate (begin_form q) (sv_session_store (svc s)) = Inr (k, m) \<Longrightarrow>
     begin_lookup k now (sv_session_store (svc s)) = (None, st) \<Longrightarrow>
     service_step ops vrs i s (go s i Resting (with_store (svc s) st))"
| begin_found: "svc_pcs s i = Taken q r \<Longrightarrow>
     begin_validate (begin_form q) (sv_session_store (svc s)) = Inr (k, m) \<Longrightarrow>
     begin_lookup k now (sv_session_store (svc s)) = (Some a, st) \<Longrightarrow>
     j = \<lparr>job_request = q, job_session = k, job_message = m, job_id = r\<rparr> \<Longrightarrow>
     service_step ops vrs i s (go s i (Looked j a) (with_store (svc s) st))"
| begin_refused: "svc_pcs s i = Looked j a \<Longrightarrow>
     begin_activate (job_session j) (job_message j) (job_id j) a started now (sv_session_store (svc s)) = (Inl e, st) \<Longrightarrow>
     service_step ops vrs i s (go s i Resting (with_store (svc s) st))"
| begin_done: "svc_pcs s i = Looked j a \<Longrightarrow>
     begin_activate (job_session j) (job_message j) (job_id j) a started now (sv_session_store (svc s)) = (Inr b, st) \<Longrightarrow>
     service_step ops vrs i s (go s i (Begun j (br_messages b)) (with_store (svc s) st))"
| call: "svc_pcs s i = Begun j ms \<Longrightarrow> call_agent ops (job_request j) ms (svc s) = (z, sv) \<Longrightarrow>
     service_step ops vrs i s (go s i (Called j z) sv)"
| track: "svc_pcs s i = Called j z \<Longrightarrow>
     service_step ops vrs i s (go s i (Tracked j z) (track_session_request (job_session j) z (svc s)))"
| register: "svc_pcs s i = Tracked j z \<Longrightarrow>
     service_step ops vrs i s (go s i (Running j z) (register_public_request (job_name j) z (svc s)))"
| observe_untrack: "svc_pcs s i = Running j z \<Longrightarrow>
     service_step ops vrs i s (go s i (Untracking j z t) (untrack_session_request (job_session j) (svc s)))"
| commit_gone: "svc_pcs s i = Untracking j z t \<Longrightarrow>
     map_of (st_sessions (sv_session_store (svc s))) (job_session j) = None \<Longrightarrow>
     service_step ops vrs i s (go s i (Observed j z) (svc s))"
| commit_found: "svc_pcs s i = Untracking j z t \<Longrightarrow>
     map_of (st_sessions (sv_session_store (svc s))) (job_session j) = Some a \<Longrightarrow>
     service_step ops vrs i s (go s i (Committing_at j z t a) (svc s))"
| commit_done: "svc_pcs s i = Committing_at j z t a \<Longrightarrow>
     st = commit_section (job_id j) (job_message j) t a now (sv_session_store (svc s)) \<Longrightarrow>
     service_step ops vrs i s (go s i (Observed j z) (with_store (svc s) st))"
| unregister: "svc_pcs s i = Running j z \<or> svc_pcs s i = Observed j z \<Longrightarrow>
     service_step ops vrs i s (go s i (Unregistered j z) (unregister_public_request (job_name j) (svc s)))"
| release_untrack: "svc_pcs s i = Unregistered j z \<Longrightarrow>
     service_step ops vrs i s (go s i (Untracked j) (untrack_session_request (job_session j) (svc s)))"
| release_gone: "svc_pcs s i = Untracked j \<Longrightarrow>
     map_of (st_sessions (sv_session_store (svc s))) (job_session j) = None \<Longrightarrow>
     service_step ops vrs i s (go s i Resting (svc s))"
| release_found: "svc_pcs s i = Untracked j \<Longrightarrow>
     map_of (st_sessions (sv_session_store (svc s))) (job_session j) = Some a \<Longrightarrow>
     service_step ops vrs i s (go s i (Freeing j a) (svc s))"
| release_done: "svc_pcs s i = Freeing j a \<Longrightarrow>
     st = release_section (job_id j) a now (sv_session_store (svc s)) \<Longrightarrow>
     service_step ops vrs i s (go s i Resting (with_store (svc s) st))"
| prepare: "svc_pcs s i = Resting \<Longrightarrow> is_ready ops (svc s) \<Longrightarrow> request_session q = None \<Longrightarrow>
     request_model q = sv_model_id (svc s) \<Longrightarrow> stateless_messages vrs q (svc s) = Some ms \<Longrightarrow>
     service_step ops vrs i s (go s i (Prepared q ms) (svc s))"
| ask: "svc_pcs s i = Prepared q ms \<Longrightarrow> call_agent ops q ms (svc s) = (z, sv) \<Longrightarrow>
     service_step ops vrs i s (go s i (Asked q z) sv)"
| number: "svc_pcs s i = Asked q z \<Longrightarrow> take_completion_id (svc s) = (r, sv) \<Longrightarrow>
     service_step ops vrs i s (go s i (Numbered q r z) sv)"
| publish: "svc_pcs s i = Numbered q r z \<Longrightarrow>
     service_step ops vrs i s (go s i (Serving q r z) (register_public_request (public_id q r) z (svc s)))"
| serve: "svc_pcs s i = Serving q r z \<Longrightarrow>
     service_step ops vrs i s (go s i (Served q r z) (observe now (request_observer q) result (svc s)))"
| withdraw: "svc_pcs s i = Serving q r z \<or> svc_pcs s i = Served q r z \<Longrightarrow>
     service_step ops vrs i s (go s i Resting (unregister_public_request (public_id q r) (svc s)))"
| cancel_find: "svc_pcs s i = Resting \<Longrightarrow> map_of (sv_public_request_cancellers (svc s)) x = Some z \<Longrightarrow>
     service_step ops vrs i s (go s i (Cancelling z) (svc s))"
| cancel_run: "svc_pcs s i = Cancelling z \<Longrightarrow>
     service_step ops vrs i s (go s i Resting (run_cancel ops z (svc s)))"
| delete_find: "svc_pcs s i = Resting \<Longrightarrow> sessions_enabled (st_config (sv_session_store (svc s))) \<Longrightarrow>
     erase_section k (sv_session_store (svc s)) = (Some a, st) \<Longrightarrow>
     service_step ops vrs i s (go s i (Erased k a) (with_store (svc s) st))"
| delete_close: "svc_pcs s i = Erased k a \<Longrightarrow>
     service_step ops vrs i s (go s i (Closed k) (with_store (svc s) (close_section a (sv_session_store (svc s)))))"
| delete_idle: "svc_pcs s i = Closed k \<Longrightarrow> map_of (sv_active_session_requests (svc s)) k = None \<Longrightarrow>
     service_step ops vrs i s (go s i Resting (svc s))"
| delete_tracked: "svc_pcs s i = Closed k \<Longrightarrow> map_of (sv_active_session_requests (svc s)) k = Some z \<Longrightarrow>
     pc = (if z \<noteq> 0 then Cancelling z else Resting) \<Longrightarrow>
     service_step ops vrs i s (go s i pc (untrack_session_request k (svc s)))"
| single: "svc_pcs s i = Resting \<Longrightarrow>
     service_step ops vrs i s (go s i Resting (run_section ops vrs op (svc s)))"
| prompt_state: "svc_pcs s i = Resting \<Longrightarrow>
     service_step ops vrs i s (go s i (Prompting p) (update_system_prompt_state p (svc s)))"
| prompt_agent: "svc_pcs s i = Prompting p \<Longrightarrow>
     sv = (svc s)\<lparr>sv_agent := map_option (ag_set_system_prompt ops p) (sv_agent (svc s))\<rparr> \<Longrightarrow>
     service_step ops vrs i s (go s i (Prompted p) sv)"
| prompt_store: "svc_pcs s i = Prompted p \<Longrightarrow>
     service_step ops vrs i s (go s i Resting (with_store (svc s) (set_base_system_prompt p (sv_session_store (svc s)))))"
| stop_swap: "svc_pcs s i = Resting \<Longrightarrow> \<not> st_stopping (sv_session_store (svc s)) \<Longrightarrow>
     service_step ops vrs i s (go s i (Shutting (st_sessions (sv_session_store (svc s))))
       (with_store (svc s) (stop_section (sv_session_store (svc s)))))"
| stop_again: "svc_pcs s i = Resting \<Longrightarrow> st_stopping (sv_session_store (svc s)) \<Longrightarrow>
     service_step ops vrs i s (go s i Shut (svc s))"
| stop_close: "svc_pcs s i = Shutting ((k, a) # es) \<Longrightarrow>
     service_step ops vrs i s (go s i (Shutting es) (with_store (svc s) (close_section a (sv_session_store (svc s)))))"
| stop_closed: "svc_pcs s i = Shutting [] \<Longrightarrow> service_step ops vrs i s (go s i Shut (svc s))"
| stop_agent: "svc_pcs s i = Shut \<Longrightarrow>
     sv = (svc s)\<lparr>sv_agent := map_option (ag_stop ops) (sv_agent (svc s))\<rparr> \<Longrightarrow>
     service_step ops vrs i s (go s i Resting sv)"

text \<open>A run of \<open>n\<close> steps.\<close>

inductive service_run ::
  "'ag agent_ops \<Rightarrow> role_validator \<Rightarrow> 'ag service_sys \<Rightarrow> nat \<Rightarrow> 'ag service_sys \<Rightarrow> bool"
  for ops vrs s0 where
  start: "service_run ops vrs s0 0 s0"
| step: "service_run ops vrs s0 n s \<Longrightarrow> service_step ops vrs i s t \<Longrightarrow> service_run ops vrs s0 (Suc n) t"

text \<open>The service as \<^verbatim>\<open>create\<close> leaves it, with every thread at rest.\<close>

definition service_init ::
  "string \<Rightarrow> int \<Rightarrow> string \<Rightarrow> tool_definition list \<Rightarrow> 'ag option \<Rightarrow> session_config \<Rightarrow> nat \<Rightarrow>
     generation_options \<Rightarrow> 'ag service_sys" where
  "service_init model_id context_size prompt metadata agent config history options =
     \<lparr>svc = make_chat_service model_id context_size prompt metadata agent
        (make_session_store model_id config prompt history) options,
      svc_pcs = (\<lambda>_. Resting)\<rparr>"

lemma go_simps [simp]: "svc (go s i pc sv) = sv" "svc_pcs (go s i pc sv) = (svc_pcs s)(i := pc)"
  by (simp_all add: go_def)


section \<open>What a thread holds\<close>

fun job_of :: "service_pc \<Rightarrow> session_job option" where
  "job_of (Looked j a) = Some j"
| "job_of (Begun j ms) = Some j"
| "job_of (Called j z) = Some j"
| "job_of (Tracked j z) = Some j"
| "job_of (Running j z) = Some j"
| "job_of (Untracking j z t) = Some j"
| "job_of (Committing_at j z t a) = Some j"
| "job_of (Observed j z) = Some j"
| "job_of (Unregistered j z) = Some j"
| "job_of (Untracked j) = Some j"
| "job_of (Freeing j a) = Some j"
| "job_of _ = None"

fun held_id :: "service_pc \<Rightarrow> u64 option" where
  "held_id (Taken q r) = Some r"
| "held_id (Numbered q r z) = Some r"
| "held_id (Serving q r z) = Some r"
| "held_id (Served q r z) = Some r"
| "held_id pc = map_option job_id (job_of pc)"

text \<open>The entry a thread has in the table of cancellers, and in the table of session requests.\<close>

fun registered :: "service_pc \<Rightarrow> (string \<times> u64) option" where
  "registered (Running j z) = Some (job_name j, z)"
| "registered (Untracking j z t) = Some (job_name j, z)"
| "registered (Committing_at j z t a) = Some (job_name j, z)"
| "registered (Observed j z) = Some (job_name j, z)"
| "registered (Serving q r z) = Some (public_id q r, z)"
| "registered (Served q r z) = Some (public_id q r, z)"
| "registered _ = None"

fun tracking :: "service_pc \<Rightarrow> (string \<times> u64) option" where
  "tracking (Tracked j z) = Some (job_session j, z)"
| "tracking (Running j z) = Some (job_session j, z)"
| "tracking (Unregistered j z) = Some (job_session j, z)"
| "tracking _ = None"

text \<open>The session object a thread may have made busy: the one its session id denotes until it frees it.\<close>

fun occupies :: "service_pc \<Rightarrow> string \<Rightarrow> u64 \<Rightarrow> nat \<Rightarrow> bool" where
  "occupies (Looked j a) k r b = False"
| "occupies (Freeing j a) k r b = (job_session j = k \<and> job_id j = r \<and> b = a)"
| "occupies pc k r b = (\<exists>j. job_of pc = Some j \<and> job_session j = k \<and> job_id j = r)"

section \<open>The store's threads\<close>

fun store_pc :: "service_pc \<Rightarrow> session_pc" where
  "store_pc (Looked j a) = Beginning (job_session j) (job_message j) (job_id j) a"
| "store_pc (Committing_at j z t a) = Committing (job_id j) (job_message j) t a"
| "store_pc (Freeing j a) = Releasing (job_id j) a"
| "store_pc (Erased k a) = Deleting a"
| "store_pc (Shutting es) = Stopping es"
| "store_pc _ = Idle"

definition threads :: "'ag service_sys \<Rightarrow> session_sys" where
  "threads s = \<lparr>sys_store = sv_session_store (svc s), sys_pcs = (\<lambda>i. store_pc (svc_pcs s i))\<rparr>"

lemma threads_simps [simp]:
  "sys_store (threads s) = sv_session_store (svc s)" "sys_pcs (threads s) i = store_pc (svc_pcs s i)"
  by (simp_all add: threads_def)

lemma threads_go [simp]:
  "threads (go s i pc sv) = move (threads s) i (store_pc pc) (sv_session_store sv)"
  by (auto simp: threads_def move_def go_def)

lemma move_same: "sys_store s = st \<Longrightarrow> sys_pcs s i = pc \<Longrightarrow> move s i pc st = s"
  by (auto simp: move_def)

text \<open>Frames: what the operations that do not use the store leave in place.\<close>

lemma call_agent_frame:
  assumes "call_agent ops q ms sv = (z, sv')"
  shows "sv_session_store sv' = sv_session_store sv"
    "sv_active_session_requests sv' = sv_active_session_requests sv"
    "sv_public_request_cancellers sv' = sv_public_request_cancellers sv"
    "sv_next_completion_id sv' = sv_next_completion_id sv"
  using assms by (cases q; auto simp: agent_complete_def agent_extract_def split: prod.splits)+

lemma take_completion_id_frame:
  assumes "take_completion_id sv = (r, sv')"
  shows "r = sv_next_completion_id sv" "sv_next_completion_id sv' = sv_next_completion_id sv + 1"
    "sv_session_store sv' = sv_session_store sv"
    "sv_active_session_requests sv' = sv_active_session_requests sv"
    "sv_public_request_cancellers sv' = sv_public_request_cancellers sv"
  using assms by (auto simp: take_completion_id_def)

lemma table_frames [simp]:
  "sv_session_store (track_session_request k z sv) = sv_session_store sv"
  "sv_session_store (untrack_session_request k sv) = sv_session_store sv"
  "sv_session_store (register_public_request x z sv) = sv_session_store sv"
  "sv_session_store (unregister_public_request x sv) = sv_session_store sv"
  "sv_active_session_requests (track_session_request k z sv) = al_put k z (sv_active_session_requests sv)"
  "sv_active_session_requests (untrack_session_request k sv) = al_erase k (sv_active_session_requests sv)"
  "sv_active_session_requests (register_public_request x z sv) = sv_active_session_requests sv"
  "sv_active_session_requests (unregister_public_request x sv) = sv_active_session_requests sv"
  "sv_public_request_cancellers (track_session_request k z sv) = sv_public_request_cancellers sv"
  "sv_public_request_cancellers (untrack_session_request k sv) = sv_public_request_cancellers sv"
  "sv_public_request_cancellers (register_public_request x z sv) = al_put x z (sv_public_request_cancellers sv)"
  "sv_public_request_cancellers (unregister_public_request x sv) = al_erase x (sv_public_request_cancellers sv)"
  "sv_next_completion_id (track_session_request k z sv) = sv_next_completion_id sv"
  "sv_next_completion_id (untrack_session_request k sv) = sv_next_completion_id sv"
  "sv_next_completion_id (register_public_request x z sv) = sv_next_completion_id sv"
  "sv_next_completion_id (unregister_public_request x sv) = sv_next_completion_id sv"
  by (simp_all add: track_session_request_def untrack_session_request_def register_public_request_def
      unregister_public_request_def)

lemma other_frames [simp]:
  "sv_session_store (run_cancel ops z sv) = sv_session_store sv"
  "sv_active_session_requests (run_cancel ops z sv) = sv_active_session_requests sv"
  "sv_public_request_cancellers (run_cancel ops z sv) = sv_public_request_cancellers sv"
  "sv_next_completion_id (run_cancel ops z sv) = sv_next_completion_id sv"
  "sv_session_store (update_system_prompt_state p sv) = sv_session_store sv"
  "sv_active_session_requests (update_system_prompt_state p sv) = sv_active_session_requests sv"
  "sv_public_request_cancellers (update_system_prompt_state p sv) = sv_public_request_cancellers sv"
  "sv_next_completion_id (update_system_prompt_state p sv) = sv_next_completion_id sv"
  "sv_session_store (observe now (request_observer q) result sv) = sv_session_store sv"
  "sv_active_session_requests (observe now (request_observer q) result sv) = sv_active_session_requests sv"
  "sv_public_request_cancellers (observe now (request_observer q) result sv) = sv_public_request_cancellers sv"
  "sv_next_completion_id (observe now (request_observer q) result sv) = sv_next_completion_id sv"
  by (simp_all add: run_cancel_def update_system_prompt_state_def Let_def)
    (cases q; simp add: observe_def split: sum.splits)+

lemma run_section_frames [simp]:
  "sv_active_session_requests (run_section ops vrs op sv) = sv_active_session_requests sv"
  "sv_public_request_cancellers (run_section ops vrs op sv) = sv_public_request_cancellers sv"
  "sv_next_completion_id (run_section ops vrs op sv) = sv_next_completion_id sv"
  by (cases op; simp add: service_create_session_def service_get_session_def reap_sessions_def
      clear_agent_history_def reset_agent_history_to_system_prompt_def replace_agent_history_def
      swap_agent_history_def append_agent_history_message_def Let_def split: prod.splits sum.splits)+

lemma run_section_store:
  "sv_session_store (run_section ops vrs op sv) = sv_session_store sv \<or>
   (\<exists>q now. sv_session_store (run_section ops vrs op sv) = snd (create_session q now (sv_session_store sv))) \<or>
   (\<exists>k now. sv_session_store (run_section ops vrs op sv) = snd (get_session k now (sv_session_store sv))) \<or>
   (\<exists>now. sv_session_store (run_section ops vrs op sv) = reap_expired_sessions now (sv_session_store sv))"
proof (cases op)
  case (Create_session q now)
  then have "sv_session_store (run_section ops vrs op sv) =
      (if is_ready ops sv then snd (create_session q now (sv_session_store sv)) else sv_session_store sv)"
    by (simp add: service_create_session_def split: prod.splits)
  then show ?thesis by (cases "is_ready ops sv") auto
next
  case (Get_session k now)
  then have "sv_session_store (run_section ops vrs op sv) = snd (get_session k now (sv_session_store sv))"
    by (simp add: service_get_session_def split: prod.splits)
  then show ?thesis by blast
next
  case (Reap now)
  then show ?thesis by (auto simp: reap_sessions_def)
qed (auto simp: clear_agent_history_def reset_agent_history_to_system_prompt_def replace_agent_history_def
      swap_agent_history_def append_agent_history_message_def Let_def split: sum.splits)

definition roles_ok :: "'ag service_sys \<Rightarrow> bool" where
  "roles_ok s \<longleftrightarrow> (\<forall>i j. job_of (svc_pcs s i) = Some j \<longrightarrow> msg_role (job_message j) = User)"

lemma roles_okD: "roles_ok s \<Longrightarrow> job_of (svc_pcs s i) = Some j \<Longrightarrow> msg_role (job_message j) = User"
  by (simp add: roles_ok_def)

lemma roles_go:
  "roles_ok s \<Longrightarrow> (\<And>j. job_of pc = Some j \<Longrightarrow> msg_role (job_message j) = User) \<Longrightarrow> roles_ok (go s i pc sv)"
  by (simp add: roles_ok_def)

lemma roles_step: "service_step ops vrs i s t \<Longrightarrow> roles_ok s \<Longrightarrow> roles_ok t"
  by (induction rule: service_step.induct)
    (auto intro!: roles_go simp: begin_validate_user dest: roles_okD [where i = i] split: if_splits)

lemma simulates_single:
  assumes idle: "sys_pcs (threads s) i = Idle"
  shows "move (threads s) i Idle (sv_session_store (run_section ops vrs op (svc s))) = threads s \<or>
    session_step (threads s) (move (threads s) i Idle (sv_session_store (run_section ops vrs op (svc s))))"
proof -
  note steps = session_step.create [OF idle, simplified] session_step.get [OF idle, simplified]
    session_step.reap [OF idle, simplified]
  from run_section_store [of ops vrs op "svc s"] show ?thesis
    using idle by (elim disjE exE) (simp_all add: steps move_same)
qed

lemma simulates_step:
  assumes "service_step ops vrs i s t" and roles: "roles_ok s"
  shows "threads t = threads s \<or> session_step (threads s) (threads t)"
  using assms(1)
proof cases
  case (single op)
  then show ?thesis using simulates_single [of s i ops vrs op] by simp
next
  case (begin_unknown q r k m now st)
  then show ?thesis using session_step.begin_reject [of "threads s" i "begin_form q" k m now st] by simp
next
  case (begin_found q r k m now a st j)
  then show ?thesis using session_step.begin_find [of "threads s" i "begin_form q" k m now a st r] by simp
next
  case (begin_refused j a st0 now e st)
  then show ?thesis
    using session_step.begin_finish [of "threads s" i "job_session j" "job_message j" "job_id j" a st0 now] by simp
next
  case (begin_done j a st0 now b st)
  then show ?thesis
    using session_step.begin_finish [of "threads s" i "job_session j" "job_message j" "job_id j" a st0 now] by simp
next
  case (commit_found j z x a)
  have "msg_role (job_message j) = User" using roles_okD [OF roles, of i] commit_found by simp
  then show ?thesis using commit_found
      session_step.commit_find [of "threads s" i "job_session j" a "job_message j" "job_id j" x] by simp
next
  case (prompt_store p)
  then show ?thesis using session_step.set_prompt [of "threads s" i p] by simp
qed (use session_step.intros(8-) [of "threads s" i] in \<open>auto simp: move_same take_completion_id_frame call_agent_frame\<close>)

lemma service_run_roles: "service_run ops vrs (service_init m n p md ag c h opts) k s \<Longrightarrow> roles_ok s"
  by (induction rule: service_run.induct) (auto simp: roles_step, simp add: service_init_def roles_ok_def)

lemma simulates:
  "service_run ops vrs (service_init m n p md ag c h opts) k s \<Longrightarrow>
     session_reachable (session_init m c p h) (threads s)"
proof (induction rule: service_run.induct)
  case start
  have "threads (service_init m n p md ag c h opts) = session_init m c p h"
    by (simp add: threads_def service_init_def session_init_def make_chat_service_def)
  then show ?case by (simp add: session_reachable.start)
next
  case (step k s i t)
  from simulates_step [OF step.hyps(2) service_run_roles [OF step.hyps(1)]] step.IH show ?case
    by (auto intro: session_reachable.step)
qed


lemma run_inv:
  assumes "service_run ops vrs (service_init m n p md ag c h opts) k s" and "h < 2 ^ 64 - 3"
  shows "session_inv (threads s)" "store_wf (sv_session_store (svc s))" "roles_ok s"
proof -
  show "roles_ok s" by (rule service_run_roles [OF assms(1)])
  show "session_inv (threads s)" using reachable_inv [OF simulates [OF assms(1)] assms(2)] by simp
  then show "store_wf (sv_session_store (svc s))" by (simp add: session_inv_def)
qed

section \<open>Identifiers\<close>

definition ids_ok :: "nat \<Rightarrow> 'ag service_sys \<Rightarrow> bool" where
  "ids_ok n s \<longleftrightarrow> unat (sv_next_completion_id (svc s)) \<le> Suc n \<and>
     (\<forall>i r. held_id (svc_pcs s i) = Some r \<longrightarrow> r < sv_next_completion_id (svc s)) \<and>
     (\<forall>i i' r. held_id (svc_pcs s i) = Some r \<longrightarrow> held_id (svc_pcs s i') = Some r \<longrightarrow> i = i')"

lemma ids_okD:
  assumes "ids_ok n s"
  shows "unat (sv_next_completion_id (svc s)) \<le> Suc n"
    and "held_id (svc_pcs s i) = Some r \<Longrightarrow> r < sv_next_completion_id (svc s)"
    and "held_id (svc_pcs s i) = Some r \<Longrightarrow> held_id (svc_pcs s i') = Some r \<Longrightarrow> i = i'"
  using assms by (auto simp: ids_ok_def)

lemma ids_keep:
  assumes ok: "ids_ok n s" and next_id: "sv_next_completion_id sv = sv_next_completion_id (svc s)"
    and pc: "held_id pc = None \<or> held_id pc = held_id (svc_pcs s i)"
  shows "ids_ok (Suc n) (go s i pc sv)"
proof -
  have "held_id (svc_pcs s i') = Some r" if "held_id (svc_pcs (go s i pc sv) i') = Some r" for i' r
    using that pc by (auto split: if_splits)
  then show ?thesis
    using ids_okD [OF ok] next_id by (simp only: ids_ok_def go_simps) (meson le_SucI)
qed

lemma ids_take:
  assumes "ids_ok n s" and "take_completion_id (svc s) = (r, sv)" and "held_id pc = Some r"
    and "n + 2 < 2 ^ 64"
  shows "ids_ok (Suc n) (go s i pc sv)"
proof -
  let ?n = "sv_next_completion_id (svc s)"
  have r: "r = ?n" "sv_next_completion_id sv = ?n + 1"
    using take_completion_id_frame [OF assms(2)] by auto
  have "unat ?n + 1 < 2 ^ 64" using assms(1,4) by (auto simp: ids_ok_def)
  then have "unat (?n + 1) = unat ?n + 1" by (simp add: unat_word_ariths)
  then have "?n < ?n + 1" "unat (?n + 1) \<le> Suc (Suc n)"
    using assms(1) by (auto simp: ids_ok_def word_less_nat_alt)
  with assms(1,3) r show ?thesis
    unfolding ids_ok_def by (auto intro: less_trans split: if_splits)
qed

lemma ids_step:
  assumes "service_step ops vrs i s t" and "ids_ok n s" and "n + 2 < 2 ^ 64"
  shows "ids_ok (Suc n) t"
  using assms(1)
proof cases
  case (take_id q r sv)
  then show ?thesis using ids_take [OF assms(2) _ _ assms(3)] by simp
next
  case (number q z r sv)
  then show ?thesis using ids_take [OF assms(2) _ _ assms(3)] by simp
qed (auto intro!: ids_keep [OF assms(2)] simp: call_agent_frame)

section \<open>The two tables\<close>

lemma public_id_inject: "public_id q r = public_id q' r' \<Longrightarrow> r = r'"
  by (cases q; cases q') auto

lemma registered_held: "registered pc = Some (x, z) \<Longrightarrow> \<exists>q r. held_id pc = Some r \<and> x = public_id q r"
  by (cases pc) auto

definition cancellers_ok :: "'ag service_sys \<Rightarrow> bool" where
  "cancellers_ok s \<longleftrightarrow> (\<forall>x z. map_of (sv_public_request_cancellers (svc s)) x = Some z \<longleftrightarrow>
     (\<exists>i. registered (svc_pcs s i) = Some (x, z)))"

lemma registered_other:
  assumes "ids_ok n s" and "registered (svc_pcs s i') = Some (public_id q r, z)"
    and "held_id (svc_pcs s i) = Some r"
  shows "i' = i"
  using registered_held [OF assms(2)] assms public_id_inject unfolding ids_ok_def by metis

lemma cancellers_go:
  assumes ok: "cancellers_ok s" and rest: "\<And>x z. x \<noteq> y \<Longrightarrow>
      map_of (sv_public_request_cancellers sv) x = map_of (sv_public_request_cancellers (svc s)) x"
    and others: "\<And>i' z. i' \<noteq> i \<Longrightarrow> registered (svc_pcs s i') \<noteq> Some (y, z)"
    and own: "\<And>z. registered pc = Some (y, z) \<longleftrightarrow> map_of (sv_public_request_cancellers sv) y = Some z"
    and moved: "\<And>x z. x \<noteq> y \<Longrightarrow> registered pc \<noteq> Some (x, z) \<and> registered (svc_pcs s i) \<noteq> Some (x, z)"
  shows "cancellers_ok (go s i pc sv)"
  unfolding cancellers_ok_def
proof (intro allI)
  fix x z
  show "map_of (sv_public_request_cancellers (svc (go s i pc sv))) x = Some z \<longleftrightarrow>
      (\<exists>i'. registered (svc_pcs (go s i pc sv) i') = Some (x, z))"
  proof (cases "x = y")
    case True
    then show ?thesis using others own by (auto simp: fun_upd_def)
  next
    case False
    have "registered (svc_pcs (go s i pc sv) i') = Some (x, z) \<longleftrightarrow> registered (svc_pcs s i') = Some (x, z)" for i'
      using moved [OF False] by (cases "i' = i") simp_all
    with False ok rest [OF False] show ?thesis by (simp add: cancellers_ok_def)
  qed
qed

lemma cancellers_keep:
  assumes ok: "cancellers_ok s"
    and same: "sv_public_request_cancellers sv = sv_public_request_cancellers (svc s)"
    and pc: "registered pc = registered (svc_pcs s i)"
  shows "cancellers_ok (go s i pc sv)"
proof -
  have "registered (svc_pcs (go s i pc sv) i') = registered (svc_pcs s i')" for i'
    using pc by simp
  with ok same show ?thesis by (simp add: cancellers_ok_def)
qed

lemma cancellers_put:
  assumes ok: "cancellers_ok s" and ids: "ids_ok n s" and held: "held_id (svc_pcs s i) = Some r"
    and none: "registered (svc_pcs s i) = None" and pc: "registered pc = Some (public_id q r, z)"
  shows "cancellers_ok (go s i pc (register_public_request (public_id q r) z (svc s)))"
proof (rule cancellers_go [OF ok, of "public_id q r"])
  show "registered (svc_pcs s i') \<noteq> Some (public_id q r, z')" if "i' \<noteq> i" for i' z'
    using registered_other [OF ids _ held] that by blast
qed (use none pc in \<open>auto simp: map_of_al_put\<close>)

lemma cancellers_erase:
  assumes ok: "cancellers_ok s" and ids: "ids_ok n s" and held: "held_id (svc_pcs s i) = Some r"
    and reg: "registered (svc_pcs s i) = Some (public_id q r, z)" and pc: "registered pc = None"
  shows "cancellers_ok (go s i pc (unregister_public_request (public_id q r) (svc s)))"
proof (rule cancellers_go [OF ok, of "public_id q r"])
  show "registered (svc_pcs s i') \<noteq> Some (public_id q r, z')" if "i' \<noteq> i" for i' z'
    using registered_other [OF ids _ held] that by blast
qed (use reg pc in \<open>auto simp: map_of_al_erase\<close>)

lemma cancellers_step:
  assumes "service_step ops vrs i s t" and ok: "cancellers_ok s" and ids: "ids_ok n s"
  shows "cancellers_ok t"
  using assms(1)
proof cases
  case (register j z)
  then show ?thesis using cancellers_put [OF ok ids, of i] by simp
next
  case (publish q r z)
  then show ?thesis using cancellers_put [OF ok ids, of i] by simp
next
  case (unregister j z)
  then show ?thesis using cancellers_erase [OF ok ids, of i] by auto
next
  case (withdraw q r z)
  then show ?thesis using cancellers_erase [OF ok ids, of i] by auto
qed (auto intro!: cancellers_keep [OF ok] simp: call_agent_frame take_completion_id_frame)

definition tracked_ok :: "'ag service_sys \<Rightarrow> bool" where
  "tracked_ok s \<longleftrightarrow> (\<forall>k z. map_of (sv_active_session_requests (svc s)) k = Some z \<longrightarrow>
     (\<exists>i. tracking (svc_pcs s i) = Some (k, z)))"

lemma tracked_go:
  assumes "tracked_ok s"
    and "\<And>k z. map_of (sv_active_session_requests sv) k = Some z \<Longrightarrow> tracking pc \<noteq> Some (k, z) \<Longrightarrow>
      map_of (sv_active_session_requests (svc s)) k = Some z \<and> tracking (svc_pcs s i) \<noteq> Some (k, z)"
  shows "tracked_ok (go s i pc sv)"
  using assms unfolding tracked_ok_def by (simp add: fun_upd_def) metis

lemma tracked_step:
  assumes "service_step ops vrs i s t" and ok: "tracked_ok s"
  shows "tracked_ok t"
  using assms(1)
  by cases (auto intro!: tracked_go [OF ok] simp: call_agent_frame take_completion_id_frame store_simps
      split: if_splits)

section \<open>Busy sessions\<close>

text \<open>What every operation but a started request does to the sessions: none becomes busy.\<close>

definition unmoved :: "session_store \<Rightarrow> session_store \<Rightarrow> bool" where
  "unmoved st st' \<longleftrightarrow> length (st_heap st) \<le> length (st_heap st') \<and>
     (\<forall>k a. map_of (st_sessions st') k = Some a \<longrightarrow>
        (a < length (st_heap st) \<longrightarrow> map_of (st_sessions st) k = Some a) \<and>
        (\<forall>r. s_active_request (st_heap st' ! a) = Some r \<longrightarrow>
           a < length (st_heap st) \<and> s_active_request (st_heap st ! a) = Some r))"

lemma unmoved_refl: "store_wf st \<Longrightarrow> unmoved st st"
  by (auto simp: unmoved_def dest: store_wfD(1))

lemma quietD:
  assumes "unmoved st st'"
  shows "length (st_heap st) \<le> length (st_heap st')"
    and "map_of (st_sessions st') k = Some a \<Longrightarrow> a < length (st_heap st) \<Longrightarrow>
      map_of (st_sessions st) k = Some a"
    and "map_of (st_sessions st') k = Some a \<Longrightarrow> s_active_request (st_heap st' ! a) = Some r \<Longrightarrow>
      a < length (st_heap st) \<and> s_active_request (st_heap st ! a) = Some r"
  using assms unfolding unmoved_def by blast+

lemma quietI:
  assumes "length (st_heap st) \<le> length (st_heap st')"
    and "\<And>k a. map_of (st_sessions st') k = Some a \<Longrightarrow> a < length (st_heap st) \<Longrightarrow>
      map_of (st_sessions st) k = Some a"
    and "\<And>k a r. map_of (st_sessions st') k = Some a \<Longrightarrow> s_active_request (st_heap st' ! a) = Some r \<Longrightarrow>
      a < length (st_heap st) \<and> s_active_request (st_heap st ! a) = Some r"
  shows "unmoved st st'"
  using assms unfolding unmoved_def by blast

lemma unmoved_trans:
  assumes "unmoved a b" "unmoved b c"
  shows "unmoved a c"
proof (rule quietI)
  show "length (st_heap a) \<le> length (st_heap c)"
    using quietD(1) [OF assms(1)] quietD(1) [OF assms(2)] by simp
  fix k x assume m: "map_of (st_sessions c) k = Some x"
  show "map_of (st_sessions a) k = Some x" if "x < length (st_heap a)"
    using quietD(2) [OF assms(2) m] quietD(2) [OF assms(1), of k x] quietD(1) [OF assms(1)] that by simp
  show "x < length (st_heap a) \<and> s_active_request (st_heap a ! x) = Some r"
    if "s_active_request (st_heap c ! x) = Some r" for r
    using quietD(3) [OF assms(2) m that] quietD(2) [OF assms(2) m] quietD(3) [OF assms(1), of k x r] by simp
qed

lemma unmoved_update:
  assumes "store_wf st" and "s_active_request x = None \<or> s_active_request x = s_active_request (st_heap st ! a)"
  shows "unmoved st (st\<lparr>st_heap := (st_heap st)[a := x]\<rparr>)"
proof (rule quietI)
  fix k b r
  let ?st = "st\<lparr>st_heap := (st_heap st)[a := x]\<rparr>"
  assume "map_of (st_sessions ?st) k = Some b" "s_active_request (st_heap ?st ! b) = Some r"
  with assms(2) store_wfD(1) [OF assms(1), of k b]
  show "b < length (st_heap st) \<and> s_active_request (st_heap st ! b) = Some r"
    by (cases "b = a") auto
qed simp_all

lemma unmoved_reap:
  assumes "store_wf st"
  shows "unmoved st (reap_expired_sessions_locked now st)"
proof (rule quietI)
  fix k a r
  assume "map_of (st_sessions (reap_expired_sessions_locked now st)) k = Some a"
  then show m: "map_of (st_sessions st) k = Some a"
    by (auto simp: map_of_reap [OF assms] split: option.splits if_splits)
  assume "s_active_request (st_heap (reap_expired_sessions_locked now st) ! a) = Some r"
  with reap_locked(3) [OF assms store_wfD(1) [OF assms m], of now] store_wfD(1) [OF assms m]
  show "a < length (st_heap st) \<and> s_active_request (st_heap st ! a) = Some r" by (auto split: if_splits)
qed (simp add: reap_locked(2) [OF assms])

lemma unmoved_add:
  assumes "store_wf st" and "s_active_request x = None"
  shows "unmoved st (st\<lparr>st_next_session_id := n, st_heap := st_heap st @ [x],
    st_sessions := al_emplace k (length (st_heap st)) (st_sessions st)\<rparr>)"
  using assms(2) store_wfD(1) [OF assms(1)]
  by (auto simp: unmoved_def map_of_al_emplace nth_append split: option.splits if_splits)

lemma unmoved_create:
  assumes "store_wf st"
  shows "unmoved st (snd (create_session q now st))"
proof -
  have r: "unmoved st (reap_expired_sessions_locked now st)" by (rule unmoved_reap [OF assms])
  note add = unmoved_trans [OF r unmoved_add [OF wf_reap [OF assms]]]
  show ?thesis using unmoved_refl [OF assms] r add [of "make_session_state x y t e h" for x y t e h, simplified]
    by (simp add: create_session_def Let_def make_session_state_def)
qed

lemma unmoved_section:
  assumes "store_wf st"
  shows "unmoved st (snd (get_session k now st))"
    "unmoved st (reap_expired_sessions now st)" "unmoved st (set_base_system_prompt p st)"
    "unmoved st (close_section a st)" "unmoved st (release_section r a now st)"
    "unmoved st (commit_section r m t a now st)" "unmoved st (snd (erase_section k st))"
    "unmoved st (stop_section st)"
proof -
  note wfD = store_wfD(1) [OF assms]
  have q: "unmoved st (reap_expired_sessions_locked now st)" by (rule unmoved_reap [OF assms])
  show "unmoved st (snd (get_session k now st))"
    using q unmoved_refl [OF assms] by (auto simp: get_session_def Let_def split: option.splits)
  show "unmoved st (reap_expired_sessions now st)"
    using q unmoved_refl [OF assms] by (simp add: reap_expired_sessions_def)
  show "unmoved st (set_base_system_prompt p st)" "unmoved st (stop_section st)"
    "unmoved st (snd (erase_section k st))"
    using wfD by (auto simp: unmoved_def set_base_system_prompt_def stop_section_def erase_section_def
        map_of_al_erase split: option.splits if_splits)
  show "unmoved st (close_section a st)" "unmoved st (release_section r a now st)"
    using unmoved_refl [OF assms]
    by (simp_all add: close_section_def release_section_def Let_def unmoved_update [OF assms])
  show "unmoved st (commit_section r m t a now st)"
    using unmoved_refl [OF assms] by (simp add: commit_section_def Let_def unmoved_update [OF assms])
qed

lemma unmoved_run_section: "store_wf (sv_session_store sv) \<Longrightarrow>
    unmoved (sv_session_store sv) (sv_session_store (run_section ops vrs op sv))"
  using run_section_store [of ops vrs op sv] unmoved_section(1,2) [of "sv_session_store sv"] unmoved_create unmoved_refl
  by metis

definition busy_ok :: "'ag service_sys \<Rightarrow> bool" where
  "busy_ok s \<longleftrightarrow> (let st = sv_session_store (svc s) in
     (\<forall>k a r. map_of (st_sessions st) k = Some a \<longrightarrow> s_active_request (st_heap st ! a) = Some r \<longrightarrow>
        (\<exists>i. occupies (svc_pcs s i) k r a)) \<and>
     (\<forall>i j a. svc_pcs s i = Looked j a \<longrightarrow> a < length (st_heap st) \<and>
        (\<forall>k. map_of (st_sessions st) k = Some a \<longrightarrow> k = job_session j)))"

lemma busy_okD:
  assumes "busy_ok s"
  shows "map_of (st_sessions (sv_session_store (svc s))) k = Some a \<Longrightarrow>
      s_active_request (st_heap (sv_session_store (svc s)) ! a) = Some r \<Longrightarrow> \<exists>i. occupies (svc_pcs s i) k r a"
    and "svc_pcs s i = Looked j a \<Longrightarrow> a < length (st_heap (sv_session_store (svc s)))"
    and "svc_pcs s i = Looked j a \<Longrightarrow> map_of (st_sessions (sv_session_store (svc s))) k = Some a \<Longrightarrow>
      k = job_session j"
  using assms unfolding busy_ok_def Let_def by blast+

lemma busy_unmoved:
  assumes ok: "busy_ok s" and q: "unmoved (sv_session_store (svc s)) (sv_session_store sv)"
    and occ: "\<And>k r a. occupies (svc_pcs s i) k r a \<Longrightarrow>
      map_of (st_sessions (sv_session_store sv)) k = Some a \<Longrightarrow>
      s_active_request (st_heap (sv_session_store sv) ! a) = Some r \<Longrightarrow> occupies pc k r a"
    and look: "\<And>j a. pc = Looked j a \<Longrightarrow> a < length (st_heap (sv_session_store (svc s))) \<and>
      (\<forall>k. map_of (st_sessions (sv_session_store (svc s))) k = Some a \<longrightarrow> k = job_session j)"
  shows "busy_ok (go s i pc sv)"
  unfolding busy_ok_def Let_def
proof (intro conjI allI impI)
  fix k a r
  let ?st = "sv_session_store (svc s)" and ?st' = "sv_session_store (svc (go s i pc sv))"
  assume l: "map_of (st_sessions ?st') k = Some a" "s_active_request (st_heap ?st' ! a) = Some r"
  with quietD(2,3) [OF q, of k a] have "map_of (st_sessions ?st) k = Some a"
    "s_active_request (st_heap ?st ! a) = Some r" by simp_all
  from busy_okD(1) [OF ok this] obtain i' where i': "occupies (svc_pcs s i') k r a" by blast
  show "\<exists>i'. occupies (svc_pcs (go s i pc sv) i') k r a"
    using i' occ l by (cases "i' = i") auto
next
  fix i' j a
  let ?st = "sv_session_store (svc s)" and ?st' = "sv_session_store (svc (go s i pc sv))"
  assume "svc_pcs (go s i pc sv) i' = Looked j a"
  then have a: "a < length (st_heap ?st)" "\<And>k. map_of (st_sessions ?st) k = Some a \<Longrightarrow> k = job_session j"
    using busy_okD(2,3) [OF ok] look by (auto split: if_splits)
  with quietD(1) [OF q] show "a < length (st_heap ?st')" by simp
  show "k = job_session j" if "map_of (st_sessions ?st') k = Some a" for k
    using a(2) [OF quietD(2) [OF q _ a(1)]] that by simp
qed

lemma busy_same:
  assumes "busy_ok s" and "store_wf (sv_session_store (svc s))"
    and "sv_session_store sv = sv_session_store (svc s)"
    and "\<And>k r a. occupies (svc_pcs s i) k r a \<Longrightarrow> map_of (st_sessions (sv_session_store (svc s))) k = Some a \<Longrightarrow>
      occupies pc k r a"
    and "\<And>j a. pc \<noteq> Looked j a"
  shows "busy_ok (go s i pc sv)"
proof (rule busy_unmoved [OF assms(1)])
  show "unmoved (sv_session_store (svc s)) (sv_session_store sv)"
    using unmoved_refl [OF assms(2)] assms(3) by simp
qed (use assms in auto)

text \<open>The one section that makes a session busy.\<close>

lemma busy_begin:
  assumes ok: "busy_ok s" and wf: "store_wf (sv_session_store (svc s))" and pc: "svc_pcs s i = Looked j a"
    and act: "begin_activate (job_session j) (job_message j) (job_id j) a t0 now (sv_session_store (svc s)) = (Inr b, st)"
  shows "busy_ok (go s i (Begun j ms) (with_store (svc s) st))"
proof -
  let ?st = "sv_session_store (svc s)" and ?t = "go s i (Begun j ms) (with_store (svc s) st)"
  note a = busy_okD(2,3) [OF ok pc]
  have st: "st_sessions st = st_sessions ?st" "length (st_heap st) = length (st_heap ?st)"
    "\<And>c. c \<noteq> a \<Longrightarrow> st_heap st ! c = st_heap ?st ! c" "s_active_request (st_heap st ! a) = Some (job_id j)"
    using act a(1) by (auto simp: begin_activate_def Let_def split: if_splits)
  have "\<exists>i'. occupies (svc_pcs ?t i') k r c"
    if m: "map_of (st_sessions ?st) k = Some c" and r: "s_active_request (st_heap st ! c) = Some r" for k r c
  proof (cases "c = a")
    case True
    then show ?thesis using a(2) m r st(4) by (intro exI [of _ i]) auto
  next
    case False
    then obtain i' where i': "occupies (svc_pcs s i') k r c"
      using busy_okD(1) [OF ok m] r st(3) by auto
    then have "i' \<noteq> i" using pc by auto
    with i' show ?thesis by (intro exI [of _ i']) simp
  qed
  moreover have "svc_pcs ?t i' = Looked j' c \<Longrightarrow> svc_pcs s i' = Looked j' c" for i' j' c
    by (auto split: if_splits)
  ultimately show ?thesis
    using busy_okD(2,3) [OF ok] st(1,2) unfolding busy_ok_def Let_def by (simp del: fun_upd_apply) blast
qed

lemma busy_release:
  assumes ok: "busy_ok s" and wf: "store_wf (sv_session_store (svc s))" and at: "svc_pcs s i = Freeing j a"
    and st: "st = release_section (job_id j) a now (sv_session_store (svc s))"
  shows "busy_ok (go s i Resting (with_store (svc s) st))"
proof (rule busy_unmoved [OF ok])
  show "unmoved (sv_session_store (svc s)) (sv_session_store (with_store (svc s) st))"
    using st by (simp add: unmoved_section [OF wf])
  fix k r b
  assume "occupies (svc_pcs s i) k r b" "map_of (st_sessions (sv_session_store (with_store (svc s) st))) k = Some b"
    "s_active_request (st_heap (sv_session_store (with_store (svc s) st)) ! b) = Some r"
  moreover have "map_of (st_sessions (sv_session_store (svc s))) k = Some b \<Longrightarrow> b < length (st_heap (sv_session_store (svc s)))"
    by (rule store_wfD(1) [OF wf])
  ultimately show "occupies Resting k r b"
    using at st by (auto simp: release_section_def Let_def split: if_splits)
qed simp

lemma busy_found:
  assumes ok: "busy_ok s" and wf: "store_wf (sv_session_store (svc s))" and at: "svc_pcs s i = Taken q r"
    and l: "begin_lookup k now (sv_session_store (svc s)) = (Some a, st)"
    and "job_session j = k"
  shows "busy_ok (go s i (Looked j a) (with_store (svc s) st))"
proof -
  have "st = reap_expired_sessions_locked now (sv_session_store (svc s))" by (rule begin_lookup_store [OF l])
  moreover from this l have "map_of (st_sessions (sv_session_store (svc s))) k = Some a"
    by (auto simp: begin_lookup_def Let_def map_of_reap [OF wf] split: option.splits if_splits)
  ultimately show ?thesis
    using assms(5) at unmoved_reap [OF wf, of now] store_wfD(1) [OF wf] store_wf_addr_unique [OF wf]
    by (auto intro!: busy_unmoved [OF ok])
qed

lemma busy_step:
  assumes "service_step ops vrs i s t" and ok: "busy_ok s" and wf: "store_wf (sv_session_store (svc s))"
  shows "busy_ok t"
  using assms(1)
proof cases
  case (begin_unknown q r k m now st)
  then show ?thesis using unmoved_reap [OF wf, of now]
    by (auto intro!: busy_unmoved [OF ok] dest: begin_lookup_store)
next
  case (begin_found q r k m now a st j)
  then show ?thesis using busy_found [OF ok wf] by simp
next
  case (begin_refused j a t0 now e st)
  have "st = sv_session_store (svc s)" using begin_refused(3)
    by (auto simp: begin_activate_def Let_def split: if_splits)
  then show ?thesis using begin_refused by (auto intro!: busy_same [OF ok wf])
next
  case (begin_done j a t0 now b st)
  then show ?thesis using busy_begin [OF ok wf] by simp
next
  case (release_done j a st now)
  then show ?thesis using busy_release [OF ok wf] by simp
next
  case (delete_find k a st)
  then have "st = snd (erase_section k (sv_session_store (svc s)))" by simp
  then have "unmoved (sv_session_store (svc s)) st" by (simp only: unmoved_section [OF wf])
  then show ?thesis using delete_find by (auto intro!: busy_unmoved [OF ok])
qed (auto intro!: busy_unmoved [OF ok] simp: unmoved_refl [OF wf] unmoved_section [OF wf] unmoved_run_section [OF wf]
      call_agent_frame take_completion_id_frame split: if_splits)

lemma run_tables:
  assumes "service_run ops vrs (service_init m n p md ag c h opts) k s" and "h < 2 ^ 64 - 3" and "k < 2 ^ 64 - 1"
  shows "ids_ok k s \<and> cancellers_ok s \<and> tracked_ok s \<and> busy_ok s"
  using assms(1,3)
proof (induction rule: service_run.induct)
  case start
  show ?case
    by (simp add: ids_ok_def cancellers_ok_def tracked_ok_def busy_ok_def service_init_def make_chat_service_def
        make_session_store_def)
next
  case (step k s i t)
  then have ih: "ids_ok k s" "cancellers_ok s" "tracked_ok s" "busy_ok s" by auto
  show ?case
    using ids_step [OF step.hyps(2) ih(1)] cancellers_step [OF step.hyps(2) ih(2,1)] step.prems
      tracked_step [OF step.hyps(2) ih(3)] busy_step [OF step.hyps(2) ih(4) run_inv(2) [OF step.hyps(1) assms(2)]]
    by auto
qed


section \<open>Every started operation can end\<close>

text \<open>The steps a thread still has to take, along its shortest way to the end of its operation.\<close>

fun remaining :: "service_pc \<Rightarrow> nat" where
  "remaining Resting = 0"
| "remaining (Taken q r) = 9"
| "remaining (Looked j a) = 8"
| "remaining (Begun j ms) = 7"
| "remaining (Called j z) = 6"
| "remaining (Tracked j z) = 5"
| "remaining (Running j z) = 4"
| "remaining (Untracking j z t) = 6"
| "remaining (Committing_at j z t a) = 5"
| "remaining (Observed j z) = 4"
| "remaining (Unregistered j z) = 3"
| "remaining (Untracked j) = 2"
| "remaining (Freeing j a) = 1"
| "remaining (Prepared q ms) = 4"
| "remaining (Asked q z) = 3"
| "remaining (Numbered q r z) = 2"
| "remaining (Serving q r z) = 1"
| "remaining (Served q r z) = 1"
| "remaining (Cancelling z) = 1"
| "remaining (Erased k a) = 3"
| "remaining (Closed k) = 2"
| "remaining (Prompting p) = 2"
| "remaining (Prompted p) = 1"
| "remaining (Shutting es) = length es + 2"
| "remaining Shut = 1"

text \<open>Some step of thread \<open>i\<close> brings it closer to the end of its operation.\<close>

definition can_advance :: "'ag agent_ops \<Rightarrow> role_validator \<Rightarrow> nat \<Rightarrow> 'ag service_sys \<Rightarrow> bool" where
  "can_advance ops vrs i s \<longleftrightarrow>
     (\<exists>pc sv. service_step ops vrs i s (go s i pc sv) \<and> remaining pc < remaining (svc_pcs s i))"

lemma can_advanceI:
  "service_step ops vrs i s (go s i pc sv) \<Longrightarrow> remaining pc < remaining (svc_pcs s i) \<Longrightarrow> can_advance ops vrs i s"
  by (auto simp: can_advance_def)

lemmas single_way = service_step.track [THEN can_advanceI] service_step.register [THEN can_advanceI]
  service_step.unregister [OF disjI1, THEN can_advanceI] service_step.unregister [OF disjI2, THEN can_advanceI]
  service_step.commit_done [OF _ refl, THEN can_advanceI] service_step.release_untrack [THEN can_advanceI]
  service_step.release_done [OF _ refl, THEN can_advanceI] service_step.publish [THEN can_advanceI]
  service_step.withdraw [OF disjI1, THEN can_advanceI] service_step.withdraw [OF disjI2, THEN can_advanceI]
  service_step.cancel_run [THEN can_advanceI] service_step.delete_close [THEN can_advanceI]
  service_step.prompt_agent [OF _ refl, THEN can_advanceI] service_step.prompt_store [THEN can_advanceI]
  service_step.stop_agent [OF _ refl, THEN can_advanceI]

lemma advance_taken:
  assumes "svc_pcs s i = Taken q r" shows "can_advance ops vrs i s"
proof (cases "begin_validate (begin_form q) (sv_session_store (svc s))")
  case (Inl e)
  from can_advanceI [OF service_step.begin_invalid [OF assms Inl]] assms show ?thesis by simp
next
  case (Inr km)
  then have valid: "begin_validate (begin_form q) (sv_session_store (svc s)) = Inr (fst km, snd km)" by simp
  obtain found st where "begin_lookup (fst km) 0 (sv_session_store (svc s)) = (found, st)" by fastforce
  then show ?thesis
    using can_advanceI [OF service_step.begin_unknown [OF assms valid]]
      can_advanceI [OF service_step.begin_found [OF assms valid _ refl]] assms
    by (cases found) fastforce+
qed

lemma advance_looked:
  assumes "svc_pcs s i = Looked j a" shows "can_advance ops vrs i s"
proof -
  obtain b st where "begin_activate (job_session j) (job_message j) (job_id j) a 0 0 (sv_session_store (svc s)) = (b, st)"
    by fastforce
  then show ?thesis
    using can_advanceI [OF service_step.begin_refused [OF assms]] can_advanceI [OF service_step.begin_done [OF assms]] assms
    by (cases b) fastforce+
qed

lemma advance_lookup:
  "svc_pcs s i = Untracking j z t \<Longrightarrow> can_advance ops vrs i s"
  "svc_pcs s i = Untracked j \<Longrightarrow> can_advance ops vrs i s"
  by (cases "map_of (st_sessions (sv_session_store (svc s))) (job_session j)";
      fastforce dest: service_step.commit_gone service_step.commit_found service_step.release_gone
        service_step.release_found intro: can_advanceI)+

lemma progress:
  assumes "svc_pcs s i \<noteq> Resting"
  shows "can_advance ops vrs i s"
proof (cases "svc_pcs s i")
  case (Begun j ms)
  obtain z sv where "call_agent ops (job_request j) ms (svc s) = (z, sv)" by fastforce
  from can_advanceI [OF service_step.call [OF Begun this]] Begun show ?thesis by simp
next
  case (Prepared q ms)
  obtain z sv where "call_agent ops q ms (svc s) = (z, sv)" by fastforce
  from can_advanceI [OF service_step.ask [OF Prepared this]] Prepared show ?thesis by simp
next
  case (Asked q z)
  obtain r sv where "take_completion_id (svc s) = (r, sv)" by fastforce
  from can_advanceI [OF service_step.number [OF Asked this]] Asked show ?thesis by simp
next
  case (Closed k)
  from can_advanceI [OF service_step.delete_idle [OF Closed]]
    can_advanceI [OF service_step.delete_tracked [OF Closed _ refl]] Closed
  show ?thesis by (cases "map_of (sv_active_session_requests (svc s)) k") (auto split: if_splits)
next
  case (Shutting es)
  from can_advanceI [OF service_step.stop_closed] can_advanceI [OF service_step.stop_close] Shutting
  show ?thesis by (cases es rule: list.exhaust) fastforce+
qed (use assms in \<open>simp_all add: advance_taken advance_looked advance_lookup single_way\<close>)

lemma run_first: "service_run ops vrs t n u \<Longrightarrow> service_step ops vrs i s t \<Longrightarrow> service_run ops vrs s (Suc n) u"
proof (induction rule: service_run.induct)
  case start
  then show ?case using service_run.step [OF service_run.start] by blast
next
  case (step n u j v)
  then show ?case by (blast intro: service_run.step)
qed

lemma run_join: "service_run ops vrs t n u \<Longrightarrow> service_run ops vrs s m t \<Longrightarrow> service_run ops vrs s (m + n) u"
proof (induction rule: service_run.induct)
  case (step n u i v)
  then show ?case using service_run.step [of ops vrs s "m + n" u i v] by simp
qed simp

lemma can_finish:
  "\<exists>n t. service_run ops vrs s n t \<and> n \<le> remaining (svc_pcs s i) \<and> svc_pcs t = (svc_pcs s)(i := Resting)"
proof (induction "remaining (svc_pcs s i)" arbitrary: s rule: less_induct)
  case less
  show ?case
  proof (cases "svc_pcs s i = Resting")
    case True
    then show ?thesis using service_run.start by (intro exI [of _ 0] exI [of _ s]) auto
  next
    case False
    from progress [OF this, of ops vrs] obtain pc sv where
      step: "service_step ops vrs i s (go s i pc sv)" "remaining pc < remaining (svc_pcs s i)"
      by (auto simp: can_advance_def)
    with less [of "go s i pc sv"] obtain n t where "service_run ops vrs (go s i pc sv) n t"
      "n \<le> remaining pc" "svc_pcs t = (svc_pcs s)(i := Resting)" by auto
    with run_first [OF this(1) step(1)] step(2) show ?thesis by (intro exI [of _ "Suc n"] exI [of _ t]) simp
  qed
qed


section \<open>A run, for the witnesses\<close>

text \<open>Thread 0 creates a session and then starts a completion on it.\<close>

definition demo_job :: session_job where
  "demo_job = \<lparr>job_request = Chat_request demo_request, job_session = ''sess-1'',
     job_message = user_message ''hi'', job_id = 1\<rparr>"

definition demo_messages :: "chat_message list" where
  "demo_messages = [system_message ''Be brief.'', user_message ''hi'']"

definition demo_service_sys :: "(u64 \<times> u64 list) service_sys" where
  "demo_service_sys = service_init ''m'' 100 ''Be brief.'' [] (Some (50, [])) demo_config 10 demo_options"

definition demo_busy_store :: session_store where
  "demo_busy_store = demo_store1\<lparr>st_heap := [demo_session\<lparr>s_last_used := 102, s_expires_at := 1002,
     s_active_request := Some 1\<rparr>]\<rparr>"

definition demo_numbered :: "(u64 \<times> u64 list) chat_service" where
  "demo_numbered = demo_service\<lparr>sv_next_completion_id := 2\<rparr>"

definition demo_asked :: "(u64 \<times> u64 list) chat_service" where
  "demo_asked = demo_numbered\<lparr>sv_session_store := demo_busy_store, sv_agent := Some (51, [])\<rparr>"

definition demo_called_sys :: "(u64 \<times> u64 list) service_sys" where
  "demo_called_sys = go demo_service_sys 0 (Called demo_job 50) demo_asked"

definition demo_running_sys :: "(u64 \<times> u64 list) service_sys" where
  "demo_running_sys = go demo_service_sys 0 (Running demo_job 50) demo_service1"

lemma go_go [simp]: "go (go s i pc sv) i pc' sv' = go s i pc' sv'"
  by (simp add: go_def)

lemma demo_called: "service_run demo_ops demo_validator demo_service_sys 5 demo_called_sys"
proof -
  let ?step = "service_step demo_ops demo_validator 0" and ?go = "go demo_service_sys 0"
  have pcs: "svc_pcs demo_service_sys 0 = Resting" and sv: "svc demo_service_sys =
      make_chat_service ''m'' 100 ''Be brief.'' [] (Some (50, [])) (make_session_store ''m'' demo_config ''Be brief.'' 10)
        demo_options" by (simp_all add: demo_service_sys_def service_init_def)
  have ready: "is_ready demo_ops (svc demo_service_sys)" by (simp add: sv is_ready_def make_chat_service_def demo_ops_def)
  have "run_section demo_ops demo_validator (Create_session demo_create 100) (svc demo_service_sys) = demo_service"
    using demo_sections(1) ready
    by (cases "create_session demo_create 100 (make_session_store ''m'' demo_config ''Be brief.'' 10)")
      (simp add: sv service_create_session_def make_chat_service_def demo_service_def)
  then have 1: "?step demo_service_sys (?go Resting demo_service)"
    using service_step.single [OF pcs, of demo_ops demo_validator "Create_session demo_create 100"] by simp
  have 2: "?step (?go Resting demo_service) (?go (Taken (Chat_request demo_request) 1) demo_numbered)"
    using service_step.take_id [of "?go Resting demo_service" 0 demo_ops "Chat_request demo_request" 1 demo_numbered]
    by (simp add: demo_numbered_def take_completion_id_def demo_service_def make_chat_service_def is_ready_def
        demo_ops_def demo_request_def)
  have store: "sv_session_store demo_numbered = demo_store1"
    by (simp add: demo_numbered_def demo_service_def make_chat_service_def)
  then have same: "with_store demo_numbered demo_store1 = demo_numbered" by simp
  have 3: "?step (?go (Taken (Chat_request demo_request) 1) demo_numbered) (?go (Looked demo_job 0) demo_numbered)"
    using service_step.begin_found [of "?go (Taken (Chat_request demo_request) 1) demo_numbered" 0
        "Chat_request demo_request" 1 "''sess-1''" "user_message ''hi''" 101 0 demo_store1 demo_job demo_ops demo_validator]
      demo_sections(2,3) store same by (simp add: demo_job_def)
  let ?begun = "demo_numbered\<lparr>sv_session_store := demo_busy_store\<rparr>"
  have act: "begin_activate ''sess-1'' (user_message ''hi'') 1 0 101 102 demo_store1 =
      (Inr \<lparr>br_messages = demo_messages, br_started_at = 101, br_user_message = user_message ''hi''\<rparr>, demo_busy_store)"
    by (simp add: begin_activate_def Let_def demo_defs demo_busy_store_def demo_messages_def touch_session_def)
  have 4: "?step (?go (Looked demo_job 0) demo_numbered) (?go (Begun demo_job demo_messages) ?begun)"
    using service_step.begin_done [of "?go (Looked demo_job 0) demo_numbered" 0 demo_job 0 101 102
        "\<lparr>br_messages = demo_messages, br_started_at = 101, br_user_message = user_message ''hi''\<rparr>" demo_busy_store]
      act by (simp add: store demo_job_def)
  have 5: "?step (?go (Begun demo_job demo_messages) ?begun) demo_called_sys"
    using service_step.call [of "?go (Begun demo_job demo_messages) ?begun" 0 demo_job demo_messages demo_ops 50 demo_asked]
    by (simp add: demo_called_sys_def demo_asked_def demo_numbered_def demo_job_def agent_complete_def demo_ops_def
        demo_service_def make_chat_service_def wrap_zoo_handle_def make_completion_handle_def)
  from 1 2 3 4 5 show ?thesis
    by (auto simp: eval_nat_numeral intro!: service_run.intros)
qed

lemma demo_running: "service_run demo_ops demo_validator demo_service_sys 7 demo_running_sys"
proof -
  let ?go = "go demo_service_sys 0"
  have "service_step demo_ops demo_validator 0 demo_called_sys
      (?go (Tracked demo_job 50) (track_session_request ''sess-1'' 50 demo_asked))"
    using service_step.track [of demo_called_sys 0 demo_job 50]
    by (simp add: demo_called_sys_def demo_job_def)
  moreover have "register_public_request ''chatcmpl-1'' 50 (track_session_request ''sess-1'' 50 demo_asked) = demo_service1"
    by (simp add: register_public_request_def track_session_request_def demo_asked_def demo_numbered_def
        demo_service1_def demo_service_def make_chat_service_def demo_busy_store_def al_put_def al_erase_def)
  then have "service_step demo_ops demo_validator 0
      (?go (Tracked demo_job 50) (track_session_request ''sess-1'' 50 demo_asked)) demo_running_sys"
    using service_step.register [of "?go (Tracked demo_job 50) (track_session_request ''sess-1'' 50 demo_asked)" 0
        demo_job 50] by (simp add: demo_running_sys_def demo_job_def completion_name_12)
  ultimately show ?thesis
    using service_run.step [OF service_run.step [OF demo_called]] by (simp add: eval_nat_numeral)
qed

section \<open>Properties\<close>





text \<open>
  C12. Nothing leaks: when every operation has ended, however their sections were interleaved, no
  canceller is registered, no generation is tracked for a session, and no stored session is busy.
\<close>

theorem ended_requests_leave_nothing:
  assumes "service_run ops vrs (service_init m size_of_context p metadata ag c h opts) n s"
    and "h < 2 ^ 64 - 3" and "n < 2 ^ 64 - 1" and "svc_pcs s = (\<lambda>i. Resting)"
  shows "sv_public_request_cancellers (svc s) = [] \<and> sv_active_session_requests (svc s) = [] \<and>
    (\<forall>k x. session_view (sv_session_store (svc s)) k = Some x \<longrightarrow> s_active_request x = None)"
proof -
  from run_tables [OF assms(1-3)] have ok: "cancellers_ok s" "tracked_ok s" "busy_ok s" by auto
  have empty: "m = []" if "\<And>x z. map_of m x \<noteq> Some z" for m :: "(string \<times> u64) list"
    using that by (metis list.exhaust map_of_Cons_code(2) surj_pair)
  have "sv_public_request_cancellers (svc s) = []"
    using ok(1) assms(4) by (intro empty) (simp add: cancellers_ok_def)
  moreover have "sv_active_session_requests (svc s) = []"
    using ok(2) assms(4) by (intro empty) (auto simp: tracked_ok_def)
  moreover have "s_active_request x = None" if "session_view (sv_session_store (svc s)) k = Some x" for k x
    using busy_okD(1) [OF ok(3)] assms(4) that by (cases "s_active_request x") (auto simp: view_Some_iff)
  ultimately show ?thesis by blast
qed

theorem ended_requests_leave_nothing_witness:
  "\<exists>n s. service_run demo_ops demo_validator demo_running_sys n s \<and> svc_pcs s 0 = Resting \<and>
     sv_public_request_cancellers (svc demo_running_sys) = [(''chatcmpl-1'', 50)] \<and>
     sv_public_request_cancellers (svc s) = [] \<and> sv_active_session_requests (svc s) = []"
proof -
  obtain n t where t: "service_run demo_ops demo_validator demo_running_sys n t"
    "n \<le> remaining (svc_pcs demo_running_sys 0)" "svc_pcs t = (svc_pcs demo_running_sys)(0 := Resting)"
    using can_finish by blast
  have rest: "svc_pcs t = (\<lambda>i. Resting)"
    by (auto simp: t(3) demo_running_sys_def demo_service_sys_def service_init_def)
  have "n \<le> 4" using t(2) by (simp add: demo_running_sys_def)
  then have small: "7 + n < 2 ^ 64 - 1" by simp
  note run = run_join [OF t(1) demo_running, unfolded demo_service_sys_def]
  from ended_requests_leave_nothing [OF run _ small rest] t(1) rest show ?thesis
    by (intro exI [of _ n] exI [of _ t]) (simp add: demo_running_sys_def demo_service1_def)
qed


text \<open>
  C16. Deleting a session does not always cancel its generation. If the deletion runs between the
  call of the agent and the moment the request is tracked, it finds nothing to cancel: it
  succeeds, the agent is never told, the generation runs on and is tracked and registered
  afterwards, and deleting the session again answers that it is unknown.
\<close>

theorem delete_misses_starting_request:
  assumes "svc_pcs s i = Called j z" and "svc_pcs s d = Resting"
    and "sessions_enabled (st_config (sv_session_store (svc s)))"
    and "map_of (st_sessions (sv_session_store (svc s))) (job_session j) = Some a"
    and "map_of (sv_active_session_requests (svc s)) (job_session j) = None"
  shows "\<exists>t. service_run ops vrs s 5 t \<and> svc_pcs t = (svc_pcs s)(i := Running j z)
    \<and> session_view (sv_session_store (svc t)) (job_session j) = None
    \<and> sv_agent (svc t) = sv_agent (svc s)
    \<and> map_of (sv_active_session_requests (svc t)) (job_session j) = Some z
    \<and> fst (delete_session (job_session j) (sv_session_store (svc t))) = Inl (unknown_session_error (job_session j))"
proof -
  let ?k = "job_session j" and ?st = "sv_session_store (svc s)"
  have d: "d \<noteq> i" using assms(1,2) by auto
  define st1 where "st1 = ?st\<lparr>st_sessions := al_erase ?k (st_sessions ?st)\<rparr>"
  define st2 where "st2 = close_section a st1"
  define s1 where "s1 = go s d (Erased ?k a) (with_store (svc s) st1)"
  define s2 where "s2 = go s1 d (Closed ?k) (with_store (svc s) st2)"
  define s3 where "s3 = go s2 d Resting (with_store (svc s) st2)"
  define s4 where "s4 = go s3 i (Tracked j z) (track_session_request ?k z (with_store (svc s) st2))"
  define s5 where "s5 = go s4 i (Running j z) (register_public_request (job_name j) z (svc s4))"
  have "service_step ops vrs d s s1" unfolding s1_def
    by (rule service_step.delete_find [OF assms(2,3)]) (simp add: erase_section_def assms(4) st1_def)
  moreover have "service_step ops vrs d s1 s2"
    using service_step.delete_close [of s1 d ?k a] by (simp add: s1_def s2_def st2_def)
  moreover have "service_step ops vrs d s2 s3"
    using service_step.delete_idle [of s2 d ?k] assms(5) by (simp add: s2_def s3_def)
  moreover have "service_step ops vrs i s3 s4"
    using service_step.track [of s3 i j z] assms(1) d by (simp add: s1_def s2_def s3_def s4_def)
  moreover have "service_step ops vrs i s4 s5"
    using service_step.register [of s4 i j z] by (simp add: s4_def s5_def)
  ultimately have "service_run ops vrs s 5 s5"
    by (auto simp: eval_nat_numeral intro!: service_run.intros)
  moreover have "svc_pcs s5 = (svc_pcs s)(i := Running j z)"
    using assms(2) d by (auto simp: s5_def s4_def s3_def s2_def s1_def)
  moreover have "map_of (st_sessions (sv_session_store (svc s5))) ?k = None" "st_config (sv_session_store (svc s5)) = st_config ?st"
    by (simp_all add: s5_def s4_def st2_def st1_def close_section_def map_of_al_erase)
  ultimately show ?thesis using assms(3)
    by (intro exI [of _ s5]) (auto simp: s5_def s4_def track_session_request_def register_public_request_def
        view_None_iff delete_session_def erase_section_def map_of_al_put)
qed

theorem delete_misses_starting_request_witness:
  "\<exists>t. service_run demo_ops demo_validator demo_service_sys 10 t \<and> svc_pcs t 0 = Running demo_job 50 \<and>
     session_view (sv_session_store (svc t)) ''sess-1'' = None \<and> sv_agent (svc t) = Some (51, [])"
proof -
  have "svc_pcs demo_called_sys 0 = Called demo_job 50" "svc_pcs demo_called_sys 1 = Resting"
    "sessions_enabled (st_config (sv_session_store (svc demo_called_sys)))"
    "map_of (st_sessions (sv_session_store (svc demo_called_sys))) (job_session demo_job) = Some 0"
    "map_of (sv_active_session_requests (svc demo_called_sys)) (job_session demo_job) = None"
    by (simp_all add: demo_called_sys_def demo_service_sys_def service_init_def demo_job_def demo_asked_def
        demo_numbered_def demo_service_def make_chat_service_def demo_busy_store_def demo_store1_def
        demo_config_def sessions_enabled_def)
  from delete_misses_starting_request [OF this, of demo_ops demo_validator] obtain t where
    "service_run demo_ops demo_validator demo_called_sys 5 t" "svc_pcs t 0 = Running demo_job 50"
    "session_view (sv_session_store (svc t)) ''sess-1'' = None" "sv_agent (svc t) = sv_agent (svc demo_called_sys)"
    by (auto simp: demo_job_def)
  with run_join [OF this(1) demo_called] show ?thesis
    by (auto simp: demo_called_sys_def demo_asked_def)
qed

end
