(* ===== verification/Session_Spec.thy ===== *)
theory Session_Spec
  imports Session_Store
begin

text \<open>
  What the session store promises, as an abstract specification: a finite map from identifiers
  to sessions. It has no objects, no addresses, no locks and no closed sessions; an operation
  answers and changes the map. \<open>table_of\<close> abstracts a store to its table, and the refinement says
  that the store of \<open>Session_Store\<close> answers every sequence of operations as the table does.
\<close>

section \<open>The specification\<close>

record session_table =
  tb_model :: string
  tb_config :: session_config
  tb_prompt :: string
  tb_limit :: nat
  tb_next :: u64
  tb_sessions :: "string \<Rightarrow> session_state option"
  tb_stopping :: bool

datatype session_op =
    Op_create session_create_request int
  | Op_get string int
  | Op_delete string
  | Op_reap int
  | Op_set_prompt string
  | Op_begin chat_completion_request u64 int int int
  | Op_commit string u64 chat_message "completion_result runtime_result" int
  | Op_commit_text string u64 chat_message "string runtime_result" int
  | Op_release string u64 int
  | Op_health
  | Op_stop

datatype store_answer =
    Session_answer "session_summary api_result"
  | Done_answer "unit api_result"
  | Begun_answer "begin_request_result api_result"
  | Health_answer session_health
  | No_answer

definition expire :: "int \<Rightarrow> session_table \<Rightarrow> session_table" where
  "expire now t = t\<lparr>tb_sessions := (\<lambda>k. case tb_sessions t k of
       Some s \<Rightarrow> if should_expire now s then None else Some s | None \<Rightarrow> None)\<rparr>"

definition table_create ::
  "session_create_request \<Rightarrow> int \<Rightarrow> session_table \<Rightarrow> session_summary api_result \<times> session_table" where
  "table_create q now t =
     (if \<not> sessions_enabled (tb_config t) then (Inl disabled_error, t)
      else if sc_model q \<noteq> tb_model t then (Inl (unknown_model_error (sc_model q)), t)
      else if tb_stopping t
      then (Inl (service_unavailable_error ''Server runtime is stopping'' (Some ''agent_not_ready'')), t)
      else let t = expire now t in
        if max_sessions (tb_config t) \<le> card (dom (tb_sessions t))
        then (Inl (service_unavailable_error ''Session capacity reached'' (Some ''session_capacity_reached'')), t)
        else let k = session_name (tb_next t);
                 s = make_session_state k (tb_model t) now (now + int (idle_ttl_seconds (tb_config t)))
                   (make_initial_history (tb_prompt t) (sc_system_prompt q))
             in (Inr (snapshot_session s),
                 t\<lparr>tb_next := tb_next t + 1,
                   tb_sessions := (if tb_sessions t k = None then (tb_sessions t)(k \<mapsto> s) else tb_sessions t)\<rparr>))"

definition table_get :: "string \<Rightarrow> int \<Rightarrow> session_table \<Rightarrow> session_summary api_result \<times> session_table" where
  "table_get k now t =
     (if \<not> sessions_enabled (tb_config t) then (Inl disabled_error, t)
      else let t = expire now t in
        (case tb_sessions t k of
           None \<Rightarrow> (Inl (unknown_session_error k), t)
         | Some s \<Rightarrow> (Inr (snapshot_session s), t)))"

definition table_delete :: "string \<Rightarrow> session_table \<Rightarrow> unit api_result \<times> session_table" where
  "table_delete k t =
     (if \<not> sessions_enabled (tb_config t) then (Inl disabled_error, t)
      else case tb_sessions t k of
             None \<Rightarrow> (Inl (unknown_session_error k), t)
           | Some s \<Rightarrow> (Inr (), t\<lparr>tb_sessions := (tb_sessions t)(k := None)\<rparr>))"

text \<open>A request is valid for a session: the session it names and its one user message.\<close>

definition table_valid ::
  "chat_completion_request \<Rightarrow> session_table \<Rightarrow> (string \<times> chat_message) api_result" where
  "table_valid q t =
     (let bad = invalid_request_error ''Session chat requests must contain exactly one user message''
            (Some ''messages'') (Some ''invalid_message_sequence'')
      in if \<not> sessions_enabled (tb_config t) then Inl disabled_error
         else case cc_session_id q of
           None \<Rightarrow> Inl (invalid_request_error ''session_id is required'' (Some ''session_id'') None)
         | Some k \<Rightarrow>
             if cc_model q \<noteq> tb_model t then Inl (unknown_model_error (cc_model q))
             else if map msg_role (cc_messages q) = [User] then Inr (k, hd (cc_messages q))
             else Inl bad)"

definition table_begin ::
  "chat_completion_request \<Rightarrow> u64 \<Rightarrow> int \<Rightarrow> int \<Rightarrow> int \<Rightarrow> session_table \<Rightarrow>
     begin_request_result api_result \<times> session_table" where
  "table_begin q r t0 t1 t2 t =
     (case table_valid q t of
        Inl e \<Rightarrow> (Inl e, t)
      | Inr (k, m) \<Rightarrow>
          let t = expire t0 t in
          (case tb_sessions t k of
             None \<Rightarrow> (Inl (unknown_session_error k), t)
           | Some s \<Rightarrow>
               if s_active_request s \<noteq> None
               then (Inl (conflict_error ''Session already has an active request'' (Some ''session_busy'')), t)
               else (Inr \<lparr>br_messages = s_history s @ [m], br_started_at = t1, br_user_message = m\<rparr>,
                     t\<lparr>tb_sessions := (tb_sessions t)(k \<mapsto>
                         touch_session (tb_config t) t2 (s\<lparr>s_active_request := Some r\<rparr>))\<rparr>)))"

text \<open>The end of a request: only its own session changes, and only if it holds the session.\<close>

definition table_end ::
  "string \<Rightarrow> u64 \<Rightarrow> (chat_message list \<Rightarrow> chat_message list) \<Rightarrow> int \<Rightarrow> session_table \<Rightarrow> session_table" where
  "table_end k r write now t =
     (case tb_sessions t k of
        Some s \<Rightarrow>
          if s_active_request s = Some r
          then t\<lparr>tb_sessions := (tb_sessions t)(k \<mapsto> touch_session (tb_config t) now
                 (s\<lparr>s_history := write (s_history s), s_active_request := None\<rparr>))\<rparr>
          else t
      | None \<Rightarrow> t)"

definition appended :: "chat_message \<Rightarrow> string runtime_result \<Rightarrow> nat \<Rightarrow> chat_message list \<Rightarrow> chat_message list" where
  "appended m text limit h =
     (case text of Inl _ \<Rightarrow> h | Inr x \<Rightarrow> trim_history_to_fit (h @ [m, assistant_message x]) limit)"

fun table_op :: "session_op \<Rightarrow> session_table \<Rightarrow> store_answer \<times> session_table" where
  "table_op (Op_create q now) t = map_prod Session_answer id (table_create q now t)"
| "table_op (Op_get k now) t = map_prod Session_answer id (table_get k now t)"
| "table_op (Op_delete k) t = map_prod Done_answer id (table_delete k t)"
| "table_op (Op_reap now) t = (No_answer, if tb_stopping t then t else expire now t)"
| "table_op (Op_set_prompt p) t = (No_answer, t\<lparr>tb_prompt := p\<rparr>)"
| "table_op (Op_begin q r t0 t1 t2) t = map_prod Begun_answer id (table_begin q r t0 t1 t2 t)"
| "table_op (Op_commit k r m res now) t =
     (No_answer, table_end k r (appended m (map_sum id cr_text res) (tb_limit t)) now t)"
| "table_op (Op_commit_text k r m text now) t = (No_answer, table_end k r (appended m text (tb_limit t)) now t)"
| "table_op (Op_release k r now) t = (No_answer, table_end k r (\<lambda>h. h) now t)"
| "table_op Op_health t = (Health_answer \<lparr>sh_enabled = sessions_enabled (tb_config t),
     sh_active = card (dom (tb_sessions t)), sh_max_sessions = max_sessions (tb_config t),
     sh_idle_ttl_seconds = idle_ttl_seconds (tb_config t)\<rparr>, t)"
| "table_op Op_stop t = (No_answer, if tb_stopping t then t else t\<lparr>tb_stopping := True, tb_sessions := Map.empty\<rparr>)"

fun run_op :: "session_op \<Rightarrow> session_store \<Rightarrow> store_answer \<times> session_store" where
  "run_op (Op_create q now) st = map_prod Session_answer id (create_session q now st)"
| "run_op (Op_get k now) st = map_prod Session_answer id (get_session k now st)"
| "run_op (Op_delete k) st = map_prod Done_answer id (delete_session k st)"
| "run_op (Op_reap now) st = (No_answer, reap_expired_sessions now st)"
| "run_op (Op_set_prompt p) st = (No_answer, set_base_system_prompt p st)"
| "run_op (Op_begin q r t0 t1 t2) st = map_prod Begun_answer id (begin_request q r t0 t1 t2 st)"
| "run_op (Op_commit k r m res now) st = (No_answer, commit_result k r m res now st)"
| "run_op (Op_commit_text k r m text now) st = (No_answer, commit_response_text k r m text now st)"
| "run_op (Op_release k r now) st = (No_answer, release_request k r now st)"
| "run_op Op_health st = (Health_answer (store_health st), st)"
| "run_op Op_stop st = (No_answer, store_stop st)"

text \<open>A sequence of operations and its answers.\<close>

fun answers :: "('op \<Rightarrow> 's \<Rightarrow> 'r \<times> 's) \<Rightarrow> 'op list \<Rightarrow> 's \<Rightarrow> 'r list \<times> 's" where
  "answers f [] s = ([], s)"
| "answers f (op # ops) s =
     (case f op s of (r, s') \<Rightarrow> (case answers f ops s' of (rs, s'') \<Rightarrow> (r # rs, s'')))"

text \<open>
  What an implementation of a specification promises: under its invariant each operation answers as
  the specification does on the abstract state, and keeps the invariant. Sequences follow.
\<close>

locale implementation =
  fixes conc :: "'op \<Rightarrow> 's \<Rightarrow> 'r \<times> 's" and spec :: "'op \<Rightarrow> 'a \<Rightarrow> 'r \<times> 'a"
    and inv :: "'s \<Rightarrow> bool" and abs :: "'s \<Rightarrow> 'a"
  assumes refines: "inv s \<Longrightarrow> spec op (abs s) = map_prod id abs (conc op s)"
    and keeps: "inv s \<Longrightarrow> inv (snd (conc op s))"
begin

lemma answers_refine: "inv s \<Longrightarrow> answers spec ops (abs s) = map_prod id abs (answers conc ops s)"
proof (induction ops arbitrary: s)
  case (Cons op ops)
  obtain r s' where op: "conc op s = (r, s')" by fastforce
  have "inv s'" using keeps [OF Cons.prems, of op] op by simp
  from Cons.IH [OF this] show ?case by (simp add: refines [OF Cons.prems] op split: prod.split)
qed simp

end

definition table_of :: "session_store \<Rightarrow> session_table" where
  "table_of st = \<lparr>tb_model = st_model_id st, tb_config = st_config st, tb_prompt = st_base_system_prompt st,
     tb_limit = st_max_history_messages st, tb_next = st_next_session_id st,
     tb_sessions = session_view st, tb_stopping = st_stopping st\<rparr>"

lemma table_of_simps [simp]:
  "tb_model (table_of st) = st_model_id st" "tb_config (table_of st) = st_config st"
  "tb_prompt (table_of st) = st_base_system_prompt st" "tb_limit (table_of st) = st_max_history_messages st"
  "tb_next (table_of st) = st_next_session_id st" "tb_sessions (table_of st) = session_view st"
  "tb_stopping (table_of st) = st_stopping st"
  by (simp_all add: table_of_def)

lemma table_same [simp]: "(table_of st)\<lparr>tb_sessions := session_view st\<rparr> = table_of st"
  by (simp add: table_of_def)

section \<open>Each operation refines its specification\<close>

lemma card_dom_view:
  assumes "store_wf st"
  shows "card (dom (session_view st)) = length (st_sessions st)"
proof -
  have "dom (session_view st) = set (al_keys (st_sessions st))"
    by (auto simp: session_view_def dom_def map_of_eq_None_iff)
  then show ?thesis using assms by (simp only: store_wf_def distinct_card length_map)
qed

lemma table_reap:
  "store_wf st \<Longrightarrow> table_of (reap_expired_sessions_locked now st) = expire now (table_of st)"
  by (simp add: table_of_def expire_def view_reap fun_eq_iff cong: option.case_cong)

lemma table_get_refines:
  assumes "store_wf st"
  shows "table_get k now (table_of st) = map_prod id table_of (get_session k now st)"
  using table_reap [OF assms, of now]
  by (auto simp: table_get_def get_session_def Let_def session_view_def simp flip: table_reap [OF assms]
      split: option.splits)

lemma table_delete_refines:
  assumes "store_wf st"
  shows "table_delete k (table_of st) = map_prod id table_of (delete_session k st)"
  using view_delete [OF assms, of k]
  by (auto simp: table_delete_def delete_session_def erase_section_def close_section_def session_view_def
      table_of_def split: option.splits)


lemma table_create_refines:
  assumes wf: "store_wf st"
  shows "table_create q now (table_of st) = map_prod id table_of (create_session q now st)"
proof -
  let ?st = "reap_expired_sessions_locked now st"
  have wf': "store_wf ?st" using wf by blast
  have add: "session_view (?st\<lparr>st_next_session_id := n, st_heap := st_heap ?st @ [x],
      st_sessions := al_emplace k (length (st_heap ?st)) (st_sessions ?st)\<rparr>) =
      (if session_view ?st k = None then (session_view ?st)(k \<mapsto> x) else session_view ?st)" for n x k
    using store_wfD(1) [OF wf']
    by (auto simp: session_view_def store_simps fun_eq_iff nth_append map_option_case split: option.splits)
  show ?thesis
    using card_dom_view [OF wf'] add
    by (simp add: table_create_def create_session_def Let_def make_session_state_def
        flip: table_reap [OF wf])
qed

lemma table_valid_eq: "table_valid q (table_of st) = begin_validate q st"
  by (auto simp: table_valid_def begin_validate_def Let_def split: option.splits list.splits)

lemma table_begin_refines:
  assumes wf: "store_wf st"
  shows "table_begin q r t0 t1 t2 (table_of st) = map_prod id table_of (begin_request q r t0 t1 t2 st)"
proof (cases "begin_validate q st")
  case (Inl e)
  then show ?thesis by (simp add: table_begin_def table_valid_eq begin_request_def)
next
  case (Inr km)
  obtain k m where km: "km = (k, m)" by fastforce
  obtain res st' where b: "begin_request q r t0 t1 t2 st = (res, st')" by fastforce
  have frame: "table_of st' = (table_of (reap_expired_sessions_locked t0 st))\<lparr>tb_sessions := session_view st'\<rparr>"
    using b by (auto simp: begin_request_def begin_lookup_def begin_activate_def table_of_def Let_def
        split: sum.splits option.splits if_splits)
  show ?thesis
    using view_begin [OF wf Inr [unfolded km] b refl] frame b Inr km
    by (auto simp: table_begin_def table_valid_eq simp flip: table_reap [OF wf] split: option.splits if_splits)
qed

lemma table_end_refines:
  assumes "store_wf st"
  shows "table_end k r (appended m answer (st_max_history_messages st)) now (table_of st) =
      table_of (commit_response_text k r m answer now st)"
    and "table_end k r (\<lambda>h. h) now (table_of st) = table_of (release_request k r now st)"
proof -
  have frames: "table_of (commit_response_text k r m answer now st) =
      (table_of st)\<lparr>tb_sessions := session_view (commit_response_text k r m answer now st)\<rparr>"
    "table_of (release_request k r now st) = (table_of st)\<lparr>tb_sessions := session_view (release_request k r now st)\<rparr>"
    by (simp_all add: commit_response_text_def commit_section_def release_request_def release_section_def
        table_of_def Let_def split: option.splits)
  show "table_end k r (appended m answer (st_max_history_messages st)) now (table_of st) =
      table_of (commit_response_text k r m answer now st)"
    unfolding frames(1) view_commit_text [OF assms]
    by (cases "session_view st k") (auto simp: table_end_def appended_def split: sum.split)
  show "table_end k r (\<lambda>h. h) now (table_of st) = table_of (release_request k r now st)"
  proof (cases "session_view st k")
    case None
    then show ?thesis by (simp add: table_end_def view_commit_unknown)
  next
    case (Some s)
    then show ?thesis unfolding frames(2) view_release [OF assms Some] by (simp add: table_end_def)
  qed
qed

lemma close_all_view:
  "st_sessions st = [] \<Longrightarrow> session_view (close_all es st) = Map.empty"
  by (induction es st rule: close_all.induct) (auto simp: session_view_def close_section_def fun_eq_iff)

lemma close_all_constants [simp]:
  "st_model_id (close_all es st) = st_model_id st"
  "st_base_system_prompt (close_all es st) = st_base_system_prompt st"
  "st_next_session_id (close_all es st) = st_next_session_id st"
  by (induction es st rule: close_all.induct) (auto simp: close_section_def)

lemma table_stop_refines:
  "table_of (store_stop st) = (if st_stopping st then table_of st
     else (table_of st)\<lparr>tb_stopping := True, tb_sessions := Map.empty\<rparr>)"
  by (simp add: store_stop_def table_of_def close_all_view)

lemma map_prod_swap: "map_prod f id (map_prod id g p) = map_prod id g (map_prod f id p)"
  by (cases p) simp

lemma run_op_refines:
  assumes "store_wf st"
  shows "table_op op (table_of st) = map_prod id table_of (run_op op st)"
proof (cases op)
  case (Op_set_prompt p)
  then show ?thesis by (simp add: set_base_system_prompt_def table_of_def session_view_def fun_eq_iff)
next
  case Op_health
  then show ?thesis using assms by (simp add: store_health_def card_dom_view)
qed (simp_all add: table_create_refines table_get_refines table_delete_refines table_begin_refines
    table_end_refines table_stop_refines reap_expired_sessions_def table_reap commit_result_as_text
    assms map_prod_swap)

lemma run_op_wf: "store_wf st \<Longrightarrow> store_wf (snd (run_op op st))"
  by (cases op) (auto simp: commit_result_as_text intro: store_wf_intros)

interpretation session_table: implementation run_op table_op store_wf table_of
  by unfold_locales (simp_all add: run_op_refines run_op_wf)

section \<open>Properties\<close>

text \<open>
  C21. The session store refines a plain table. Whatever operations are called on a store, in
  whatever order and at whatever times, each answers as the abstract table does and leaves a
  store whose sessions are the table's: creating, looking up, deleting, reaping, beginning,
  committing and releasing requests, reporting health, changing the prompt and stopping. Objects,
  addresses and closed sessions are not observable.
\<close>

theorem store_refines_table:
  "answers table_op ops (table_of (make_session_store model_id config prompt limit)) =
     map_prod id table_of (answers run_op ops (make_session_store model_id config prompt limit)) \<and>
   table_of (make_session_store model_id config prompt limit) =
     \<lparr>tb_model = model_id, tb_config = config, tb_prompt = prompt, tb_limit = limit, tb_next = 1,
      tb_sessions = Map.empty, tb_stopping = False\<rparr>"
  by (simp add: session_table.answers_refine wf_initial)
    (simp add: table_of_def make_session_store_def session_view_def fun_eq_iff)

end
