(* ===== verification/Request_Log.thy ===== *)
theory Request_Log
  imports Chat_Service
begin

text \<open>
  The log lines of \<^verbatim>\<open>completion_controller.cpp\<close> (one at the start and one at the end of a
  completion) and of \<^verbatim>\<open>session_manager.cpp\<close> (one for every session created, deleted or expired).
  A line is a string; the events of an operation are the lines it writes, in order, given by the
  store it starts from. The number of an error code is a parameter (an enumeration of zoo-keeper).
\<close>

section \<open>Lines\<close>

definition dquote :: string where
  "dquote = [CHR 0x22]"

definition session_field :: "chat_completion_request \<Rightarrow> string" where
  "session_field request = (case cc_session_id request of None \<Rightarrow> [] | Some k \<Rightarrow> '' session_id='' @ k)"

definition log_request_start :: "completion_result pending \<Rightarrow> chat_completion_request \<Rightarrow> string" where
  "log_request_start p request =
     ''[request] event=start completion_id='' @ pd_id p @ '' model='' @ pd_model p @
     '' stream='' @ (if cc_stream request then ''true'' else ''false'') @ session_field request @ [newline]"

definition log_request_result ::
  "(runtime_error_code \<Rightarrow> int) \<Rightarrow> completion_result pending \<Rightarrow> chat_completion_request \<Rightarrow>
     completion_result runtime_result \<Rightarrow> string" where
  "log_request_result number p request result =
     ''[request] event=finish completion_id='' @ pd_id p @ '' model='' @ pd_model p @ session_field request @
     (case result of
        Inl e \<Rightarrow> '' status=error code='' @ string_of_int (number (rt_code e)) @ '' message='' @ dquote @
          rt_message e @ dquote @ [newline]
      | Inr r \<Rightarrow> '' status=ok prompt_tokens='' @ string_of_int (prompt_tokens (cr_usage r)) @
          '' completion_tokens='' @ string_of_int (completion_tokens (cr_usage r)) @
          '' total_tokens='' @ string_of_int (total_tokens (cr_usage r)) @
          '' latency_ms='' @ string_of_int (latency_ms (cr_metrics r)) @ [newline])"

text \<open>The request a background task logs with: only the session and the flag are kept.\<close>

definition log_view :: "chat_completion_request \<Rightarrow> chat_completion_request" where
  "log_view request = \<lparr>cc_model = [], cc_messages = [], cc_stream = cc_stream request,
     cc_session_id = cc_session_id request, cc_overrides = no_overrides\<rparr>"

definition log_session_event :: "string \<Rightarrow> string \<Rightarrow> string \<Rightarrow> string" where
  "log_session_event event session_id detail =
     ''[session] event='' @ event @ '' session_id='' @ session_id @ '' detail='' @ dquote @ detail @ dquote @ [newline]"

section \<open>Events of the session store\<close>

definition expired_sessions :: "int \<Rightarrow> session_store \<Rightarrow> string list" where
  "expired_sessions now st =
     (case reap_loop now (st_sessions st) (st_heap st) of
        (kept, heap, expired) \<Rightarrow> map (\<lambda>a. s_id (heap ! a)) expired)"

definition expired_events :: "int \<Rightarrow> session_store \<Rightarrow> string list" where
  "expired_events now st =
     map (\<lambda>k. log_session_event ''expired'' k ''idle timeout reached'') (expired_sessions now st)"

definition reap_events :: "int \<Rightarrow> session_store \<Rightarrow> string list" where
  "reap_events now st = (if st_stopping st then [] else expired_events now st)"

definition create_events :: "session_create_request \<Rightarrow> int \<Rightarrow> session_store \<Rightarrow> string list" where
  "create_events q now st =
     (if \<not> sessions_enabled (st_config st) \<or> sc_model q \<noteq> st_model_id st \<or> st_stopping st then []
      else expired_events now st @
        (case fst (create_session q now st) of
           Inl e \<Rightarrow> []
         | Inr summary \<Rightarrow> [log_session_event ''created'' (ss_id summary) ''session ready'']))"

text \<open>A look-up that fails returns before the expired sessions are logged.\<close>

definition get_events :: "string \<Rightarrow> int \<Rightarrow> session_store \<Rightarrow> string list" where
  "get_events session_id now st =
     (if \<not> sessions_enabled (st_config st) then []
      else case map_of (st_sessions (reap_expired_sessions_locked now st)) session_id of
             None \<Rightarrow> []
           | Some a \<Rightarrow> expired_events now st)"

definition delete_events :: "string \<Rightarrow> session_store \<Rightarrow> string list" where
  "delete_events session_id st =
     (if \<not> sessions_enabled (st_config st) then []
      else case erase_section session_id st of
             (None, st) \<Rightarrow> []
           | (Some a, st) \<Rightarrow> [log_session_event ''deleted'' (s_id (st_heap st ! a)) ''session removed''])"

definition begin_events :: "chat_completion_request \<Rightarrow> int \<Rightarrow> session_store \<Rightarrow> string list" where
  "begin_events request now st =
     (case begin_validate request st of
        Inl e \<Rightarrow> []
      | Inr (session_id, message) \<Rightarrow>
          (case begin_lookup session_id now st of
             (None, st') \<Rightarrow> []
           | (Some a, st') \<Rightarrow> expired_events now st))"

section \<open>Which sessions expire\<close>

lemma expired_sessions_eq:
  assumes "store_wf st"
  shows "expired_sessions now st =
    map fst (filter (\<lambda>p. should_expire now (st_heap st ! snd p)) (st_sessions st))"
proof -
  obtain kept heap ex where r: "reap_loop now (st_sessions st) (st_heap st) = (kept, heap, ex)"
    by (metis prod_cases3)
  have d: "distinct (map snd (st_sessions st))" "\<forall>(k, a) \<in> set (st_sessions st). a < length (st_heap st)"
    using assms by (auto simp: store_wf_def)
  have s: "s_id (heap ! a) = k" if "(k, a) \<in> set (st_sessions st)" for k a
  proof -
    have "a < length (st_heap st)" "s_id (st_heap st ! a) = k" using assms that by (auto simp: store_wf_def)
    with reap_loop_spec [OF d r] show ?thesis by auto
  qed
  have "ex = map snd (filter (\<lambda>p. should_expire now (st_heap st ! snd p)) (st_sessions st))"
    using reap_loop_spec [OF d r] by blast
  then have "expired_sessions now st = map (\<lambda>p. s_id (heap ! snd p))
      (filter (\<lambda>p. should_expire now (st_heap st ! snd p)) (st_sessions st))"
    by (simp add: expired_sessions_def r comp_def)
  also have "\<dots> = map fst (filter (\<lambda>p. should_expire now (st_heap st ! snd p)) (st_sessions st))"
    by (rule map_cong) (auto simp: s)
  finally show ?thesis .
qed

lemma expired_sessions_view:
  assumes "store_wf st"
  shows "k \<in> set (expired_sessions now st) \<longleftrightarrow> (\<exists>s. session_view st k = Some s \<and> should_expire now s)"
proof
  assume "k \<in> set (expired_sessions now st)"
  then obtain a where "(k, a) \<in> set (st_sessions st)" "should_expire now (st_heap st ! a)"
    by (auto simp: expired_sessions_eq [OF assms])
  moreover have "map_of (st_sessions st) k = Some a"
    using calculation(1) assms by (simp add: store_wf_def)
  ultimately show "\<exists>s. session_view st k = Some s \<and> should_expire now s" by (auto simp: view_Some_iff)
next
  assume "\<exists>s. session_view st k = Some s \<and> should_expire now s"
  then obtain a where "map_of (st_sessions st) k = Some a" "should_expire now (st_heap st ! a)"
    by (auto simp: view_Some_iff)
  then show "k \<in> set (expired_sessions now st)"
    by (force simp: expired_sessions_eq [OF assms] dest: map_of_SomeD)
qed

lemma distinct_expired: "store_wf st \<Longrightarrow> distinct (expired_sessions now st)"
  by (auto simp: expired_sessions_eq store_wf_def distinct_map intro: inj_on_subset)

section \<open>Single lines\<close>

lemma newline_not_digit: "is_digit_char c \<Longrightarrow> c \<noteq> newline"
  by (auto simp: is_digit_char_def newline_def)

lemma newline_number [simp]: "newline \<notin> set (string_of_nat n)" "newline \<notin> set (string_of_int i)"
proof -
  show n: "newline \<notin> set (string_of_nat n)" for n
    using string_of_nat_digits [of n] newline_not_digit by (auto simp: list_all_iff)
  show "newline \<notin> set (string_of_int i)" using n by (auto simp: string_of_int_def newline_def)
qed

lemma newline_names [simp]: "newline \<notin> set (completion_name n)" "newline \<notin> set (session_name n)"
  by (auto simp: completion_name_def session_name_def) (simp_all add: newline_def)

section \<open>Properties\<close>

text \<open>
  A client cannot forge a log entry with its session id: when a completion has been started, its
  start line and the line of a successful end are single lines, whatever the request contains, since
  the session id in them is one the store has issued (the model id is the operator's).
\<close>

theorem completion_log_lines_are_single:
  assumes "store_wf (sv_session_store sv)" and "ids_below_counter (sv_session_store sv)"
    and "newline \<notin> set (sv_model_id sv)" and "start_completion ops ck request sv = (Inr p, sv')"
  shows "\<exists>line1 line2. log_request_start p request = line1 @ [newline] \<and> newline \<notin> set line1 \<and>
    log_request_result number p (log_view request) (Inr r) = line2 @ [newline] \<and> newline \<notin> set line2"
proof -
  have id: "newline \<notin> set (pd_id p)" using start_completion_registers [OF assms(4)] by simp
  have session: "newline \<notin> set (session_field request) \<and> newline \<notin> set (session_field (log_view request))"
    and model: "pd_model p = sv_model_id sv"
  proof -
    show "newline \<notin> set (session_field request) \<and> newline \<notin> set (session_field (log_view request))"
    proof (cases "cc_session_id request")
      case None
      then show ?thesis by (simp add: session_field_def log_view_def)
    next
      case (Some k)
      with assms(4) have "start_session_completion ops ck request k sv = (Inr p, sv')" by (simp add: start_completion_def)
      then obtain b store where b: "begin_request request (sv_next_completion_id sv) (ck_reap ck) (ck_now ck) (ck_touch ck)
          (sv_session_store sv) = (Inr b, store)" by (rule start_session_completion_Inr)
      then obtain m where v: "begin_validate request (sv_session_store sv) = Inr (k, m)"
        using Some by (auto elim!: begin_request_validated)
      from view_begin [OF assms(1) v b refl]
      have "session_view (reap_expired_sessions_locked (ck_reap ck) (sv_session_store sv)) k \<noteq> None"
        by (auto split: option.splits)
      then have "k \<in> set (al_keys (st_sessions (sv_session_store sv)))"
        by (auto simp: view_None_iff map_of_reap [OF assms(1)] dest!: map_of_SomeD intro: rev_image_eqI
            split: option.splits if_splits)
      then have "\<exists>j. k = session_name j" using assms(2) by (auto simp: ids_below_counter_def)
      then show ?thesis using Some by (auto simp: session_field_def log_view_def) (simp_all add: newline_def)
    qed
    show "pd_model p = sv_model_id sv"
      using assms(4) by (auto simp: start_completion_def take_completion_id_def agent_complete_def
          register_public_request_def Let_def split: option.splits if_splits prod.splits
          elim!: start_session_completion_Inr)
  qed
  show ?thesis
    using id session assms(3)
    by (auto simp: log_request_start_def log_request_result_def model) (simp_all add: newline_def)
qed

theorem completion_log_lines_are_single_witness:
  "\<exists>line. log_request_start demo_started demo_request = line @ [newline] \<and> newline \<notin> set line"
proof -
  have "store_wf (sv_session_store demo_service)" "ids_below_counter (sv_session_store demo_service)"
    "newline \<notin> set (sv_model_id demo_service)"
    using demo_store1_wf session_name_1
    by (auto simp: demo_service_def make_chat_service_def ids_below_counter_def demo_store1_def newline_def
        intro: exI [of _ 1])
  from completion_log_lines_are_single [OF this demo_start] show ?thesis by blast
qed

text \<open>
  Expired sessions and the log. Reaping logs each session that disappears exactly once; but a
  request that touches an expired session removes it, answers that it is unknown, and logs nothing,
  neither for this session nor for any other one that expired with it.
\<close>

theorem expiry_and_its_log:
  assumes "store_wf st" and "\<not> st_stopping st" and "sessions_enabled (st_config st)"
    and "session_view st k = Some s" and "should_expire now s"
  shows "reap_events now st =
      map (\<lambda>k. log_session_event ''expired'' k ''idle timeout reached'') (expired_sessions now st)
    \<and> distinct (expired_sessions now st)
    \<and> (\<forall>k'. k' \<in> set (expired_sessions now st) \<longleftrightarrow>
         session_view st k' \<noteq> None \<and> session_view (reap_expired_sessions now st) k' = None)
    \<and> k \<in> set (expired_sessions now st)
    \<and> fst (get_session k now st) = Inl (unknown_session_error k)
    \<and> session_view (snd (get_session k now st)) = session_view (reap_expired_sessions now st)
    \<and> get_events k now st = []
    \<and> (cc_session_id q = Some k \<longrightarrow> begin_events q now st = [])"
proof -
  have gone: "map_of (st_sessions (reap_expired_sessions_locked now st)) k = None"
    using assms(4,5) by (auto simp: map_of_reap [OF assms(1)] view_Some_iff)
  have "begin_events q now st = []" if "cc_session_id q = Some k"
    using that gone by (auto simp: begin_events_def begin_validate_def begin_lookup_def Let_def
        split: sum.splits if_splits list.splits)
  then show ?thesis
    using assms gone expired_sessions_view [OF assms(1)] distinct_expired [OF assms(1)]
    by (auto simp: reap_events_def expired_events_def get_events_def get_session_def Let_def
        reap_expired_sessions_def view_reap [OF assms(1)] split: option.splits)
qed

theorem expiry_and_its_log_witness:
  "reap_events 1000 demo_store1 = [log_session_event ''expired'' ''sess-1'' ''idle timeout reached''] \<and>
   get_events ''sess-1'' 1000 demo_store1 = [] \<and> begin_events demo_request 1000 demo_store1 = [] \<and>
   session_view (snd (get_session ''sess-1'' 1000 demo_store1)) ''sess-1'' = None"
proof -
  have h: "\<not> st_stopping demo_store1" "sessions_enabled (st_config demo_store1)"
    "session_view demo_store1 ''sess-1'' = Some demo_session" "should_expire 1000 demo_session"
    "expired_sessions 1000 demo_store1 = [''sess-1'']"
    by (simp_all add: demo_store1_def demo_config_def sessions_enabled_def session_view_def should_expire_def
        demo_session_def expired_sessions_def)
  from expiry_and_its_log [OF demo_store1_wf h(1-4), of demo_request] h show ?thesis
    by (auto simp: demo_request_def)
qed

end
