(* ===== verification/Program.thy ===== *)
theory Program
  imports Startup Http_Server Stream_Runs
begin

text \<open>
  The program as a whole: \<^verbatim>\<open>main.cpp\<close> over the loader, the creation of the runtime and
  \<^verbatim>\<open>HttpServer::run\<close>, with the listener's options and the table of registered handlers.

  \<open>zoo_keeper_server\<close> composes the models of the other theories the way \<^verbatim>\<open>main\<close> does. The event loop of
  the framework is a function of the server; what such a loop can do is \<open>server_reaches\<close>. What the
  machine offers (files, environment, threads, the two libraries) is the record \<open>program_env\<close>.
\<close>

section \<open>The listener\<close>

record listener_options =
  lo_address :: string
  lo_port :: nat
  lo_max_body :: nat
  lo_max_memory_body :: nat
  lo_idle_timeout :: int

text \<open>\<^verbatim>\<open>static_cast<size_t>\<close> of a 64-bit integer.\<close>

definition size_cast :: "int \<Rightarrow> nat" where
  "size_cast i = nat (i mod 2 ^ 64)"

definition http_listener :: "'ac server_config \<Rightarrow> listener_options" where
  "http_listener config =
     \<lparr>lo_address = bind_address config, lo_port = port config,
      lo_max_body = size_cast (client_max_body_size_bytes (http config)),
      lo_max_memory_body = size_cast (client_max_memory_body_size_bytes (http config)),
      lo_idle_timeout = idle_connection_timeout_seconds (http config)\<rparr>"

definition listening_line :: "'ac server_config \<Rightarrow> string" where
  "listening_line config =
     ''zoo-keeper-server listening on '' @ bind_address config @ '':'' @ string_of_nat (port config)"

section \<open>The registered handlers\<close>

text \<open>Every handler of the application, in the order of registration.\<close>

datatype endpoint = Health | Preflight | Api route | Test_page

fun endpoint_registration :: "endpoint \<Rightarrow> string \<times> http_method" where
  "endpoint_registration Health = (''/healthz'', Get)"
| "endpoint_registration Preflight = (''/{path}'', Options)"
| "endpoint_registration (Api route) = registration route"
| "endpoint_registration Test_page = (''/_test'', Get)"

text \<open>\<open>register_api_routes\<close>, for one value of each path parameter.\<close>

definition api_endpoints :: "string \<Rightarrow> string \<Rightarrow> 'ac server_config \<Rightarrow> endpoint list" where
  "api_endpoints session_id request_id config =
     (if registers_options config then [Preflight] else []) @
     map Api [Models, Tools, Create_session, Get_session session_id, Delete_session session_id,
       Chat_completions, Extractions, Agent_chat, Cancel request_id, Get_history, Replace_history,
       Clear_history, Swap_history, Append_message, Get_prompt, Set_prompt, Runtime_info, Metrics_info]"

definition registered_endpoints :: "bool \<Rightarrow> string \<Rightarrow> string \<Rightarrow> 'ac server_config \<Rightarrow> endpoint list" where
  "registered_endpoints enable_test_ui session_id request_id config =
     [Health] @ api_endpoints session_id request_id config @ (if enable_test_ui then [Test_page] else [])"

section \<open>The program\<close>

record ('ag, 'ac) program_env =
  pe_version :: string
  pe_config_api :: "'ac config_api"
  pe_defaults :: "'ac server_config"
  pe_files :: "string \<Rightarrow> string option"
  pe_factory :: "('ag, 'ac) agent_factory"
  pe_file_system :: file_system
  pe_environ :: "string list"
  pe_hardware_threads :: nat
  pe_start :: int

text \<open>\<open>HttpServer::run\<close> makes the disconnect registry; no stream and no answer exists yet.\<close>

definition fresh_server :: "('ag, 'ac, 'c task) server_runtime \<Rightarrow> ('ag, 'ac, 'c) server" where
  "fresh_server rt = \<lparr>sr_config = sr_config rt, sr_service = sr_service rt, sr_metrics = sr_metrics rt,
     sr_executor = sr_executor rt, sr_stopping = sr_stopping rt, cl_sent = [],
     cl_chats = (\<lambda>_. new_chat_stream), cl_extractions = (\<lambda>_. new_stream), cl_registry = empty_registry\<rparr>"

definition create_runtime :: "('ag, 'ac) program_env \<Rightarrow> 'ac server_config \<Rightarrow>
    (string, ('ag, 'ac, 'c task) server_runtime) result" where
  "create_runtime pe config = runtime_create (pe_factory pe) (pe_file_system pe) (pe_environ pe)
     (pe_hardware_threads pe) (pe_start pe) config"

definition load_file :: "('ag, 'ac) program_env \<Rightarrow> string \<Rightarrow> (string, 'ac server_config) result" where
  "load_file pe path = load_config (pe_config_api pe) (pe_defaults pe) path (pe_files pe path)"

definition zoo_keeper_server ::
  "('ag, 'ac) program_env \<Rightarrow> 'ag environment \<Rightarrow> finish_readings \<Rightarrow> ('c \<Rightarrow> bool) \<Rightarrow>
     (('ag, 'ac, 'c) server \<Rightarrow> ('ag, 'ac, 'c) server) \<Rightarrow> string list \<Rightarrow>
     int \<times> string list \<times> ('ag, 'ac, 'c) server option option" where
  "zoo_keeper_server pe env fk alive loop argv =
     server_main (pe_version pe) (load_file pe) startup_warning (create_runtime pe)
       (\<lambda>rt. http_server_run (run_task env fk alive) (en_ops env) loop (Some (fresh_server rt))) argv"

section \<open>What holds of it\<close>

lemma zoo_keeper_server_runs:
  assumes "argv = [program, path]" and "path \<noteq> ''--version''"
    and "load_file pe path = Inr config" and "create_runtime pe config = Inr rt"
  shows "zoo_keeper_server pe env fk alive loop argv =
    (0, (case startup_warning config of None \<Rightarrow> [] | Some w \<Rightarrow> [w]),
     Some (Some (runtime_stop (run_task env fk alive) (en_ops env) (loop (fresh_server rt)))))"
  using assms by (simp add: zoo_keeper_server_def server_main_def http_server_run_def Let_def)

lemma created_runtime_fields:
  assumes "create_runtime pe config = Inr rt"
  shows "sr_config rt = config" "sr_metrics rt = make_metrics (pe_start pe)" "tasks (sr_executor rt) = []"
  using assms by (auto simp: create_runtime_def runtime_create_def result_simps make_runtime_def make_executor_def)

lemma run_tasks_counted: "counted srv \<Longrightarrow> counted (fold (run_task env fk alive) queue srv)"
  by (induction queue arbitrary: srv) (simp_all add: run_task_counted)

lemma counted_stopped:
  assumes "counted srv" shows "counted (runtime_stop (run_task env fk alive) ops srv)"
proof -
  have "counted (srv\<lparr>sr_stopping := x, sr_executor := y\<rparr>)" for x y using assms by (simp add: counted_def)
  note this [THEN run_tasks_counted]
  then show ?thesis using assms by (simp add: runtime_stop_def Let_def counted_def)
qed

lemma waiting_answers: "map fst (concat (map (task_answer env) queue)) = concat (map task_client queue)"
  by (induction queue) simp_all

lemma stopped_answers:
  assumes "\<not> sr_stopping srv"
  shows "map fst (cl_sent (runtime_stop (run_task env fk alive) ops srv)) = map fst (cl_sent srv) @ waiting srv"
    and "tasks (sr_executor (runtime_stop (run_task env fk alive) ops srv)) = []"
  using assms by (simp_all add: runtime_stop_def Let_def run_tasks_effect executor_stop_def waiting_def waiting_answers)



definition demo_program :: "(u64 \<times> u64 list, unit) program_env" where
  "demo_program = \<lparr>pe_version = ''0.1'', pe_config_api = demo_config_api demo_config_json,
     pe_defaults = demo_defaults, pe_files = (\<lambda>_. Some ''body''),
     pe_factory = \<lparr>af_create = (\<lambda>_ _ _. Inr (50, [])), af_register_tool = (\<lambda>_ a. Inr a), af_ops = demo_ops,
       af_max_history = (\<lambda>_. 8), af_queue_capacity = (\<lambda>_. 4)\<rparr>,
     pe_file_system = demo_start_fs, pe_environ = [], pe_hardware_threads = 8, pe_start = 0\<rparr>"

definition demo_unit_view :: "unit zoo_view" where
  "demo_unit_view = \<lparr>zv_role_name = (\<lambda>_. ''user''), zv_max_history_messages = (\<lambda>_. JUInt 8),
     zv_request_queue_capacity = (\<lambda>_. JUInt 4), zv_max_tool_iterations = (\<lambda>_. JUInt 5),
     zv_max_tool_retries = (\<lambda>_. JUInt 2), zv_double = ucast\<rparr>"

definition demo_loop :: "(u64 \<times> u64 list, unit, nat) server \<Rightarrow> (u64 \<times> u64 list, unit, nat) server" where
  "demo_loop srv = reply 7 (make_models_response (en_api demo_env) (sv_model_id (sr_service srv))) srv"

lemma demo_load_file: "load_file demo_program ''c.json'' = Inr demo_loaded"
  using demo_load by (simp add: load_file_def demo_program_def)

lemma demo_api_key: "api_key demo_loaded = None"
  by (simp add: demo_loaded_def demo_defaults_def server_defaults_def)

lemma demo_tools: "tools demo_loaded = []"
  by (simp add: demo_loaded_def demo_defaults_def server_defaults_def)

lemma demo_create: "\<exists>rt :: (u64 \<times> u64 list, unit, nat task) server_runtime. create_runtime demo_program demo_loaded = Inr rt"
  by (simp add: create_runtime_def demo_program_def runtime_create_def demo_tools create_chat_service_def
     create_configured_agent_def Let_def)


text \<open>
  What \<^verbatim>\<open>main\<close> returns on every command line: 0 for \<^verbatim>\<open>--version\<close> and after serving, 1 for a wrong number
  of arguments, a file that does not load and a runtime that cannot be created, each with its own
  message; the server runs only in the one case.
\<close>

theorem program_exit_status:
  "case zoo_keeper_server pe env fk alive loop argv of (status, printed, final) \<Rightarrow>
     if length argv = 2 \<and> argv ! 1 = ''--version'' then status = 0 \<and> final = None
     else if length argv = 2 then
       (case load_file pe (argv ! 1) of
          Inl e \<Rightarrow> status = 1 \<and> printed = [''Config load failed: '' @ e] \<and> final = None
        | Inr config \<Rightarrow>
            (case create_runtime pe config :: (string, ('ag, 'ac, 'c task) server_runtime) result of
               Inl e \<Rightarrow> status = 1 \<and> last printed = ''Config bootstrap failed: '' @ e \<and> final = None
             | Inr rt \<Rightarrow> status = 0 \<and> (\<exists>srv :: ('ag, 'ac, 'c) server. final = Some (Some srv))))
     else status = 1 \<and> final = None"
  by (auto simp: zoo_keeper_server_def server_main_def http_server_run_def Let_def split: sum.splits)

section \<open>The limits reach the listener\<close>

lemma zoo_from_json_http: "zoo_from_json api zoo config = Inr config' \<Longrightarrow> http config' = http config"
  unfolding zoo_from_json_def bind_result_Inr_iff by (elim exE conjE) (auto simp: Let_def)

definition int64_limits :: "http_config \<Rightarrow> bool" where
  "int64_limits h \<longleftrightarrow> client_max_body_size_bytes h < 2 ^ 63 \<and> client_max_memory_body_size_bytes h < 2 ^ 63"

lemma http_from_json_int64:
  assumes "http_from_json api j h = Inr h'" and "\<And>v i. ca_get_int64 api v = Inr i \<Longrightarrow> i < 2 ^ 63"
    and "int64_limits h"
  shows "int64_limits h'"
  using assms by (auto simp: http_from_json_def result_simps read_into_def int64_limits_def split: option.splits)

lemma server_from_json_int64:
  assumes "server_from_json api defaults j = Inr config" and "\<And>v i. ca_get_int64 api v = Inr i \<Longrightarrow> i < 2 ^ 63"
    and "int64_limits (http defaults)"
  shows "int64_limits (http config)"
proof -
  from assms(1) obtain h where "read_into (\<lambda>v. http_from_json api v default_http) ''http'' j (http defaults) = Inr h"
      "http config = h"
    unfolding server_from_json_def bind_result_Inr_iff
    by (elim exE conjE) (auto dest: zoo_from_json_http split: option.splits)
  moreover have "int64_limits default_http" by (simp add: default_http_def int64_limits_def)
  ultimately show ?thesis
    using assms(2,3) by (auto simp: read_into_def split: option.splits dest: http_from_json_int64)
qed

text \<open>
  The two casts to \<^verbatim>\<open>size_t\<close> do not change a limit: the configuration that loaded has checked them to be
  positive, and an \<^verbatim>\<open>int64_t\<close> that is positive fits. The library reads a number into an \<^verbatim>\<open>int64_t\<close>.
\<close>

theorem listener_keeps_configured_limits:
  assumes "load_config api defaults path contents = Inr config"
    and "\<And>v i. ca_get_int64 api v = Inr i \<Longrightarrow> i < 2 ^ 63" and "int64_limits (http defaults)"
  shows "int (lo_max_body (http_listener config)) = client_max_body_size_bytes (http config)
    \<and> int (lo_max_memory_body (http_listener config)) = client_max_memory_body_size_bytes (http config)
    \<and> 0 < lo_max_body (http_listener config) \<and> 0 < lo_max_memory_body (http_listener config)
    \<and> 0 \<le> lo_idle_timeout (http_listener config) \<and> lo_address (http_listener config) \<noteq> []"
proof -
  from assms(1) obtain j where j: "server_from_json api defaults j = Inr config"
    and v: "validate_server_config api config = Inr ()"
    by (auto simp: load_config_def result_simps split: option.splits)
  have "int64_limits (http config)" by (rule server_from_json_int64 [OF j _ assms(3)]) (rule assms(2))
  with v show ?thesis
    by (auto simp: validate_server_config_def validate_http_config_def result_simps http_listener_def size_cast_def
        int64_limits_def mod_pos_pos_trivial split: if_splits)
qed

section \<open>No handler hides another\<close>

fun method_name :: "http_method \<Rightarrow> string" where
  "method_name Get = ''GET''" | "method_name Post = ''POST''" | "method_name Put = ''PUT''"
| "method_name Delete = ''DELETE''" | "method_name Options = ''OPTIONS''"

text \<open>
  No two handlers are registered for the same path pattern and method, so none hides another, and
  every route has its handler.
\<close>

theorem handlers_do_not_shadow:
  "distinct (map endpoint_registration (registered_endpoints ui session_id request_id config))
   \<and> (\<forall>route. registration route \<in> endpoint_registration ` set (registered_endpoints ui session_id request_id config))"
proof
  show "distinct (map endpoint_registration (registered_endpoints ui session_id request_id config))"
    by (simp add: registered_endpoints_def api_endpoints_def)
  show "\<forall>route. registration route \<in> endpoint_registration ` set (registered_endpoints ui session_id request_id config)"
  proof
    fix route show "registration route \<in> endpoint_registration ` set (registered_endpoints ui session_id request_id config)"
      by (cases route) (simp_all add: registered_endpoints_def api_endpoints_def)
  qed
qed

text \<open>
  The handlers under \<open>/v1\<close> are registered for four methods, the preflight answer allows all of them
  but \<^verbatim>\<open>PUT\<close>: a browser refuses the calls that replace the history and set the system prompt.
\<close>

theorem preflight_omits_put:
  "snd ` endpoint_registration ` set (api_endpoints session_id request_id config) - {Options} = {Get, Post, Put, Delete}
   \<and> {m. \<exists>value. (''Access-Control-Allow-Methods'', value) \<in> set (resp_headers options_route)
        \<and> sublist (method_name m) value} = {Get, Post, Delete, Options}"
proof
  show "snd ` endpoint_registration ` set (api_endpoints session_id request_id config) - {Options} = {Get, Post, Put, Delete}"
    by (auto simp: api_endpoints_def)
  have "sublist (method_name m) ''GET, POST, DELETE, OPTIONS'' \<longleftrightarrow> m \<noteq> Put" for m
    by (cases m) (simp_all add: sublist_Cons_right)
  then show "{m. \<exists>value. (''Access-Control-Allow-Methods'', value) \<in> set (resp_headers options_route)
        \<and> sublist (method_name m) value} = {Get, Post, Delete, Options}"
    by (auto simp: options_route_def intro: http_method.exhaust)
qed

end
