(* ===== verification/Extraction_Runs.thy ===== *)
theory Extraction_Runs
  imports Stream_Runs
begin

text \<open>
  The streamed extraction of \<^verbatim>\<open>api_routes.cpp\<close>: the methods of \<^verbatim>\<open>ExtractionStreamingSession\<close> that repeat
  those of the chat session, and a streamed extraction from its request to its last frame. The
  frames come from the same contract (\<open>token_stream\<close>) as those of a streamed completion.
\<close>

section \<open>The methods of the extraction session\<close>

text \<open>
  \<^verbatim>\<open>ExtractionStreamingSession\<close> repeats five methods of \<^verbatim>\<open>StreamingSession\<close>. They are written out here
  from its own source and shown to be the shared operations, so that what is proved of those holds
  for both classes.
\<close>

definition extraction_push_frame_locked :: "wire \<Rightarrow> string \<Rightarrow> stream_session \<Rightarrow> deferred_actions \<times> stream_session" where
  "extraction_push_frame_locked accepts frame s =
     (let actions = no_actions
      in if fs_closing s then (actions, s)
         else if \<not> fs_stream s then (actions, s\<lparr>fs_buffered_frames := fs_buffered_frames s @ [frame]\<rparr>)
         else if \<not> accepts (wire_sent s) frame then
           (actions\<lparr>should_close := True, cancel_cb := fs_cancel_callback s\<rparr>, s\<lparr>fs_closing := True\<rparr>)
         else (actions, s\<lparr>wire_sent := wire_sent s @ [frame]\<rparr>))"

definition extraction_execute_deferred :: "deferred_actions \<Rightarrow> stream_session \<Rightarrow> stream_session" where
  "extraction_execute_deferred actions s = (if cancel_cb actions then s\<lparr>cancels_run := cancels_run s + 1\<rparr> else s)"

definition extraction_set_cancel_callback :: "stream_session \<Rightarrow> stream_session" where
  "extraction_set_cancel_callback s = s\<lparr>fs_cancel_callback := True\<rparr>"

definition extraction_close :: "stream_session \<Rightarrow> stream_session" where
  "extraction_close s =
     (if fs_closing s \<and> \<not> fs_stream s then s
      else
        let has_stream = fs_stream s;
            s = s\<lparr>fs_closing := True, fs_stream := False\<rparr>;
            s = (if has_stream then s\<lparr>fs_buffered_frames := []\<rparr> else s)
        in if has_stream then s\<lparr>wire_closed := True\<rparr> else s)"

text \<open>The loop of \<^verbatim>\<open>attach_stream\<close>: the second result is what it leaves in \<^verbatim>\<open>should_close\<close>.\<close>

fun extraction_send_loop :: "wire \<Rightarrow> string list \<Rightarrow> stream_session \<Rightarrow> stream_session \<times> bool" where
  "extraction_send_loop accepts [] s = (s, False)"
| "extraction_send_loop accepts (frame # frames) s =
     (if \<not> accepts (wire_sent s) frame then (s\<lparr>fs_closing := True\<rparr>, True)
      else extraction_send_loop accepts frames (s\<lparr>wire_sent := wire_sent s @ [frame]\<rparr>))"

definition extraction_attach_stream :: "wire \<Rightarrow> stream_session \<Rightarrow> stream_session" where
  "extraction_attach_stream accepts s =
     (let s = s\<lparr>fs_stream := True\<rparr>;
          (s, failed) = extraction_send_loop accepts (fs_buffered_frames s) s;
          run_cancel_callback = (failed \<and> fs_cancel_callback s);
          s = s\<lparr>fs_buffered_frames := []\<rparr>;
          should_close' = (failed \<or> fs_closing s);
          s = (if run_cancel_callback then s\<lparr>cancels_run := cancels_run s + 1\<rparr> else s)
      in if should_close' then s\<lparr>wire_closed := True\<rparr> else s)"

text \<open>\<^verbatim>\<open>make_stream_response\<close> of \<^verbatim>\<open>api_routes.cpp\<close>.\<close>

definition make_extraction_stream_response :: http_response where
  "make_extraction_stream_response =
     \<lparr>resp_status = 200, resp_content_type = Some ''text/event-stream'', resp_body = [],
      resp_headers = [(''Cache-Control'', ''no-cache''), (''Connection'', ''keep-alive''),
        (''X-Accel-Buffering'', ''no'')]\<rparr>"

lemma extraction_send_loop_eq:
  "extraction_send_loop accepts frames s =
    (let (sent, ok) = send_buffered accepts frames (wire_sent s)
     in (s\<lparr>wire_sent := sent, fs_closing := (fs_closing s \<or> \<not> ok)\<rparr>, \<not> ok))"
  by (induction frames arbitrary: s) (auto simp: Let_def split: prod.splits)

lemma extraction_methods_shared:
  "extraction_push_frame_locked = push_frame_locked"
  "extraction_execute_deferred = execute_deferred"
  "extraction_set_cancel_callback = set_cancel_callback"
  "extraction_close = close_stream"
  "extraction_attach_stream = attach_stream"
  "make_extraction_stream_response = make_stream_response"
proof -
  show "extraction_push_frame_locked = push_frame_locked"
    by (intro ext) (simp add: extraction_push_frame_locked_def push_frame_locked_def no_actions_def Let_def)
  show "extraction_execute_deferred = execute_deferred"
    by (intro ext) (simp add: extraction_execute_deferred_def execute_deferred_def)
  show "extraction_set_cancel_callback = set_cancel_callback"
    by (intro ext) (simp add: extraction_set_cancel_callback_def set_cancel_callback_def)
  show "extraction_close = close_stream"
    by (intro ext) (auto simp: extraction_close_def close_stream_def Let_def)
  show "make_extraction_stream_response = make_stream_response"
    by (simp add: make_extraction_stream_response_def make_stream_response_def)
  show "extraction_attach_stream = attach_stream"
    by (intro ext) (auto simp: extraction_attach_stream_def attach_stream_def extraction_send_loop_eq Let_def
      split: prod.splits)
qed

section \<open>From the request to the last frame\<close>

fun extraction_event ::
  "'ag environment \<Rightarrow> nat \<Rightarrow> u64 \<Rightarrow> stream_op \<Rightarrow> ('ag, 'ac, 'c) server \<Rightarrow> ('ag, 'ac, 'c) server" where
  "extraction_event env client cancel (Token t) srv =
     on_extraction env client cancel (extraction_push_token (en_api env) (en_accepts env client) t) srv"
| "extraction_event env client cancel Attach srv =
     on_extraction env client cancel (extraction_attach_stream (en_accepts env client)) srv"
| "extraction_event env client cancel Metadata srv = srv"

lemma cl_extractions_simps [simp]:
  "cl_extractions (on_extraction env client cancel f srv) =
     (cl_extractions srv)(client := f (cl_extractions srv client))"
  "cl_extractions (finalize_extraction fk p result srv) = cl_extractions srv"
  "cl_extractions (release_pending fk lease srv) = cl_extractions srv"
  "cl_extractions (unwatch_connection alive watch srv) = cl_extractions srv"
  by (auto simp: on_extraction_def Let_def finalize_extraction_def release_pending_def unwatch_connection_def
      split: option.split prod.split)

lemma extraction_events_session:
  assumes "en_accepts env client = accepts_all" and "Metadata \<notin> set ops"
  shows "cl_extractions (fold (extraction_event env client cancel) ops srv) client =
    fold (extraction_step (en_api env) i c m) ops (cl_extractions srv client)"
  using assms(2)
proof (induction ops arbitrary: srv)
  case (Cons op ops)
  then show ?case by (cases op) (simp_all add: assms(1) extraction_methods_shared)
qed simp

lemma finish_extraction_session:
  assumes "task_extraction env p = Inr r"
  shows "cl_extractions (run_task env fk alive (Finish_extraction client watch p) srv) client =
    extraction_finish_success (en_api env) (en_status env) (en_accepts env client) r (cl_extractions srv client)"
  using assms by (auto simp: server_simps finish_extraction_stream_def Let_def)

lemma extraction_rep_set_cancel [simp]:
  "extraction_rep api i c m (set_cancel_callback s) a = extraction_rep api i c m s a"
  by (simp add: extraction_rep_def holds_def set_cancel_callback_def)

lemma stream_extraction_deferred:
  assumes accepting: "\<not> sr_stopping srv" "\<not> stopping (sr_executor srv)"
      "length (tasks (sr_executor srv)) < max_pending_tasks (sr_executor srv)"
    and begun: "start_extraction (en_ops env) ck request (sr_service srv) = (Inr p, service)"
    and later: "extraction_wait_for (pd_handle p) = Timeout"
  shows "\<exists>watch srv1. start_stream_extraction env moved ck fk alive client connection early request srv = (Returned, srv1)
    \<and> tasks (sr_executor srv1) = tasks (sr_executor srv) @ [Finish_extraction client watch p]
    \<and> cl_sent srv1 = cl_sent srv @ [(client, make_stream_response)]
    \<and> cl_extractions srv1 client = set_cancel_callback (extraction_set_metadata (en_api env) (en_accepts env client)
        (pd_id p) (pd_created p) (pd_model p)
        (fold (extraction_push_token (en_api env) (en_accepts env client)) early new_stream))"
proof -
  let ?session = "set_cancel_callback (extraction_set_metadata (en_api env) (en_accepts env client) (pd_id p)
        (pd_created p) (pd_model p)
        (fold (extraction_push_token (en_api env) (en_accepts env client)) early new_stream))"
  let ?mid = "srv\<lparr>sr_service := service, cl_extractions := (cl_extractions srv)(client := ?session)\<rparr>"
  obtain watch mid where w: "watch_connection connection (Drop_extraction client (pd_cancel p)) ?mid = (watch, mid)"
    by fastforce
  have mid: "sr_executor mid = sr_executor srv" "sr_stopping mid = sr_stopping srv" "cl_sent mid = cl_sent srv"
      "cl_extractions mid = (cl_extractions srv)(client := ?session)"
    using w by (auto simp: watch_connection_def split: option.splits prod.splits)
  have "submit_background (Finish_extraction client watch p) mid =
      (Inr (), mid\<lparr>sr_executor := (sr_executor mid)\<lparr>tasks := tasks (sr_executor mid) @ [Finish_extraction client watch p]\<rparr>\<rparr>)"
    using submit_background_accepts [of mid] accepting mid by simp
  then show ?thesis
    using begun later w mid
    by (intro exI [of _ watch] exI) (auto simp: start_stream_extraction_def Let_def reply_def)
qed

lemma extraction_tokens_fold:
  "fold (extraction_push_token api accepts_all) ts s = fold (extraction_step api i c m) (map Token ts) s"
  by (induction ts arbitrary: s) simp_all


definition demo_extraction_request :: extraction_request where
  "demo_extraction_request = \<lparr>ex_model = ''m'', ex_schema = JObject [], ex_messages = [user_message ''hi''],
     ex_stream = True, ex_session_id = None, ex_overrides = no_overrides\<rparr>"


end
