(* ===== verification/Spec2Isabelle.thy ===== *)
theory Spec2Isabelle
  imports Session_Threads Executor Handles Auth Streaming Api_Json Metrics Zoo_Adapter Stream_Session
    Chat_Service Disconnect Tool_Schema Server_Config Tool_Scope Startup Http_Server Stream_Runs
    Service_Threads Session_Spec Request_Log Program Extraction_Runs
begin

text \<open>
  Verification of zoo-keeper-server.

  The program is an HTTP server (C++23, \<^verbatim>\<open>src/src/server\<close>) in front of a local language-model
  agent of the library zoo-keeper. A request passes the authorization check, is parsed from JSON,
  starts a generation through the chat service (with or without a session), and is answered at
  once, later by a background task, or token by token over a server-sent event stream.

  \<^bold>\<open>Theories and the code they model\<close> (paths under \<^verbatim>\<open>src/src/server\<close>)

  \<^item> \<^verbatim>\<open>Zks_Prelude\<close>: results as sums (\<^verbatim>\<open>std::expected\<close>), association-list stores
    (\<^verbatim>\<open>std::unordered_map\<close>), decimal numbers (\<^verbatim>\<open>std::to_string\<close>), \<^verbatim>\<open>size_t\<close> arithmetic.
  \<^item> \<^verbatim>\<open>Json_Values\<close>, \<^verbatim>\<open>Internal_Utils\<close>: the values of \<^verbatim>\<open>nlohmann::json\<close> and \<^verbatim>\<open>internal_utils.hpp\<close>.
  \<^item> \<^verbatim>\<open>Api_Types\<close>, \<^verbatim>\<open>Handles\<close>: \<^verbatim>\<open>api_types.hpp\<close> and \<^verbatim>\<open>api_types.cpp\<close>.
  \<^item> \<^verbatim>\<open>Auth\<close>: \<^verbatim>\<open>auth.hpp\<close>. \<^verbatim>\<open>Streaming\<close>: \<^verbatim>\<open>streaming.cpp\<close>. \<^verbatim>\<open>Executor\<close>: \<^verbatim>\<open>executor.cpp\<close>.
  \<^item> \<^verbatim>\<open>Session_Store\<close>, \<^verbatim>\<open>Session_Threads\<close>: \<^verbatim>\<open>session_manager.cpp\<close>, first each operation as a function
    of the store, then every critical section as one step of any number of threads. \<^verbatim>\<open>Session_Spec\<close>:
    the table of sessions it implements.
  \<^item> \<^verbatim>\<open>Api_Json\<close>: \<^verbatim>\<open>api_json.cpp\<close> and the body builders of \<^verbatim>\<open>api_routes.cpp\<close>.
  \<^item> \<^verbatim>\<open>Metrics\<close>: \<^verbatim>\<open>metrics.hpp\<close>, \<^verbatim>\<open>metrics.cpp\<close>, \<^verbatim>\<open>route_utils\<close>. \<^verbatim>\<open>Zoo_Adapter\<close>: \<^verbatim>\<open>zoo_adapter.cpp\<close>.
  \<^item> \<^verbatim>\<open>Stream_Session\<close>: \<^verbatim>\<open>StreamingSession\<close> of \<^verbatim>\<open>completion_controller.cpp\<close> and
    \<^verbatim>\<open>ExtractionStreamingSession\<close> of \<^verbatim>\<open>api_routes.cpp\<close>.
  \<^item> \<^verbatim>\<open>Chat_Service\<close>, \<^verbatim>\<open>Service_Threads\<close>: \<^verbatim>\<open>chat_service.cpp\<close> over a parameter for \<^verbatim>\<open>zoo::Agent\<close>, each
    operation as a function, then one lock at a time with any number of threads. \<^verbatim>\<open>Request_Log\<close>: the log
    lines of completions and sessions.
  \<^item> \<^verbatim>\<open>Disconnect\<close>: \<^verbatim>\<open>DisconnectRegistry\<close> of \<^verbatim>\<open>api_routes.cpp\<close>.
  \<^item> \<^verbatim>\<open>Tool_Schema\<close>, \<^verbatim>\<open>Command_Tools\<close>, \<^verbatim>\<open>Tool_Runs\<close>, \<^verbatim>\<open>Tool_Resources\<close>, \<^verbatim>\<open>Tool_Scope\<close>: \<^verbatim>\<open>command_tools.cpp\<close>
    (\<^verbatim>\<open>Tool_Resources\<close> its wrappers of descriptors and of the child process, \<^verbatim>\<open>Tool_Scope\<close> a whole run with
    its local variables and their destructors). \<^verbatim>\<open>Server_Config\<close>: \<^verbatim>\<open>config.cpp\<close>.
  \<^item> \<^verbatim>\<open>Runtime\<close>: \<^verbatim>\<open>runtime.cpp\<close> and \<^verbatim>\<open>health.cpp\<close>. \<^verbatim>\<open>Startup\<close>: creation of the service and the runtime, \<^verbatim>\<open>main.cpp\<close>.
  \<^item> \<^verbatim>\<open>Controller\<close>: the functions \<^verbatim>\<open>start_*\<close> of \<^verbatim>\<open>completion_controller.cpp\<close> and \<^verbatim>\<open>api_routes.cpp\<close>, the
    tasks they leave to the executor and the callbacks they leave to the registry. \<^verbatim>\<open>Routes\<close>: every
    handler of \<^verbatim>\<open>register_api_routes\<close> and \<^verbatim>\<open>register_chat_completion_route\<close>.
  \<^item> \<^verbatim>\<open>Http_Server\<close>: \<^verbatim>\<open>http_server.cpp\<close> (cross-origin header, shutting down) and \<^verbatim>\<open>test_ui.cpp\<close>.
  \<^item> \<^verbatim>\<open>Program\<close>: \<^verbatim>\<open>main\<close> composed with the loader, the creation of the runtime and the server; the
    listener's options and the table of handlers (\<^verbatim>\<open>http_server.cpp\<close>).
  \<^item> \<^verbatim>\<open>Request_Lifecycle\<close>, \<^verbatim>\<open>Server_Runs\<close>, \<^verbatim>\<open>Stream_Runs\<close>, \<^verbatim>\<open>Extraction_Runs\<close>: the effects of handlers
    and tasks on the whole server, the histories a server can have, and what holds in all of them
    (the last also the methods \<^verbatim>\<open>ExtractionStreamingSession\<close> has of its own).

  \<^bold>\<open>Conventions\<close>

  State is a record passed explicitly; an operation that may fail returns a sum with the API error
  on the left; a clock reading is an argument, one for each call of the clock. Code outside the
  repository (the JSON library's parser and printer, zoo-keeper's agent and validators, the
  operating system, the connection) is a parameter or a list of its answers, never a definition.
  Mutexes appear as the granularity of steps: what one \<^verbatim>\<open>lock_guard\<close> protects is one definition,
  and the theorems on interleavings quantify over every order of these steps.

  \<^bold>\<open>What is shown\<close>

  The server: every request is answered exactly once in every history (unless its handler throws, a
  defect that is stated too), the counters of answers are exact, a request without the key changes
  nothing, a completion is answered with its own result, a stream carries exactly the tokens, a
  disconnect ends it, and shutting down answers what is queued; so \<^verbatim>\<open>main\<close> returns with every request
  answered. Sessions: the store refines a table of sessions; histories stay bounded and alternate,
  only the request that holds a session writes its history, deletion cancels the running
  generation. The chat service with any number of threads: it refines the interleaved store, only
  running requests can be cancelled, a request that has ended leaves nothing behind, and every
  operation can always end. Executor: tasks run once, in order, and a stop drains the queue. Streams: every token is
  sent once and in order, a refused frame stops the stream and cancels the generation. Requests:
  what the parsers accept and how they refuse; histories survive a write and a read. Command tools:
  search path, environment, output limits, exit status and timeout of a run; on every way out
  of a run each descriptor is closed, each spawn object destroyed and the child reaped, exactly
  once. Configuration: what loads is valid. Some theorems state defects of the code as it is; they are listed as findings.

  \<^bold>\<open>Bounds\<close>

  Counters are 64-bit words and wrap. The run loop of a tool consumes one \<open>turn\<close> per iteration and
  is \<open>None\<close> when the list of turns ends first, so a claim that it returns names a list that suffices
  and a claim that it does not end speaks about every list of a kind. No other fuel is used.

  \<^bold>\<open>Not modelled\<close>

  Matching of a path to a pattern, signals and the event loop (the HTTP framework's; the loop is a
  function of the server whose histories are \<open>server_reaches\<close>), the two smoke programs and the
  script of the test page. The order of hash tables and the interleaving of log lines are not
  determined by the code and not stated.
\<close>

end
